(* ===== verification/Prelude.thy ===== *)
theory Prelude
  imports Main "HOL-Library.Monad_Syntax" "HOL-Library.AList" "HOL-Library.Word"
    "HOL-Library.Char_ord" "HOL-Library.List_Lexorder" "HOL-Library.Log_Nat"
begin

text \<open>
  Shared vocabulary of the development.

  \<^item> A Go statement that can panic is a value of \<open>'a option\<close>: \<open>None\<close> is the panic
    (a failed index, \<open>rand.Intn\<close> of a non-positive argument, \<open>strings.Builder.Grow\<close> of a
    negative argument), and \<open>do\<close> blocks over \<open>option\<close> sequence such statements.
    \<open>yields m P\<close> says that \<open>m\<close> does not panic and that its value satisfies \<open>P\<close>; the
    collection \<open>yields_intro\<close> holds one rule per library operation.
  \<^item> A Go \<open>int\<close> or \<open>int64\<close> is an \<open>int\<close>; \<open>w64\<close> is the two's complement wrap-around
    of its arithmetic and \<open>i64\<close> the range of its values.
  \<^item> A Go \<open>string\<close> is a HOL \<open>string\<close>: both are sequences of bytes.
  \<^item> A Go map is an association list with distinct keys (\<open>gomap\<close>); a Go set
    (\<open>map[K]struct{}\<close>) is a list without duplicates.
\<close>

named_theorems yields_intro "rules for statements that do not panic"
named_theorems goval "evaluation of the model's library functions"

subsection \<open>Statements that may panic\<close>

definition yields :: "'a option \<Rightarrow> ('a \<Rightarrow> bool) \<Rightarrow> bool" where
  "yields m P = (case m of None \<Rightarrow> False | Some x \<Rightarrow> P x)"

lemma yields_Some [simp]: "yields (Some x) P = P x"
  by (simp add: yields_def)

lemma yields_None [simp]: "\<not> yields None P"
  by (simp add: yields_def)

lemma yields_bind [simp]: "yields (m \<bind> f) P = yields m (\<lambda>x. yields (f x) P)"
  by (cases m) simp_all

lemma yields_mono: "yields m P \<Longrightarrow> (\<And>x. P x \<Longrightarrow> Q x) \<Longrightarrow> yields m Q"
  by (cases m) simp_all

lemma yields_case_prod [simp]:
  "yields (case p of (a, b) \<Rightarrow> f a b) P = (case p of (a, b) \<Rightarrow> yields (f a b) P)"
  by (cases p) simp

lemma yields_ex: "yields m P \<longleftrightarrow> (\<exists>x. m = Some x \<and> P x)"
  by (cases m) simp_all

lemma yieldsD: "yields m P \<Longrightarrow> m = Some x \<Longrightarrow> P x"
  by simp

lemma yields_noteq: "yields m P \<Longrightarrow> m \<noteq> None"
  by (cases m) simp_all

text \<open>Indexing a slice: out of range panics.\<close>

definition nth_go :: "'a list \<Rightarrow> int \<Rightarrow> 'a option" where
  "nth_go xs i = (if 0 \<le> i \<and> i < int (length xs) then Some (xs ! nat i) else None)"

lemma nth_go_yields [yields_intro]:
  "0 \<le> i \<Longrightarrow> i < int (length xs) \<Longrightarrow> (\<And>x. x \<in> set xs \<Longrightarrow> P x) \<Longrightarrow> yields (nth_go xs i) P"
  by (simp add: nth_go_def nat_less_iff)

lemma nth_go_Some: "nth_go xs i = Some x \<Longrightarrow> x \<in> set xs"
  by (auto simp: nth_go_def nat_less_iff split: if_splits)

text \<open>A \<open>for i := range pool\<close> loop that fills a slice by running \<open>f\<close> \<open>n\<close> times.\<close>

primrec repeat_go :: "nat \<Rightarrow> ('s \<Rightarrow> ('a \<times> 's) option) \<Rightarrow> 's \<Rightarrow> ('a list \<times> 's) option" where
  "repeat_go 0 f s = Some ([], s)"
| "repeat_go (Suc n) f s =
     do { (x, s') \<leftarrow> f s; (xs, s'') \<leftarrow> repeat_go n f s'; Some (x # xs, s'') }"

lemma repeat_go_yields:
  assumes "\<And>s. yields (f s) (\<lambda>(x, _). P x)"
  shows "yields (repeat_go n f s) (\<lambda>(xs, _). length xs = n \<and> (\<forall>x \<in> set xs. P x))"
proof (induction n arbitrary: s)
  case (Suc n)
  show ?case
    by (auto intro!: yields_mono [OF assms [of s]] yields_mono [OF Suc.IH])
qed simp

lemma repeat_go_total:
  assumes "\<And>s. yields (f s) (\<lambda>_. True)"
  shows "yields (repeat_go n f s) (\<lambda>(xs, _). length xs = n)"
  by (rule yields_mono [OF repeat_go_yields [where P = "\<lambda>_. True"]])
    (use assms in \<open>auto simp: case_prod_unfold\<close>)

text \<open>A loop over the elements of a slice, each step reading and writing the state.\<close>

primrec each_go :: "('x \<Rightarrow> 's \<Rightarrow> ('a \<times> 's) option) \<Rightarrow> 'x list \<Rightarrow> 's \<Rightarrow> ('a list \<times> 's) option" where
  "each_go f [] s = Some ([], s)"
| "each_go f (x # xs) s =
     do { (y, s') \<leftarrow> f x s; (ys, s'') \<leftarrow> each_go f xs s'; Some (y # ys, s'') }"

lemma each_go_yields:
  assumes "\<And>x s. x \<in> set xs \<Longrightarrow> yields (f x s) (\<lambda>(y, _). P x y)"
  shows "yields (each_go f xs s) (\<lambda>(ys, _). list_all2 P xs ys)"
  using assms
proof (induction xs arbitrary: s)
  case (Cons x xs)
  have x: "yields (f x s) (\<lambda>(y, _). P x y)" and
    xs: "\<And>s'. yields (each_go f xs s') (\<lambda>(ys, _). list_all2 P xs ys)"
    using Cons by simp_all
  show ?case
    by (auto intro!: yields_mono [OF x] yields_mono [OF xs])
qed simp

subsection \<open>Machine integers\<close>

definition w64 :: "int \<Rightarrow> int" where
  "w64 x = signed_take_bit 63 x"

definition i64 :: "int \<Rightarrow> bool" where
  "i64 x \<longleftrightarrow> - (2 ^ 63) \<le> x \<and> x < 2 ^ 63"

lemma w64_id: "- (2 ^ 63) \<le> x \<Longrightarrow> x < 2 ^ 63 \<Longrightarrow> w64 x = x"
  by (simp add: w64_def signed_take_bit_int_eq_self)

lemma i64_w64: "i64 x \<Longrightarrow> w64 x = x"
  by (simp add: i64_def w64_id)

lemma i64_w64_range: "i64 (w64 x)"
  using signed_take_bit_int_greater_eq_minus_exp [of 63 x] signed_take_bit_int_less_exp [of 63 x]
  by (simp add: i64_def w64_def)

text \<open>Go's \<open>%\<close> truncates: the remainder has the sign of the dividend.\<close>

definition rem_go :: "int \<Rightarrow> int \<Rightarrow> int" where
  "rem_go a b = sgn a * (\<bar>a\<bar> mod \<bar>b\<bar>)"

definition div_go :: "int \<Rightarrow> int \<Rightarrow> int" where
  "div_go a b = sgn a * sgn b * (\<bar>a\<bar> div \<bar>b\<bar>)"

lemma rem_go_nonneg [simp]: "0 \<le> a \<Longrightarrow> 0 < b \<Longrightarrow> rem_go a b = a mod b"
  by (cases "a = 0") (simp_all add: rem_go_def sgn_if)

lemma div_go_nonneg [simp]: "0 \<le> a \<Longrightarrow> 0 < b \<Longrightarrow> div_go a b = a div b"
  by (cases "a = 0") (simp_all add: div_go_def sgn_if)

lemma rem_go_dvd: "b \<noteq> 0 \<Longrightarrow> rem_go a b = 0 \<longleftrightarrow> b dvd a"
  by (auto simp: rem_go_def sgn_if dvd_eq_mod_eq_0 [symmetric])

subsection \<open>Maps and sets\<close>

type_synonym ('k, 'v) gomap = "('k \<times> 'v) list"

abbreviation keys_go :: "('k, 'v) gomap \<Rightarrow> 'k list" where
  "keys_go m \<equiv> map fst m"

abbreviation put_go :: "'k \<Rightarrow> 'v \<Rightarrow> ('k, 'v) gomap \<Rightarrow> ('k, 'v) gomap" where
  "put_go \<equiv> AList.update"

lemma distinct_put_go [simp, intro]:
  "distinct (keys_go m) \<Longrightarrow> distinct (keys_go (put_go k v m))"
  by (rule distinct_update)

lemma map_of_put_go: "map_of (put_go k v m) = (map_of m)(k \<mapsto> v)"
  by (rule update_conv')

lemma map_of_put_go_same [simp]: "map_of (put_go k v m) k = Some v"
  by (simp add: map_of_put_go)

lemma set_keys_put_go [simp]: "fst ` set (put_go k v m) = insert k (fst ` set m)"
  using dom_update [of k v m] by (simp add: dom_map_of_conv_image_fst [symmetric] map_of_put_go)

text \<open>Adding to a set keeps it free of duplicates.\<close>

lemma length_insert_set: "distinct xs \<Longrightarrow> length (List.insert x xs) = card (insert x (set xs))"
  by (metis distinct_card distinct_insert set_insert)

subsection \<open>Lists\<close>

lemma concat_blocks:
  "concat (map (\<lambda>i. map (\<lambda>j. i * k + j) [0..<k]) [0..<n]) = [0..<n * k]"
proof (induction n)
  case (Suc n)
  have "map (\<lambda>j. n * k + j) [0..<k] = [n * k..<n * k + k]"
    using map_add_upt [of "n * k" k] by (simp add: add.commute)
  moreover have "[0..<n * k] @ [n * k..<n * k + k] = [0..<n * k + k]"
    using upt_add_eq_append [of 0 "n * k" k] by simp
  ultimately show ?case
    using Suc by (simp add: add.commute)
qed simp

lemma length_filter_le_Suc: "length (filter P (x # xs)) \<le> Suc (length (filter P xs))"
  by simp

end
