(* ===== verification/GoFloat.thy ===== *)
theory GoFloat
  imports Complex_Main Prelude
begin

text \<open>
  Go's \<open>float64\<close>: a finite value is the rational number it stands for, the other values are
  the two infinities and NaN; the two zeros are one value, which only division by zero could
  tell apart. \<open>rnd\<close> rounds an exact result to the nearest double (53 bits, ties to even,
  gradual underflow, overflow to an infinity), and each operation is the exact operation
  followed by \<open>rnd\<close>. \<open>flt\<close> and \<open>fle\<close> are Go's \<open><\<close> and \<open><=\<close>, false on NaN. The
  lemmas show that rounding is monotone and exact on representable numbers, and from that
  the sign and order facts about sums and products which the receiver's bounds rest on.
\<close>

datatype f64 = Fin rat | PInf | NInf | NaN

subsection \<open>Rounding\<close>

definition ilog2 :: "rat \<Rightarrow> int" where
  "ilog2 x = (let (p, q) = quotient_of x; d = bitlen p - bitlen q
     in if 2 powi d \<le> x then d else d - 1)"

definition rhe :: "rat \<Rightarrow> int" where
  "rhe x = (let f = \<lfloor>x\<rfloor>; d = x - of_int f
     in if d < 1 / 2 then f else if 1 / 2 < d then f + 1 else if even f then f else f + 1)"

definition qexp :: "rat \<Rightarrow> int" where
  "qexp x = max (ilog2 x - 52) (- 1074)"

definition rnd_pos :: "rat \<Rightarrow> rat" where
  "rnd_pos x = of_int (rhe (x * 2 powi (- qexp x))) * 2 powi (qexp x)"

definition rnd_rat :: "rat \<Rightarrow> rat" where
  "rnd_rat x = (if x = 0 then 0 else if 0 < x then rnd_pos x else - rnd_pos (- x))"

definition fbound :: rat where
  "fbound = 2 ^ 1024"

definition rnd :: "rat \<Rightarrow> f64" where
  "rnd x = (let v = rnd_rat x
     in if fbound \<le> v then PInf else if v \<le> - fbound then NInf else Fin v)"

subsection \<open>Operations\<close>

fun fsgn :: "f64 \<Rightarrow> int" where
  "fsgn (Fin x) = \<lfloor>sgn x\<rfloor>"
| "fsgn PInf = 1"
| "fsgn NInf = - 1"
| "fsgn NaN = 0"

definition finf :: "int \<Rightarrow> f64" where
  "finf s = (if 0 < s then PInf else if s < 0 then NInf else NaN)"

fun fneg :: "f64 \<Rightarrow> f64" where
  "fneg (Fin x) = Fin (- x)"
| "fneg PInf = NInf"
| "fneg NInf = PInf"
| "fneg NaN = NaN"

fun fabs :: "f64 \<Rightarrow> f64" where
  "fabs (Fin x) = Fin \<bar>x\<bar>"
| "fabs PInf = PInf"
| "fabs NInf = PInf"
| "fabs NaN = NaN"

fun fadd :: "f64 \<Rightarrow> f64 \<Rightarrow> f64" where
  "fadd (Fin x) (Fin y) = rnd (x + y)"
| "fadd NaN b = NaN"
| "fadd a NaN = NaN"
| "fadd (Fin x) b = b"
| "fadd a (Fin y) = a"
| "fadd a b = (if a = b then a else NaN)"

definition fsub :: "f64 \<Rightarrow> f64 \<Rightarrow> f64" where
  "fsub a b = fadd a (fneg b)"

fun fmul :: "f64 \<Rightarrow> f64 \<Rightarrow> f64" where
  "fmul (Fin x) (Fin y) = rnd (x * y)"
| "fmul NaN b = NaN"
| "fmul a NaN = NaN"
| "fmul a b = finf (fsgn a * fsgn b)"

fun fdiv :: "f64 \<Rightarrow> f64 \<Rightarrow> f64" where
  "fdiv (Fin x) (Fin y) = (if y = 0 then finf (fsgn (Fin x)) else rnd (x / y))"
| "fdiv NaN b = NaN"
| "fdiv a NaN = NaN"
| "fdiv (Fin x) b = Fin 0"
| "fdiv a (Fin y) = finf (fsgn a * (if y < 0 then - 1 else 1))"
| "fdiv a b = NaN"

text \<open>\<open>a < b\<close>, \<open>a <= b\<close> and \<open>a == b\<close>.\<close>

fun flt :: "f64 \<Rightarrow> f64 \<Rightarrow> bool" where
  "flt (Fin x) (Fin y) = (x < y)"
| "flt NaN b = False"
| "flt a NaN = False"
| "flt NInf b = (b \<noteq> NInf)"
| "flt a PInf = (a \<noteq> PInf)"
| "flt a b = False"

fun fle :: "f64 \<Rightarrow> f64 \<Rightarrow> bool" where
  "fle (Fin x) (Fin y) = (x \<le> y)"
| "fle NaN b = False"
| "fle a NaN = False"
| "fle NInf b = True"
| "fle a PInf = True"
| "fle a b = False"

fun feq :: "f64 \<Rightarrow> f64 \<Rightarrow> bool" where
  "feq NaN b = False"
| "feq a b = (a = b)"

text \<open>
  \<open>float64(n)\<close>, \<open>int(x)\<close> and \<open>math.Round(x)\<close>. The conversion to \<open>int\<close> truncates towards
  zero; where the truncated value is no \<open>int\<close> the language leaves the result to the
  implementation, and this is the value of the \<open>amd64\<close> instruction the conversion compiles to.
\<close>

definition of_i64 :: "int \<Rightarrow> f64" where
  "of_i64 n = rnd (of_int n)"

definition trunc_rat :: "rat \<Rightarrow> int" where
  "trunc_rat x = (if 0 \<le> x then \<lfloor>x\<rfloor> else - \<lfloor>- x\<rfloor>)"

fun to_i64 :: "f64 \<Rightarrow> int" where
  "to_i64 (Fin x) = (let n = trunc_rat x in if - (2 ^ 63) \<le> n \<and> n < 2 ^ 63 then n else - (2 ^ 63))"
| "to_i64 _ = - (2 ^ 63)"

fun fround :: "f64 \<Rightarrow> f64" where
  "fround (Fin x) = Fin (of_int (if 0 \<le> x then \<lfloor>x + 1 / 2\<rfloor> else - \<lfloor>- x + 1 / 2\<rfloor>))"
| "fround v = v"

text \<open>A value that a \<open>float64\<close> can hold.\<close>

fun f64_ok :: "f64 \<Rightarrow> bool" where
  "f64_ok (Fin x) = (rnd x = Fin x)"
| "f64_ok _ = True"

abbreviation nonneg :: "f64 \<Rightarrow> bool" where
  "nonneg a \<equiv> fle (Fin 0) a"

subsection \<open>Rounding is monotone and exact on representable numbers\<close>

lemma powi_add2: "(2::rat) powi (a + b) = 2 powi a * 2 powi b"
  by (simp add: power_int_add)

lemma powi_minus2: "(2::rat) powi a * 2 powi (- a) = 1"
  by (simp add: power_int_minus)

lemma powi_nat2: "0 \<le> k \<Longrightarrow> (2::rat) powi k = of_int (2 ^ nat k)"
  by (simp add: power_int_def)

lemma powi_52: "(2::rat) powi 52 = of_int (2 ^ 52)"
  by (simp add: power_int_def)

lemma powi_53: "(2::rat) powi 53 = of_int (2 ^ 53)"
  by (simp add: power_int_def)

lemma ilog2_bounds:
  assumes "0 < x"
  shows "2 powi (ilog2 x) \<le> x \<and> x < 2 powi (ilog2 x + 1)"
proof -
  obtain p q where pq: "quotient_of x = (p, q)" by (cases "quotient_of x")
  have q: "0 < q" using pq quotient_of_denom_pos by blast
  have x: "x = of_int p / of_int q" using pq by (rule quotient_of_div)
  with assms q have p: "0 < p" by (simp add: zero_less_divide_iff)
  have bl: "2 powi (bitlen n - 1) \<le> (of_int n :: rat) \<and> (of_int n :: rat) < 2 powi (bitlen n)"
    if "0 < n" for n :: int
  proof -
    have 1: "2 ^ nat (bitlen n - 1) \<le> n" "n < 2 ^ nat (bitlen n)"
      using bitlen_bounds [OF that] by auto
    have 2: "1 \<le> bitlen n" using that bitlen_nonneg [of n] bitlen_eq_zero_iff [of n] by linarith
    have "(of_int (2 ^ nat (bitlen n - 1)) :: rat) \<le> of_int n" and
      "(of_int n :: rat) < of_int (2 ^ nat (bitlen n))"
      using 1 by (simp_all only: of_int_le_iff of_int_less_iff)
    with 2 show ?thesis by (simp add: powi_nat2)
  qed
  let ?d = "bitlen p - bitlen q"
  have "x * 2 powi (bitlen q) > x * of_int q"
    using assms bl [OF q] by simp
  moreover have "x * of_int q = of_int p" using x q by simp
  ultimately have lo: "2 powi (bitlen p - 1) < x * 2 powi (bitlen q)"
    using bl [OF p] by simp
  have "x * 2 powi (bitlen q - 1) \<le> x * of_int q"
    using assms bl [OF q] by simp
  with bl [OF p] \<open>x * of_int q = of_int p\<close>
  have hi: "x * 2 powi (bitlen q - 1) < 2 powi (bitlen p)" by simp
  have lo': "2 powi (?d - 1) < x"
  proof -
    have "2 powi (bitlen p - 1) = (2 powi (?d - 1) :: rat) * 2 powi (bitlen q)"
      by (simp flip: powi_add2)
    with lo show ?thesis by simp
  qed
  have hi': "x < 2 powi (?d + 1)"
  proof -
    have "2 powi (bitlen p) = (2 powi (?d + 1) :: rat) * 2 powi (bitlen q - 1)"
      by (simp flip: powi_add2)
    with hi show ?thesis by simp
  qed
  show ?thesis
    using lo' hi' by (auto simp: ilog2_def pq Let_def)
qed

lemma powi_less2: "(2::rat) powi a < 2 powi b \<longleftrightarrow> a < b"
  by (metis (no_types) linorder_not_less power_int_increasing power_int_strict_increasing
      one_less_numeral_iff semiring_norm(76) order_less_imp_le)

lemma powi_le2: "(2::rat) powi a \<le> 2 powi b \<longleftrightarrow> a \<le> b"
  using powi_less2 [of b a] by (simp flip: not_less)

lemma ilog2_mono: "0 < x \<Longrightarrow> x \<le> y \<Longrightarrow> ilog2 x \<le> ilog2 y"
proof -
  assume "0 < x" "x \<le> y"
  then have "2 powi (ilog2 x) \<le> x" and "y < 2 powi (ilog2 y + 1)"
    using ilog2_bounds [of x] ilog2_bounds [of y] by auto
  with \<open>x \<le> y\<close> have "(2::rat) powi (ilog2 x) < 2 powi (ilog2 y + 1)" by simp
  then show ?thesis by (simp add: powi_less2)
qed

lemma rhe_floor: "\<lfloor>x\<rfloor> \<le> rhe x \<and> rhe x \<le> \<lfloor>x\<rfloor> + 1"
  by (simp add: rhe_def Let_def)

lemma rhe_int [simp]: "rhe (of_int n) = n"
  by (simp add: rhe_def)

lemma rhe_mono: "x \<le> y \<Longrightarrow> rhe x \<le> rhe y"
proof (cases "\<lfloor>x\<rfloor> = \<lfloor>y\<rfloor>")
  case True
  assume "x \<le> y"
  with True show ?thesis by (auto simp: rhe_def Let_def)
next
  case False
  assume "x \<le> y"
  with False have "\<lfloor>x\<rfloor> + 1 \<le> \<lfloor>y\<rfloor>" using floor_mono [of x y] by simp
  with rhe_floor [of x] rhe_floor [of y] show ?thesis by simp
qed

lemma rhe_le: "x \<le> of_int n \<Longrightarrow> rhe x \<le> n"
  using rhe_mono [of x "of_int n"] by simp

lemma rhe_ge: "of_int n \<le> x \<Longrightarrow> n \<le> rhe x"
  using rhe_mono [of "of_int n" x] by simp

lemma scaled_lt: assumes "0 < x" shows "x * 2 powi (- qexp x) < of_int (2 ^ 53)"
proof -
  have "x < 2 powi (ilog2 x + 1)" using ilog2_bounds [OF assms] by simp
  also have "\<dots> \<le> 2 powi (qexp x + 53)" by (simp add: powi_le2 qexp_def)
  finally have "x * 2 powi (- qexp x) < 2 powi (qexp x + 53) * 2 powi (- qexp x)" by simp
  also have "\<dots> = 2 powi 53" by (simp flip: powi_add2)
  finally show ?thesis by (simp only: powi_53)
qed

lemma rnd_pos_nonneg: "0 < x \<Longrightarrow> 0 \<le> rnd_pos x"
  using rhe_ge [of 0 "x * 2 powi (- qexp x)"] by (simp add: rnd_pos_def)

lemma rnd_pos_mono:
  assumes "0 < x" and "x \<le> y"
  shows "rnd_pos x \<le> rnd_pos y"
proof (cases "qexp x = qexp y")
  case True
  have "x * 2 powi (- qexp y) \<le> y * 2 powi (- qexp y)" using assms by simp
  from rhe_mono [OF this] show ?thesis
    by (simp add: rnd_pos_def True)
next
  case False
  with ilog2_mono [OF assms] have lt: "qexp x < qexp y" by (auto simp: qexp_def)
  then have qy: "qexp y = ilog2 y - 52" by (auto simp: qexp_def split: if_splits)
  have "rhe (x * 2 powi (- qexp x)) \<le> 2 ^ 53"
    using scaled_lt [OF assms(1)] by (intro rhe_le) simp
  then have "(of_int (rhe (x * 2 powi (- qexp x))) :: rat) \<le> of_int (2 ^ 53)"
    by (simp only: of_int_le_iff)
  then have "rnd_pos x \<le> of_int (2 ^ 53) * 2 powi (qexp x)"
    by (simp add: rnd_pos_def)
  also have "\<dots> = 2 powi (53 + qexp x)" by (simp only: powi_add2 powi_53)
  also have "\<dots> \<le> 2 powi (52 + qexp y)" using lt by (simp add: powi_le2)
  also have "\<dots> = of_int (2 ^ 52) * 2 powi (qexp y)" by (simp only: powi_add2 powi_52)
  also have "\<dots> \<le> rnd_pos y"
  proof -
    have "2 powi (ilog2 y) \<le> y" using ilog2_bounds [of y] assms by simp
    then have "2 powi (ilog2 y) * 2 powi (- qexp y) \<le> y * 2 powi (- qexp y)" by simp
    moreover have "(2::rat) powi (ilog2 y) * 2 powi (- qexp y) = of_int (2 ^ 52)"
      by (simp add: qy powi_52 flip: powi_add2)
    ultimately have "2 ^ 52 \<le> rhe (y * 2 powi (- qexp y))" by (intro rhe_ge) simp
    then have "(of_int (2 ^ 52) :: rat) \<le> of_int (rhe (y * 2 powi (- qexp y)))"
      by (simp only: of_int_le_iff)
    then show ?thesis by (simp add: rnd_pos_def)
  qed
  finally show ?thesis .
qed

lemma rnd_rat_mono: "x \<le> y \<Longrightarrow> rnd_rat x \<le> rnd_rat y"
proof -
  assume xy: "x \<le> y"
  consider "0 < x" | "x \<le> 0" "0 \<le> y" | "y < 0" by linarith
  then show ?thesis
  proof cases
    case 1
    with xy rnd_pos_mono show ?thesis by (simp add: rnd_rat_def)
  next
    case 2
    then have "rnd_rat x \<le> 0" and "0 \<le> rnd_rat y"
      using rnd_pos_nonneg [of "- x"] rnd_pos_nonneg [of y] by (auto simp: rnd_rat_def)
    then show ?thesis by simp
  next
    case 3
    with xy rnd_pos_mono [of "- y" "- x"] show ?thesis by (simp add: rnd_rat_def)
  qed
qed

lemma rnd_mono: "x \<le> y \<Longrightarrow> fle (rnd x) (rnd y)"
  using rnd_rat_mono [of x y] by (auto simp: rnd_def Let_def)

lemma rnd_pos_exact:
  assumes m: "0 < m" "m \<le> 2 ^ 53" and e: "- 1074 \<le> e"
  shows "rnd_pos (of_int m * 2 powi e) = of_int m * 2 powi e"
proof -
  let ?x = "of_int m * 2 powi e :: rat"
  have x: "0 < ?x" using m by simp
  have "\<exists>n. ?x * 2 powi (- qexp ?x) = of_int n"
  proof (cases "qexp ?x \<le> e")
    case True
    have "?x * 2 powi (- qexp ?x) = of_int m * 2 powi (e - qexp ?x)"
      by (simp flip: powi_add2)
    also have "\<dots> = of_int (m * 2 ^ nat (e - qexp ?x))" using True by (simp add: powi_nat2)
    finally show ?thesis by blast
  next
    case False
    with e have q: "qexp ?x = ilog2 ?x - 52" by (auto simp: qexp_def split: if_splits)
    have "2 powi (qexp ?x + 52) \<le> ?x" using ilog2_bounds [OF x] by (simp add: q)
    moreover have "?x \<le> 2 powi (53 + e)"
    proof -
      have "(of_int m :: rat) \<le> of_int (2 ^ 53)" using m by (simp only: of_int_le_iff)
      then show ?thesis unfolding powi_add2 powi_53 by (rule mult_right_mono) simp
    qed
    ultimately have "(2::rat) powi (qexp ?x + 52) \<le> 2 powi (53 + e)" by simp
    with False have qe: "qexp ?x = e + 1" by (simp add: powi_le2)
    with \<open>2 powi (qexp ?x + 52) \<le> ?x\<close> \<open>?x \<le> 2 powi (53 + e)\<close>
    have "?x = 2 powi (53 + e)" by (simp add: add.commute)
    then have "?x * 2 powi (- (e + 1)) = of_int (2 ^ 52)"
      by (simp add: powi_52 flip: powi_add2)
    then have "?x * 2 powi (- qexp ?x) = of_int (2 ^ 52)" unfolding qe .
    then show ?thesis by blast
  qed
  then obtain n where n: "?x * 2 powi (- qexp ?x) = of_int n" by blast
  have "of_int n * 2 powi (qexp ?x) = ?x"
    using powi_minus2 [of "qexp ?x"] unfolding n [symmetric] by (simp only: mult.assoc mult.commute [of "2 powi (- qexp ?x)"] mult_1_right)
  then show ?thesis by (simp add: rnd_pos_def n)
qed

lemma rnd_rat_int: "\<bar>n\<bar> \<le> 2 ^ 53 \<Longrightarrow> rnd_rat (of_int n) = of_int n"
  using rnd_pos_exact [of n 0] rnd_pos_exact [of "- n" 0]
  by (cases n "0::int" rule: linorder_cases) (simp_all add: rnd_rat_def)

lemma rnd_int [simp]:
  assumes "\<bar>n\<bar> \<le> 2 ^ 53" shows "rnd (of_int n) = Fin (of_int n)"
proof -
  have "of_int (2 ^ 53) < fbound"
    unfolding fbound_def of_int_power of_int_numeral by (rule power_strict_increasing) simp_all
  moreover have "\<bar>of_int n :: rat\<bar> \<le> of_int (2 ^ 53)" using assms by (simp only: of_int_abs [symmetric] of_int_le_iff)
  ultimately have "\<bar>of_int n :: rat\<bar> < fbound" by (rule le_less_trans [rotated])
  then have "\<not> fbound \<le> of_int n" and "\<not> of_int n \<le> - fbound" by linarith+
  then show ?thesis using rnd_rat_int [OF assms] by (simp add: rnd_def)
qed

lemma rnd_0 [simp]: "rnd 0 = Fin 0"
  using rnd_int [of 0] by simp

lemma rnd_1 [simp]: "rnd 1 = Fin 1"
  using rnd_int [of 1] by simp

lemma rnd_rat_idem: "rnd_rat (rnd_rat x) = rnd_rat x"
proof -
  have pos: "rnd_rat (rnd_pos y) = rnd_pos y \<and> rnd_rat (- rnd_pos y) = - rnd_pos y" if y: "0 < y" for y
  proof -
    let ?m = "rhe (y * 2 powi (- qexp y))"
    have m: "?m \<le> 2 ^ 53" using scaled_lt [OF y] by (intro rhe_le) simp
    have "0 \<le> ?m" using y by (intro rhe_ge) simp
    then consider "?m = 0" | "0 < ?m" by linarith
    then show ?thesis
    proof cases
      case 1
      then have "rnd_pos y = 0" by (simp add: rnd_pos_def)
      then show ?thesis by (simp add: rnd_rat_def)
    next
      case 2
      have "rnd_pos (rnd_pos y) = rnd_pos y"
        unfolding rnd_pos_def [of y] by (rule rnd_pos_exact [OF 2 m]) (simp add: qexp_def)
      moreover have "0 < rnd_pos y" using 2 by (simp add: rnd_pos_def)
      ultimately show ?thesis by (simp add: rnd_rat_def)
    qed
  qed
  show ?thesis
    using pos [of x] pos [of "- x"] by (cases x "0::rat" rule: linorder_cases) (auto simp: rnd_rat_def)
qed

lemma rnd_idem: "rnd x = Fin v \<Longrightarrow> rnd v = Fin v"
  using rnd_rat_idem [of x] by (auto simp: rnd_def Let_def split: if_splits)

lemma rnd_ok [simp]: "f64_ok (rnd x)"
  using rnd_idem [of x] by (cases "rnd x") auto

lemma rnd_not_NaN [simp]: "rnd x \<noteq> NaN"
  by (simp add: rnd_def Let_def)

lemma rnd_le: "x \<le> v \<Longrightarrow> rnd v = Fin v \<Longrightarrow> fle (rnd x) (Fin v)"
  using rnd_mono [of x v] by simp

lemma rnd_ge: "v \<le> x \<Longrightarrow> rnd v = Fin v \<Longrightarrow> fle (Fin v) (rnd x)"
  using rnd_mono [of v x] by simp

subsection \<open>Order and sign\<close>

lemma fle_refl: "a \<noteq> NaN \<Longrightarrow> fle a a"
  by (cases a) simp_all

lemma fle_PInf: "a \<noteq> NaN \<Longrightarrow> fle a PInf"
  by (cases a) simp_all

lemma NInf_fle: "a \<noteq> NaN \<Longrightarrow> fle NInf a"
  by (cases a) simp_all

lemma fle_trans: "fle a b \<Longrightarrow> fle b c \<Longrightarrow> fle a c"
  by (cases a; cases b; cases c) simp_all

lemma flt_fle_trans: "flt a b \<Longrightarrow> fle b c \<Longrightarrow> flt a c"
  by (cases a; cases b; cases c) simp_all

lemma fle_flt_trans: "fle a b \<Longrightarrow> flt b c \<Longrightarrow> flt a c"
  by (cases a; cases b; cases c) simp_all

lemma flt_irrefl [simp]: "\<not> flt a a"
  by (cases a) simp_all

lemma flt_fle: "flt a b \<Longrightarrow> fle a b"
  by (cases a; cases b) simp_all

lemma not_flt: "a \<noteq> NaN \<Longrightarrow> b \<noteq> NaN \<Longrightarrow> \<not> flt a b \<longleftrightarrow> fle b a"
  by (cases a; cases b) auto

lemma flt_not_fle: "a \<noteq> NaN \<Longrightarrow> b \<noteq> NaN \<Longrightarrow> flt a b \<longleftrightarrow> \<not> fle b a"
  using not_flt by blast

lemma fle_not_NaN: "fle a b \<Longrightarrow> a \<noteq> NaN \<and> b \<noteq> NaN"
  by (cases a; cases b) simp_all

lemma nonneg_rnd: "0 \<le> x \<Longrightarrow> nonneg (rnd x)"
  using rnd_mono [of 0 x] by simp

lemma fadd_nonneg: "nonneg a \<Longrightarrow> nonneg b \<Longrightarrow> nonneg (fadd a b)"
  by (cases a; cases b) (simp_all add: nonneg_rnd)

lemma fadd_ge: "nonneg b \<Longrightarrow> a \<noteq> NaN \<Longrightarrow> f64_ok a \<Longrightarrow> a \<noteq> NInf \<Longrightarrow> fle a (fadd a b)"
  using rnd_mono by (cases a; cases b) (fastforce intro: rnd_ge)+

lemma fadd_mono_right: "fle b c \<Longrightarrow> fle (fadd (Fin x) b) (fadd (Fin x) c)"
  by (cases b; cases c) (simp_all add: rnd_mono fle_PInf NInf_fle)

lemma fmul_nonneg_fin: "0 \<le> x \<Longrightarrow> 0 \<le> y \<Longrightarrow> nonneg (fmul (Fin x) (Fin y))"
  by (simp add: nonneg_rnd)

lemma of_i64_small: "\<bar>n\<bar> \<le> 2 ^ 53 \<Longrightarrow> of_i64 n = Fin (of_int n)"
  by (simp add: of_i64_def)

lemma to_i64_range: "i64 (to_i64 v)"
  by (cases v) (simp_all add: i64_def Let_def)

lemma to_i64_of_int: "i64 n \<Longrightarrow> to_i64 (Fin (of_int n)) = n"
  by (auto simp: i64_def trunc_rat_def Let_def)

end
