(* ===== verification/GoRand.thy ===== *)
theory GoRand
  imports GoFloat
begin

unbundle bit_operations_syntax

text \<open>
  Go's \<open>math/rand\<close> generator (\<open>*rand.Rand\<close>) as the receiver uses it. The state is the
  sequence of 64-bit values its source will still deliver in the run (\<open>tape\<close>) and the
  bytes \<open>Read\<close> has left over. A run that ends reads finitely many values, so every such run
  is the run on some finite \<open>tape\<close>; past its end the source delivers 0, which every
  rejection loop accepts. Each method below is the library's own derivation of its result
  from the source's values, and every theorem about a generator holds for all tapes, that
  is, for whatever the source delivers.
\<close>

record rng =
  tape :: "64 word list"
  read_val :: int
  read_pos :: nat

definition new_rng :: "64 word list \<Rightarrow> rng" where
  "new_rng ws = \<lparr>tape = ws, read_val = 0, read_pos = 0\<rparr>"

subsection \<open>Single draws\<close>

definition uint64_go :: "rng \<Rightarrow> 64 word \<times> rng" where
  "uint64_go r = (case tape r of [] \<Rightarrow> (0, r) | w # ws \<Rightarrow> (w, r\<lparr>tape := ws\<rparr>))"

definition int63_of :: "64 word \<Rightarrow> int" where
  "int63_of w = uint w mod 2 ^ 63"

definition int31_of :: "64 word \<Rightarrow> int" where
  "int31_of w = int63_of w div 2 ^ 32"

definition int63_go :: "rng \<Rightarrow> int \<times> rng" where
  "int63_go r = (let (w, r') = uint64_go r in (int63_of w, r'))"

subsection \<open>Rejection loops\<close>

text \<open>\<open>v := draw(); for v > max { v = draw() }\<close>\<close>

fun draw_upto :: "(64 word \<Rightarrow> int) \<Rightarrow> int \<Rightarrow> 64 word list \<Rightarrow> int \<times> 64 word list" where
  "draw_upto d m [] = (0, [])"
| "draw_upto d m (w # ws) = (let v = d w in if m < v then draw_upto d m ws else (v, ws))"

definition uniform :: "(64 word \<Rightarrow> int) \<Rightarrow> nat \<Rightarrow> int \<Rightarrow> rng \<Rightarrow> (int \<times> rng) option" where
  "uniform d b n r =
     (if n \<le> 0 then None
      else if n AND (n - 1) = 0 then
        (let (w, r') = uint64_go r in Some (d w AND (n - 1), r'))
      else
        (let (v, ws) = draw_upto d (2 ^ b - 1 - 2 ^ b mod n) (tape r)
         in Some (v mod n, r\<lparr>tape := ws\<rparr>)))"

definition int63n :: "int \<Rightarrow> rng \<Rightarrow> (int \<times> rng) option" where
  "int63n = uniform int63_of 63"

definition int31n :: "int \<Rightarrow> rng \<Rightarrow> (int \<times> rng) option" where
  "int31n = uniform int31_of 31"

definition intn :: "int \<Rightarrow> rng \<Rightarrow> (int \<times> rng) option" where
  "intn n r = (if n \<le> 0 then None else if n \<le> 2 ^ 31 - 1 then int31n n r else int63n n r)"

fun draw_unit :: "64 word list \<Rightarrow> f64 \<times> 64 word list" where
  "draw_unit [] = (Fin 0, [])"
| "draw_unit (w # ws) =
     (let f = fdiv (of_i64 (int63_of w)) (Fin (2 ^ 63))
      in if feq f (Fin 1) then draw_unit ws else (f, ws))"

definition float64_go :: "rng \<Rightarrow> f64 \<times> rng" where
  "float64_go r = (let (f, ws) = draw_unit (tape r) in (f, r\<lparr>tape := ws\<rparr>))"

subsection \<open>Bytes\<close>

text \<open>\<open>Read\<close> takes seven bytes from each 63-bit value and keeps the rest for the next call.\<close>

primrec read_go :: "nat \<Rightarrow> rng \<Rightarrow> 8 word list \<times> rng" where
  "read_go 0 r = ([], r)"
| "read_go (Suc n) r =
     (let r1 = (if read_pos r = 0
                then let (v, r') = int63_go r in r'\<lparr>read_val := v, read_pos := 7\<rparr>
                else r);
          (bs, r2) = read_go n (r1\<lparr>read_val := read_val r1 div 256, read_pos := read_pos r1 - 1\<rparr>)
      in (word_of_int (read_val r1) # bs, r2))"

definition rand_byte :: "rng \<Rightarrow> 8 word \<times> rng" where
  "rand_byte r = (let (v, r') = int63_go r in (word_of_int v, r'))"

text \<open>\<open>xs[rng.Intn(len(xs))]\<close>, which panics when \<open>xs\<close> is empty.\<close>

definition pick :: "'a list \<Rightarrow> rng \<Rightarrow> ('a \<times> rng) option" where
  "pick xs r = do { (i, r') \<leftarrow> intn (int (length xs)) r; x \<leftarrow> nth_go xs i; Some (x, r') }"

subsection \<open>Ranges\<close>

lemma int63_of_range: "0 \<le> int63_of w \<and> int63_of w < 2 ^ 63"
  by (simp add: int63_of_def)

lemma int31_of_range: "0 \<le> int31_of w \<and> int31_of w < 2 ^ 31"
  using int63_of_range [of w] by (auto simp: int31_of_def)

lemma int63_go_range: "int63_go r = (v, r') \<Longrightarrow> 0 \<le> v \<and> v < 2 ^ 63"
  using int63_of_range by (auto simp: int63_go_def split_beta)

lemma draw_upto_range:
  "(\<And>w. 0 \<le> d w) \<Longrightarrow> 0 \<le> m \<Longrightarrow> draw_upto d m ws = (v, ws') \<Longrightarrow> 0 \<le> v \<and> v \<le> m"
  by (induction ws) (auto simp: Let_def split: if_splits)

lemma uniform_yields:
  assumes n: "0 < n" and d: "\<And>w. 0 \<le> d w"
    and Q: "\<And>v r'. 0 \<le> v \<Longrightarrow> v < n \<Longrightarrow> Q (v, r')"
  shows "yields (uniform d b n r) Q"
proof (cases "n AND (n - 1) = 0")
  case True
  have "0 \<le> x AND (n - 1) \<and> x AND (n - 1) < n" if "0 \<le> x" for x
    using AND_upper2 [of "n - 1" x] AND_lower [OF that, of "n - 1"] n by simp
  with True n d Q show ?thesis by (simp add: uniform_def split_beta)
next
  case False
  with n Q show ?thesis by (simp add: uniform_def split_beta)
qed

lemma int63n_yields [yields_intro]:
  "0 < n \<Longrightarrow> (\<And>v r'. 0 \<le> v \<Longrightarrow> v < n \<Longrightarrow> Q (v, r')) \<Longrightarrow> yields (int63n n r) Q"
  unfolding int63n_def by (rule uniform_yields) (auto simp: int63_of_range)

lemma int31n_yields:
  "0 < n \<Longrightarrow> (\<And>v r'. 0 \<le> v \<Longrightarrow> v < n \<Longrightarrow> Q (v, r')) \<Longrightarrow> yields (int31n n r) Q"
  unfolding int31n_def by (rule uniform_yields) (auto simp: int31_of_range)

lemma intn_yields [yields_intro]:
  "0 < n \<Longrightarrow> (\<And>v r'. 0 \<le> v \<Longrightarrow> v < n \<Longrightarrow> Q (v, r')) \<Longrightarrow> yields (intn n r) Q"
  by (simp add: intn_def int31n_yields int63n_yields)

lemma intn_panics: "intn n r = None \<longleftrightarrow> n \<le> 0"
proof
  show "n \<le> 0" if "intn n r = None"
    using intn_yields [of n "\<lambda>_. True" r] that by fastforce
qed (simp add: intn_def)

lemma int63n_panics: "int63n n r = None \<longleftrightarrow> n \<le> 0"
proof
  show "n \<le> 0" if "int63n n r = None"
    using int63n_yields [of n "\<lambda>_. True" r] that by fastforce
qed (simp add: int63n_def uniform_def)

lemma pick_yields [yields_intro]:
  assumes "xs \<noteq> []" and "\<And>x r'. x \<in> set xs \<Longrightarrow> Q (x, r')"
  shows "yields (pick xs r) Q"
  using assms by (auto simp: pick_def split_beta intro!: yields_intro)

lemma pick_Some: "pick xs r = Some (x, r') \<Longrightarrow> x \<in> set xs"
  by (auto simp: pick_def split: bind_splits prod.splits dest: nth_go_Some)

lemma rnd_pow2: "0 \<le> k \<Longrightarrow> k \<le> 1023 \<Longrightarrow> rnd (2 powi k) = Fin (2 powi k)"
proof -
  assume k: "0 \<le> k" "k \<le> 1023"
  have "rnd_rat (2 powi k) = 2 powi k"
    using rnd_pos_exact [of 1 k] k by (simp add: rnd_rat_def)
  moreover have "(2::rat) powi k < fbound"
    using powi_less2 [of k 1024] k by (simp add: fbound_def power_int_def)
  moreover have "0 < (2::rat) powi k" by simp
  ultimately have "rnd_rat (2 powi k) = 2 powi k" "\<not> fbound \<le> 2 powi k" "\<not> (2::rat) powi k \<le> - fbound"
    by linarith+
  then show ?thesis by (simp add: rnd_def)
qed

lemma draw_unit_range: "draw_unit ws = (f, ws') \<Longrightarrow> \<exists>x. f = Fin x \<and> 0 \<le> x \<and> x < 1 \<and> rnd x = Fin x"
proof (induction ws)
  case (Cons w ws)
  let ?f = "fdiv (of_i64 (int63_of w)) (Fin (2 ^ 63))"
  have p: "rnd (2 ^ 63) = Fin (2 ^ 63)" using rnd_pow2 [of 63] by (simp add: power_int_def)
  have "(of_int (int63_of w) :: rat) \<le> of_int (2 ^ 63)"
    unfolding of_int_le_iff using int63_of_range [of w] by (simp add: less_imp_le)
  then have "of_int (int63_of w) \<le> (2 ^ 63 :: rat)" by simp
  with p have "fle (of_i64 (int63_of w)) (Fin (2 ^ 63))"
    unfolding of_i64_def by (simp only: rnd_le)
  moreover have "nonneg (of_i64 (int63_of w))"
    using int63_of_range [of w] by (simp add: of_i64_def nonneg_rnd)
  ultimately obtain y where y: "of_i64 (int63_of w) = Fin y" "0 \<le> y" "y \<le> 2 ^ 63"
    by (cases "of_i64 (int63_of w)") auto
  define z where "z = y / 2 ^ 63"
  have z: "0 \<le> z" "z \<le> 1" using y by (simp_all add: z_def)
  have f: "?f = rnd z" using y(1) by (simp add: z_def)
  have "fle (rnd z) (Fin 1)" and "nonneg (rnd z)"
    using z rnd_le [of z 1] nonneg_rnd [of z] by simp_all
  then obtain x where x: "?f = Fin x" "0 \<le> x" "x \<le> 1"
    unfolding f by (cases "rnd z") auto
  then have "rnd x = Fin x" using rnd_idem f by metis
  show ?case
  proof (cases "x = 1")
    case True
    with Cons x show ?thesis by (simp add: Let_def)
  next
    case False
    with Cons.prems x have "f = Fin x" by (simp add: Let_def)
    with False x \<open>rnd x = Fin x\<close> show ?thesis by simp
  qed
qed auto

lemma float64_range:
  "float64_go r = (f, r') \<Longrightarrow> \<exists>x. f = Fin x \<and> 0 \<le> x \<and> x < 1 \<and> rnd x = Fin x"
  using draw_unit_range [of "tape r"] by (cases "draw_unit (tape r)") (auto simp: float64_go_def)

lemma float64_range': "\<exists>x. fst (float64_go r) = Fin x \<and> 0 \<le> x \<and> x < 1 \<and> rnd x = Fin x"
  by (rule float64_range [OF prod.collapse [symmetric]])

lemma read_go_length: "length (fst (read_go n r)) = n"
  by (induction n arbitrary: r) (simp_all add: split_beta Let_def)

end
