(* ===== verification/GoText.thy ===== *)
theory GoText
  imports GoRand
begin

text \<open>
  The parts of \<open>strconv\<close>, \<open>strings\<close>, \<open>encoding/hex\<close> and \<open>time\<close> that the receiver calls,
  as executable functions on byte strings, and the record \<open>golib\<close> of the library functions
  whose results are not determined by their documentation alone: the transcendental
  functions and the distributions of \<open>math/rand\<close> built on them, the number sequence of a
  seed, the formatting of floating point numbers and of dates, and the treatment of text
  outside ASCII. Every definition of the model that reaches one of them takes the record
  as its first argument. The predicates \<open>cos_ok\<close>, \<open>exp_ok\<close> and \<open>zipf_ok\<close> state what
  their documentation promises.
\<close>

subsection \<open>Integers as text\<close>

definition digit_char :: "nat \<Rightarrow> char" where
  "digit_char d = (if d < 10 then char_of (48 + d) else char_of (87 + d))"

lemma digit_char_eval [simp]:
  "digit_char 0 = CHR ''0''" "digit_char 1 = CHR ''1''" "digit_char (Suc 0) = CHR ''1''"
  "digit_char 2 = CHR ''2''" "digit_char 3 = CHR ''3''" "digit_char 4 = CHR ''4''"
  "digit_char 5 = CHR ''5''" "digit_char 6 = CHR ''6''" "digit_char 7 = CHR ''7''"
  "digit_char 8 = CHR ''8''" "digit_char 9 = CHR ''9''" "digit_char 10 = CHR ''a''"
  "digit_char 11 = CHR ''b''" "digit_char 12 = CHR ''c''" "digit_char 13 = CHR ''d''"
  "digit_char 14 = CHR ''e''" "digit_char 15 = CHR ''f''"
  by code_simp+

fun fmt_nat :: "nat \<Rightarrow> nat \<Rightarrow> string" where
  "fmt_nat b n = (if n < b \<or> b < 2 then [digit_char n]
                  else fmt_nat b (n div b) @ [digit_char (n mod b)])"

declare fmt_nat.simps [simp del]

definition fmt_int :: "nat \<Rightarrow> int \<Rightarrow> string" where
  "fmt_int b i = (if i < 0 then CHR ''-'' # fmt_nat b (nat (- i)) else fmt_nat b (nat i))"

abbreviation itoa :: "int \<Rightarrow> string" where
  "itoa \<equiv> fmt_int 10"

definition hex_encode :: "8 word list \<Rightarrow> string" where
  "hex_encode bs = concat (map (\<lambda>b. [digit_char (unat b div 16), digit_char (unat b mod 16)]) bs)"

subsection \<open>Strings\<close>

definition ascii :: "string \<Rightarrow> bool" where
  "ascii s \<longleftrightarrow> list_all (\<lambda>c. of_char c < (128 :: nat)) s"

definition upper_char :: "char \<Rightarrow> char" where
  "upper_char c = (let n = of_char c :: nat in if 97 \<le> n \<and> n \<le> 122 then char_of (n - 32) else c)"

definition space_char :: "char \<Rightarrow> bool" where
  "space_char c \<longleftrightarrow> (let n = of_char c :: nat in n = 32 \<or> 9 \<le> n \<and> n \<le> 13)"

definition trim_ascii :: "string \<Rightarrow> string" where
  "trim_ascii s = rev (dropWhile space_char (rev (dropWhile space_char s)))"

definition has_prefix :: "string \<Rightarrow> string \<Rightarrow> bool" where
  "has_prefix s p \<longleftrightarrow> take (length p) s = p"

definition has_suffix :: "string \<Rightarrow> string \<Rightarrow> bool" where
  "has_suffix s p \<longleftrightarrow> length p \<le> length s \<and> drop (length s - length p) s = p"

definition trim_prefix :: "string \<Rightarrow> string \<Rightarrow> string" where
  "trim_prefix s p = (if has_prefix s p then drop (length p) s else s)"

text \<open>\<open>strings.ReplaceAll(s, old, new)\<close> and \<open>strings.Count(s, old)\<close> for a non-empty \<open>old\<close>.\<close>

function replace_all :: "string \<Rightarrow> string \<Rightarrow> string \<Rightarrow> string" where
  "replace_all s old new =
     (if s = [] \<or> old = [] then s
      else if has_prefix s old then new @ replace_all (drop (length old) s) old new
      else hd s # replace_all (tl s) old new)"
  by pat_completeness auto
termination
  by (relation "measure (\<lambda>(s, old, new). length s)") auto

declare replace_all.simps [simp del]

function count_sub :: "string \<Rightarrow> string \<Rightarrow> nat" where
  "count_sub s old =
     (if s = [] \<or> old = [] then 0
      else if has_prefix s old then Suc (count_sub (drop (length old) s) old)
      else count_sub (tl s) old)"
  by pat_completeness auto
termination
  by (relation "measure (\<lambda>(s, old). length s)") auto

declare count_sub.simps [simp del]

text \<open>One character of \<open>strconv.Quote\<close> below 128.\<close>

definition quote_char :: "char \<Rightarrow> string" where
  "quote_char c =
     (let n = of_char c :: nat; bs = char_of (92 :: nat); dq = char_of (34 :: nat)
      in if c = dq then [bs, dq]
         else if c = bs then [bs, bs]
         else if 32 \<le> n \<and> n \<le> 126 then [c]
         else if n = 7 then [bs, CHR ''a'']
         else if n = 8 then [bs, CHR ''b'']
         else if n = 12 then [bs, CHR ''f'']
         else if n = 10 then [bs, CHR ''n'']
         else if n = 13 then [bs, CHR ''r'']
         else if n = 9 then [bs, CHR ''t'']
         else if n = 11 then [bs, CHR ''v'']
         else [bs, CHR ''x'', digit_char (n div 16), digit_char (n mod 16)])"

subsection \<open>Time\<close>

text \<open>
  \<open>time.Time\<close>: nanoseconds since the Unix epoch, unbounded, and the offset of its location
  in seconds. \<open>time.Duration\<close> is an \<open>int\<close> of nanoseconds in the range of \<open>int64\<close>.
\<close>

record gotime =
  unix_ns :: int
  zone_off :: int

definition second_ns :: int where
  "second_ns = 1000000000"

definition zero_time :: gotime where
  "zero_time = \<lparr>unix_ns = - 62135596800 * second_ns, zone_off = 0\<rparr>"

definition is_zero_time :: "gotime \<Rightarrow> bool" where
  "is_zero_time t \<longleftrightarrow> unix_ns t = unix_ns zero_time"

definition add_time :: "gotime \<Rightarrow> int \<Rightarrow> gotime" where
  "add_time t d = t\<lparr>unix_ns := unix_ns t + d\<rparr>"

definition after_time :: "gotime \<Rightarrow> gotime \<Rightarrow> bool" where
  "after_time t u \<longleftrightarrow> unix_ns u < unix_ns t"

definition unix_nano :: "gotime \<Rightarrow> int" where
  "unix_nano t = w64 (unix_ns t)"

definition hour_of :: "gotime \<Rightarrow> int" where
  "hour_of t = ((unix_ns t div second_ns + zone_off t) mod 86400) div 3600"

definition truncate_second :: "gotime \<Rightarrow> gotime" where
  "truncate_second t = t\<lparr>unix_ns := unix_ns t - unix_ns t mod second_ns\<rparr>"

lemma hour_of_range: "0 \<le> hour_of t \<and> hour_of t < 24"
  unfolding hour_of_def
  using pos_mod_bound [of 86400 "unix_ns t div second_ns + zone_off t"]
    pos_mod_sign [of 86400 "unix_ns t div second_ns + zone_off t"]
  by (auto simp: div_less_iff_less_mult pos_imp_zdiv_nonneg_iff)

subsection \<open>Values of type any\<close>

text \<open>
  The dynamic types that the source stores in an \<open>any\<close>: \<open>nil\<close>, \<open>int\<close>, \<open>int64\<close>,
  \<open>uint64\<close>, \<open>float64\<close>, \<open>bool\<close>, \<open>string\<close>, \<open>routeWithTemplate\<close> (body and template;
  its \<open>String\<close> method returns the body) and \<open>[]any\<close>.
\<close>

datatype any = ANil | AInt int | AInt64 int | AUint64 "64 word" | AFloat f64 | ABool bool
  | AStr string | ARoute string string | ASlice "any list"

subsection \<open>Library functions that are parameters\<close>

record golib =
  cos_fn :: "f64 \<Rightarrow> f64"
  exp_fn :: "f64 \<Rightarrow> f64"
  norm_fn :: "rng \<Rightarrow> f64 \<times> rng"
  zipf_fn :: "f64 \<Rightarrow> f64 \<Rightarrow> 64 word \<Rightarrow> rng \<Rightarrow> 64 word \<times> rng"
  source_fn :: "int \<Rightarrow> 64 word list"
  fmt_time_fn :: "string \<Rightarrow> gotime \<Rightarrow> string"
  fmt_g_fn :: "f64 \<Rightarrow> string"
  fmt_f_fn :: "f64 \<Rightarrow> string"
  upper_fn :: "string \<Rightarrow> string"
  trim_fn :: "string \<Rightarrow> string"
  quote_fn :: "string \<Rightarrow> string"
  rune_fn :: "string \<Rightarrow> nat"
  cidr6_fn :: "string \<Rightarrow> (8 word list \<times> 8 word list) option"
  sprintf_fn :: "string \<Rightarrow> any list \<Rightarrow> string"

definition to_upper :: "golib \<Rightarrow> string \<Rightarrow> string" where
  "to_upper G s = (if ascii s then map upper_char s else upper_fn G s)"

definition trim_space :: "golib \<Rightarrow> string \<Rightarrow> string" where
  "trim_space G s = (if ascii s then trim_ascii s else trim_fn G s)"

definition quote_go :: "golib \<Rightarrow> string \<Rightarrow> string" where
  "quote_go G s =
     (if ascii s then char_of (34 :: nat) # concat (map quote_char s) @ [char_of (34 :: nat)]
      else quote_fn G s)"

definition rune_count :: "golib \<Rightarrow> string \<Rightarrow> nat" where
  "rune_count G s = (if ascii s then length s else rune_fn G s)"

definition new_rand :: "golib \<Rightarrow> int \<Rightarrow> rng" where
  "new_rand G seed = new_rng (source_fn G seed)"

text \<open>\<open>fmt.Sprint\<close> of one operand, which is also the verb \<open>%v\<close> of \<open>fmt.Sprintf\<close>.\<close>

fun join_space :: "string list \<Rightarrow> string" where
  "join_space [] = []"
| "join_space [s] = s"
| "join_space (s # ss) = s @ '' '' @ join_space ss"

fun sprint :: "golib \<Rightarrow> any \<Rightarrow> string" where
  "sprint G ANil = ''<nil>''"
| "sprint G (AInt n) = itoa n"
| "sprint G (AInt64 n) = itoa n"
| "sprint G (AUint64 w) = fmt_nat 10 (unat w)"
| "sprint G (AFloat x) = fmt_g_fn G x"
| "sprint G (ABool b) = (if b then ''true'' else ''false'')"
| "sprint G (AStr s) = s"
| "sprint G (ARoute body tpl) = body"
| "sprint G (ASlice vs) = ''['' @ join_space (map (sprint G) vs) @ '']''"

text \<open>
  \<open>fmt.Sprintf\<close> for the verbs and operands it shares with the source's own formatter, one
  operand per verb; every other use (a flag, a wrong operand, a missing or extra one) is the
  library's.
\<close>

definition verb_text :: "golib \<Rightarrow> char \<Rightarrow> any \<Rightarrow> string option" where
  "verb_text G v a =
     (if v = CHR ''v'' then Some (sprint G a)
      else let text = (\<lambda>s. if v = CHR ''s'' then Some s else if v = CHR ''q'' then Some (quote_go G s) else None);
               number = (\<lambda>n. if v = CHR ''d'' then Some (itoa n) else if v = CHR ''x'' then Some (fmt_int 16 n) else None)
      in case a of AStr s \<Rightarrow> text s | ARoute body tpl \<Rightarrow> text body
         | AInt n \<Rightarrow> number n | AInt64 n \<Rightarrow> number n | AUint64 w \<Rightarrow> number (uint w) | _ \<Rightarrow> None)"

fun sprintf_plain :: "golib \<Rightarrow> string \<Rightarrow> any list \<Rightarrow> string option" where
  "sprintf_plain G [] as = (if as = [] then Some [] else None)"
| "sprintf_plain G [c] as = (if c \<noteq> CHR ''%'' \<and> as = [] then Some [c] else None)"
| "sprintf_plain G (c # v # cs) as =
     (if c \<noteq> CHR ''%'' then map_option ((#) c) (sprintf_plain G (v # cs) as)
      else if v = CHR ''%'' then map_option ((#) v) (sprintf_plain G cs as)
      else case as of [] \<Rightarrow> None
        | a # as' \<Rightarrow> do { t \<leftarrow> verb_text G v a; s \<leftarrow> sprintf_plain G cs as'; Some (t @ s) })"

definition Sprintf :: "golib \<Rightarrow> string \<Rightarrow> any list \<Rightarrow> string" where
  "Sprintf G f as = (case sprintf_plain G f as of Some s \<Rightarrow> s | None \<Rightarrow> sprintf_fn G f as)"

text \<open>\<open>math.Cos\<close> of a finite number lies in \<open>[-1, 1]\<close>.\<close>

definition cos_ok :: "golib \<Rightarrow> bool" where
  "cos_ok G \<longleftrightarrow> (\<forall>x. \<exists>y. cos_fn G (Fin x) = Fin y \<and> - 1 \<le> y \<and> y \<le> 1)"

text \<open>\<open>NewZipf\<close>: the variates lie in \<open>[0, imax]\<close>.\<close>

definition zipf_ok :: "golib \<Rightarrow> bool" where
  "zipf_ok G \<longleftrightarrow> (\<forall>s v m r. fst (zipf_fn G s v m r) \<le> m)"

text \<open>One record of such functions that keeps the promises, for concrete runs.\<close>

definition sample_lib :: golib where
  "sample_lib =
     \<lparr>cos_fn = (\<lambda>a. Fin 1), exp_fn = (\<lambda>a. if a = NaN then NaN else Fin 1),
      norm_fn = (\<lambda>r. (Fin 0, r)), zipf_fn = (\<lambda>s v m r. (0, r)), source_fn = (\<lambda>seed. [word_of_int seed]),
      fmt_time_fn = (\<lambda>layout t. layout), fmt_g_fn = (\<lambda>a. ''0''), fmt_f_fn = (\<lambda>a. ''0''),
      upper_fn = (\<lambda>s. s), trim_fn = (\<lambda>s. s), quote_fn = (\<lambda>s. s), rune_fn = length,
      cidr6_fn = (\<lambda>s. None), sprintf_fn = (\<lambda>f as. f)\<rparr>"

lemma sample_lib_ok: "cos_ok sample_lib" "zipf_ok sample_lib"
  by (auto simp: sample_lib_def cos_ok_def zipf_ok_def)

subsection \<open>Facts about formatted numbers\<close>

lemma fmt_nat_nonempty [simp]: "fmt_nat b n \<noteq> []"
  by (subst fmt_nat.simps) simp

lemma fmt_int_nonempty [simp]: "fmt_int b i \<noteq> []"
  by (simp add: fmt_int_def)

text \<open>Reading decimal digits back.\<close>

definition read_digits :: "string \<Rightarrow> nat" where
  "read_digits s = foldl (\<lambda>n c. 10 * n + (of_char c - 48)) 0 s"

lemma read_digits_snoc: "read_digits (s @ [c]) = 10 * read_digits s + (of_char c - 48)"
  by (simp add: read_digits_def)

lemma of_char_digit: "d < 10 \<Longrightarrow> of_char (digit_char d) = 48 + d"
  by (simp add: digit_char_def)

lemma read_fmt_nat: "read_digits (fmt_nat 10 n) = n"
proof (induction n rule: less_induct)
  case (less n)
  show ?case
  proof (cases "n < 10")
    case True
    then show ?thesis by (subst fmt_nat.simps) (simp add: read_digits_def of_char_digit)
  next
    case False
    with less [of "n div 10"] show ?thesis
      by (subst fmt_nat.simps) (simp add: read_digits_snoc of_char_digit)
  qed
qed

lemma fmt_nat_inj: "fmt_nat 10 m = fmt_nat 10 n \<Longrightarrow> m = n"
  using read_fmt_nat by metis

lemma digit_char_ascii: "d < 16 \<Longrightarrow> of_char (digit_char d) < (128 :: nat)"
  by (simp add: digit_char_def)

lemma fmt_nat_digits: "2 \<le> b \<Longrightarrow> c \<in> set (fmt_nat b n) \<Longrightarrow> \<exists>d < b. c = digit_char d"
proof (induction n rule: less_induct)
  case (less n)
  show ?case
  proof (cases "n < b")
    case True
    with less.prems show ?thesis by (subst (asm) fmt_nat.simps) auto
  next
    case False
    with less.prems have "c \<in> set (fmt_nat b (n div b)) \<or> c = digit_char (n mod b)"
      by (subst (asm) fmt_nat.simps) auto
    then show ?thesis
    proof
      assume "c \<in> set (fmt_nat b (n div b))"
      with less.IH [of "n div b"] less.prems False show ?thesis by auto
    next
      assume "c = digit_char (n mod b)"
      then show ?thesis using less.prems by (intro exI [of _ "n mod b"]) simp
    qed
  qed
qed

lemma digit_char_inj: "d < 10 \<Longrightarrow> e < 10 \<Longrightarrow> digit_char d = digit_char e \<longleftrightarrow> d = e"
  using of_char_digit by (metis add_left_imp_eq)

lemma hex_encode_length [simp]: "length (hex_encode bs) = 2 * length bs"
  by (induction bs) (simp_all add: hex_encode_def)

lemma ascii_append [simp]: "ascii (s @ t) \<longleftrightarrow> ascii s \<and> ascii t"
  by (simp add: ascii_def)

lemma ascii_Nil [simp]: "ascii []"
  by (simp add: ascii_def)

end
