(* ===== verification/LogStats.thy ===== *)
theory LogStats
  imports GoText
begin

text \<open>
  The statistics of a run (\<open>internal/logstats/logstats.go\<close>): \<open>LogStats\<close>, its shards, and
  the summary text. The data model of the collector (\<open>pcommon.Value\<close>, \<open>pcommon.Map\<close>) is
  the datatype \<open>pval\<close> and an attribute list, where \<open>Put\<close> replaces the first entry of a
  key and \<open>Get\<close> returns it. Counters are 64-bit words and wrap as the code's do.

  The interface between recording and merging is the locale \<open>tally\<close>: a counter map with an
  increment and a merge. The lemmas that recording is counting and that merging adds up are
  proved in it once and reach the four counter maps of \<open>LogStats\<close> by interpretation.
\<close>

subsection \<open>Attribute values\<close>

datatype pval = PEmpty | PStr string | PInt int | PDouble f64 | PBool bool | PSlice "pval list" | POther string

type_synonym attrs = "(string, pval) gomap"

definition bool_text :: "bool \<Rightarrow> string" where
  "bool_text b = (if b then ''true'' else ''false'')"

text \<open>\<open>fmt.Sprintf("%v", v.AsRaw())\<close>; \<open>POther\<close> (a map or bytes) carries its text.\<close>

fun raw_text :: "golib \<Rightarrow> pval \<Rightarrow> string" where
  "raw_text G PEmpty = ''<nil>''"
| "raw_text G (PStr s) = s"
| "raw_text G (PInt i) = itoa i"
| "raw_text G (PDouble d) = fmt_g_fn G d"
| "raw_text G (PBool b) = bool_text b"
| "raw_text G (PSlice vs) = ''['' @ join_space (map (raw_text G) vs) @ '']''"
| "raw_text G (POther t) = t"

fun value_to_string :: "golib \<Rightarrow> pval \<Rightarrow> string" where
  "value_to_string G (PStr s) = s"
| "value_to_string G (PInt i) = itoa i"
| "value_to_string G (PDouble d) = fmt_f_fn G d"
| "value_to_string G (PBool b) = bool_text b"
| "value_to_string G v = raw_text G v"

subsection \<open>LogStats\<close>

type_synonym counts = "(string, 64 word) gomap"

record log_stats =
  total_logs :: "64 word"
  by_severity :: counts
  by_app :: counts
  by_node :: counts
  by_namespace :: counts
  field_cardinality :: "(string, string list) gomap"
  track_cardinality :: bool
  capped_fields :: "string list"

definition new_log_stats :: "bool \<Rightarrow> log_stats" where
  "new_log_stats track =
     \<lparr>total_logs = 0, by_severity = [], by_app = [], by_node = [], by_namespace = [],
      field_cardinality = [], track_cardinality = track, capped_fields = []\<rparr>"

definition NewLogStats :: log_stats where
  "NewLogStats = new_log_stats True"

definition cnt :: "counts \<Rightarrow> string \<Rightarrow> 64 word" where
  "cnt m k = (case map_of m k of None \<Rightarrow> 0 | Some c \<Rightarrow> c)"

definition bump :: "string \<Rightarrow> counts \<Rightarrow> counts" where
  "bump k m = put_go k (cnt m k + 1) m"

definition bump_attr :: "golib \<Rightarrow> attrs \<Rightarrow> string \<Rightarrow> counts \<Rightarrow> counts" where
  "bump_attr G as k m = (case map_of as k of None \<Rightarrow> m | Some v \<Rightarrow> bump (value_to_string G v) m)"

definition max_field_cardinality :: nat where
  "max_field_cardinality = 500"

definition add_cardinality :: "golib \<Rightarrow> string \<Rightarrow> pval \<Rightarrow> log_stats \<Rightarrow> log_stats" where
  "add_cardinality G key v s =
     (if key \<in> set (capped_fields s) then s
      else case map_of (field_cardinality s) key of
        None \<Rightarrow> s\<lparr>field_cardinality := put_go key [value_to_string G v] (field_cardinality s)\<rparr>
      | Some existing \<Rightarrow>
          (if max_field_cardinality \<le> length existing
           then s\<lparr>capped_fields := List.insert key (capped_fields s)\<rparr>
           else s\<lparr>field_cardinality :=
                   put_go key (List.insert (value_to_string G v) existing) (field_cardinality s)\<rparr>))"

definition add_all :: "golib \<Rightarrow> attrs \<Rightarrow> log_stats \<Rightarrow> log_stats" where
  "add_all G as s = fold (\<lambda>(k, v). add_cardinality G k v) as s"

text \<open>What one call of \<open>Record\<close> sees: severity text, resource attributes, record attributes.\<close>

record log_entry =
  sev_text :: string
  res_attrs :: attrs
  rec_attrs :: attrs

definition Record :: "golib \<Rightarrow> log_entry \<Rightarrow> log_stats \<Rightarrow> log_stats" where
  "Record G e s =
     (let s1 = s\<lparr>total_logs := total_logs s + 1,
                 by_severity := bump (sev_text e) (by_severity s),
                 by_app := bump_attr G (res_attrs e) ''service.name'' (by_app s),
                 by_node := bump_attr G (res_attrs e) ''k8s.node.name'' (by_node s),
                 by_namespace := bump_attr G (res_attrs e) ''k8s.namespace.name'' (by_namespace s)\<rparr>
      in if \<not> track_cardinality s then s1
         else add_all G (rec_attrs e) (add_all G (res_attrs e) s1))"

subsection \<open>Shards\<close>

type_synonym sharded = "log_stats list"

definition NewShardedLogStats :: "int \<Rightarrow> int list \<Rightarrow> sharded" where
  "NewShardedLogStats n cardinality_shards =
     (let n' = (if n < 1 then 1 else n);
          track = (if cardinality_shards = [] then [0] else cardinality_shards)
      in map (\<lambda>i. new_log_stats (int i \<in> set track)) [0..<nat n'])"

text \<open>\<open>s.shards[i%len(s.shards)]\<close>, as the index of the shard; a negative index panics.\<close>

definition Shard :: "sharded \<Rightarrow> int \<Rightarrow> nat option" where
  "Shard s i =
     (if s = [] then None
      else let j = rem_go i (int (length s)) in if 0 \<le> j then Some (nat j) else None)"

definition record_at :: "golib \<Rightarrow> int \<Rightarrow> log_entry \<Rightarrow> sharded \<Rightarrow> sharded option" where
  "record_at G i e s = do { j \<leftarrow> Shard s i; Some (s[j := Record G e (s ! j)]) }"

definition merge_counts :: "counts \<Rightarrow> counts \<Rightarrow> counts" where
  "merge_counts shard merged = fold (\<lambda>(k, v) m. put_go k (cnt m k + v) m) shard merged"

definition merge_values :: "string \<Rightarrow> string list \<Rightarrow> (string, string list) gomap \<Rightarrow> (string, string list) gomap" where
  "merge_values k vals fc =
     (let fc1 = (case map_of fc k of None \<Rightarrow> put_go k [] fc | Some _ \<Rightarrow> fc)
      in fold (\<lambda>v fc. put_go k (List.insert v (the (map_of fc k))) fc) vals fc1)"

definition merge_shard :: "log_stats \<Rightarrow> log_stats \<Rightarrow> log_stats" where
  "merge_shard shard merged =
     merged\<lparr>total_logs := total_logs merged + total_logs shard,
            by_severity := merge_counts (by_severity shard) (by_severity merged),
            by_app := merge_counts (by_app shard) (by_app merged),
            by_node := merge_counts (by_node shard) (by_node merged),
            by_namespace := merge_counts (by_namespace shard) (by_namespace merged),
            field_cardinality :=
              (if track_cardinality shard
               then fold (\<lambda>(k, vals). merge_values k vals) (field_cardinality shard) (field_cardinality merged)
               else field_cardinality merged)\<rparr>"

definition Merge :: "sharded \<Rightarrow> log_stats" where
  "Merge s = fold merge_shard s NewLogStats"

subsection \<open>The summary text\<close>

fun insert_commas :: "nat \<Rightarrow> nat \<Rightarrow> string \<Rightarrow> string" where
  "insert_commas n i [] = []"
| "insert_commas n i (c # cs) =
     (if 0 < i \<and> (n - i) mod 3 = 0 then CHR '','' # c # insert_commas n (Suc i) cs
      else c # insert_commas n (Suc i) cs)"

definition format_number :: "64 word \<Rightarrow> string" where
  "format_number n =
     (if n < 1000 then fmt_nat 10 (unat n)
      else let s = fmt_nat 10 (unat n) in insert_commas (length s) 0 s)"

definition sorted_keys :: "(string, 'v) gomap \<Rightarrow> string list" where
  "sorted_keys m = sort (keys_go m)"

text \<open>The verbs \<open>%-ns\<close> and \<open>%.1f\<close> of \<open>fmt.Sprintf\<close>.\<close>

definition pad_right :: "golib \<Rightarrow> nat \<Rightarrow> string \<Rightarrow> string" where
  "pad_right G n s = s @ replicate (n - rune_count G s) (CHR '' '')"

fun fmt_f1 :: "f64 \<Rightarrow> string" where
  "fmt_f1 (Fin x) =
     (let n = nat (rhe (\<bar>x\<bar> * 10))
      in (if x < 0 then ''-'' else []) @ fmt_nat 10 (n div 10) @ ''.'' @ fmt_nat 10 (n mod 10))"
| "fmt_f1 PInf = ''+Inf''"
| "fmt_f1 NInf = ''-Inf''"
| "fmt_f1 NaN = ''NaN''"

definition of_u64 :: "64 word \<Rightarrow> f64" where
  "of_u64 w = rnd (of_int (uint w))"

definition pct_of :: "64 word \<Rightarrow> 64 word \<Rightarrow> f64" where
  "pct_of c tot = fdiv (fmul (Fin 100) (of_u64 c)) (of_u64 tot)"

definition count_lines :: "golib \<Rightarrow> nat \<Rightarrow> string \<Rightarrow> 64 word \<Rightarrow> counts \<Rightarrow> string" where
  "count_lines G w title tot m =
     (if m = [] then []
      else title @ concat (map (\<lambda>key. ''    '' @ pad_right G w (key @ '':'') @ '' '' @
             format_number (cnt m key) @ '' ('' @ fmt_f1 (pct_of (cnt m key) tot) @ ''%)\<newline>'')
           (sorted_keys m)))"

definition Summary :: "golib \<Rightarrow> log_stats \<Rightarrow> counts \<Rightarrow> string" where
  "Summary G s needles =
     (let tot = total_logs s in
      if tot = 0 then ''Log Generation Summary:\<newline>  Total logs: 0''
      else
        ''Log Generation Summary:\<newline>'' @ ''  Total logs: '' @ format_number tot @ ''\<newline>'' @
        count_lines G 6 ''  Severity distribution:\<newline>'' tot (by_severity s) @
        count_lines G 12 ''  By application:\<newline>'' tot (by_app s) @
        count_lines G 12 ''  By node:\<newline>'' tot (by_node s) @
        count_lines G 12 ''  By namespace:\<newline>'' tot (by_namespace s) @
        (if field_cardinality s = [] then []
         else ''  Field cardinality:\<newline>'' @
           concat (map (\<lambda>key. ''    '' @ pad_right G 24 (key @ '':'') @ '' '' @
               format_number (of_nat (length (the (map_of (field_cardinality s) key)))) @ ''\<newline>'')
             (sorted_keys (field_cardinality s)))) @
        (if needles = [] then []
         else ''  Needles:\<newline>'' @
           concat (map (\<lambda>name. ''    '' @ pad_right G 20 (name @ '':'') @ '' '' @
               format_number (cnt needles name) @ ''\<newline>'')
             (sorted_keys needles))))"

subsection \<open>Counting: the contract between recording and merging\<close>

locale tally =
  fixes inv :: "'m \<Rightarrow> bool" and zero :: 'm and count :: "'m \<Rightarrow> 'k \<Rightarrow> 64 word"
    and incr :: "'k \<Rightarrow> 'm \<Rightarrow> 'm" and merge :: "'m \<Rightarrow> 'm \<Rightarrow> 'm"
  assumes inv_zero: "inv zero"
    and inv_incr: "inv m \<Longrightarrow> inv (incr k m)"
    and inv_merge: "inv m \<Longrightarrow> inv (merge n m)"
    and count_zero: "count zero k = 0"
    and count_incr: "count (incr j m) k = count m k + (if j = k then 1 else 0)"
    and count_merge: "inv n \<Longrightarrow> count (merge n m) k = count m k + count n k"
begin

lemma inv_recorded: "inv m \<Longrightarrow> inv (fold incr ks m)"
  by (induction ks arbitrary: m) (simp_all add: inv_incr)

lemma count_recorded: "count (fold incr ks m) k = count m k + of_nat (count_list ks k)"
  by (induction ks arbitrary: m) (simp_all add: count_incr)

lemma count_merged:
  "\<forall>n \<in> set ns. inv n \<Longrightarrow> count (fold merge ns m) k = count m k + (\<Sum>n\<leftarrow>ns. count n k)"
  by (induction ns arbitrary: m) (simp_all add: count_merge algebra_simps)

text \<open>Merging the tallies of the parts of a sequence gives the tally of the whole.\<close>

lemma count_parts:
  "count (fold merge (map (\<lambda>ks. fold incr ks zero) parts) zero) k = of_nat (count_list (concat parts) k)"
proof -
  have "\<forall>n \<in> set (map (\<lambda>ks. fold incr ks zero) parts). inv n"
    by (simp add: inv_recorded inv_zero)
  from count_merged [OF this]
  have "count (fold merge (map (\<lambda>ks. fold incr ks zero) parts) zero) k =
      (\<Sum>ks\<leftarrow>parts. of_nat (count_list ks k))"
    by (simp add: count_zero count_recorded comp_def)
  also have "\<dots> = of_nat (count_list (concat parts) k)"
    by (induction parts) simp_all
  finally show ?thesis .
qed

end

abbreviation uniq :: "('k, 'v) gomap \<Rightarrow> bool" where
  "uniq m \<equiv> distinct (keys_go m)"

lemma cnt_put: "cnt (put_go j c m) k = (if j = k then c else cnt m k)"
  by (auto simp: cnt_def map_of_put_go)

lemma uniq_fold_put: "uniq m \<Longrightarrow> uniq (fold (\<lambda>(k, v) m. put_go k (f m k v) m) xs m)"
  by (induction xs arbitrary: m) auto

lemma cnt_merge_counts: "uniq n \<Longrightarrow> cnt (merge_counts n m) k = cnt m k + cnt n k"
proof (induction n arbitrary: m)
  case (Cons x n)
  obtain j v where x: "x = (j, v)" by (cases x)
  with Cons.prems have u: "uniq n" and j: "map_of n j = None"
    by (auto simp: map_of_eq_None_iff)
  have "merge_counts (x # n) m = merge_counts n (put_go j (cnt m j + v) m)"
    by (simp add: merge_counts_def x)
  with Cons.IH [OF u] j show ?case by (auto simp: cnt_put x) (simp_all add: cnt_def)
qed (simp add: merge_counts_def cnt_def)

interpretation counters: tally uniq "[]" cnt bump merge_counts
proof unfold_locales
  show "uniq m \<Longrightarrow> uniq (merge_counts n m)" for m n
    unfolding merge_counts_def by (rule uniq_fold_put)
qed (auto simp: bump_def cnt_put cnt_merge_counts, simp add: cnt_def)

subsection \<open>What one record adds\<close>

text \<open>The keys that one record counts in each of the four maps.\<close>

definition attr_keys :: "golib \<Rightarrow> string \<Rightarrow> log_entry \<Rightarrow> string list" where
  "attr_keys G k e = (case map_of (res_attrs e) k of None \<Rightarrow> [] | Some v \<Rightarrow> [value_to_string G v])"

lemma bump_attr_fold: "bump_attr G (res_attrs e) k m = fold bump (attr_keys G k e) m"
  by (simp add: bump_attr_def attr_keys_def split: option.splits)

lemma add_cardinality_frame [simp]:
  "total_logs (add_cardinality G k v s) = total_logs s"
  "by_severity (add_cardinality G k v s) = by_severity s"
  "by_app (add_cardinality G k v s) = by_app s"
  "by_node (add_cardinality G k v s) = by_node s"
  "by_namespace (add_cardinality G k v s) = by_namespace s"
  "track_cardinality (add_cardinality G k v s) = track_cardinality s"
  by (simp_all add: add_cardinality_def split: option.splits)

lemma add_all_frame [simp]:
  "total_logs (add_all G as s) = total_logs s"
  "by_severity (add_all G as s) = by_severity s"
  "by_app (add_all G as s) = by_app s"
  "by_node (add_all G as s) = by_node s"
  "by_namespace (add_all G as s) = by_namespace s"
  "track_cardinality (add_all G as s) = track_cardinality s"
  unfolding add_all_def by (induction as arbitrary: s) (simp_all add: split_beta)

lemma Record_counts [simp]:
  "total_logs (Record G e s) = total_logs s + 1"
  "by_severity (Record G e s) = fold bump [sev_text e] (by_severity s)"
  "by_app (Record G e s) = fold bump (attr_keys G ''service.name'' e) (by_app s)"
  "by_node (Record G e s) = fold bump (attr_keys G ''k8s.node.name'' e) (by_node s)"
  "by_namespace (Record G e s) = fold bump (attr_keys G ''k8s.namespace.name'' e) (by_namespace s)"
  "track_cardinality (Record G e s) = track_cardinality s"
  by (simp_all add: Record_def Let_def bump_attr_fold)

lemma fold_Record_counts:
  "total_logs (fold (Record G) es s) = total_logs s + of_nat (length es)"
  "by_severity (fold (Record G) es s) = fold bump (map sev_text es) (by_severity s)"
  "by_app (fold (Record G) es s) = fold bump (concat (map (attr_keys G ''service.name'') es)) (by_app s)"
  "by_node (fold (Record G) es s) = fold bump (concat (map (attr_keys G ''k8s.node.name'') es)) (by_node s)"
  "by_namespace (fold (Record G) es s) =
     fold bump (concat (map (attr_keys G ''k8s.namespace.name'') es)) (by_namespace s)"
  "track_cardinality (fold (Record G) es s) = track_cardinality s"
  by (induction es arbitrary: s) simp_all

lemma new_log_stats_sel [simp]:
  "total_logs (new_log_stats t) = 0" "by_severity (new_log_stats t) = []"
  "by_app (new_log_stats t) = []" "by_node (new_log_stats t) = []"
  "by_namespace (new_log_stats t) = []" "field_cardinality (new_log_stats t) = []"
  "track_cardinality (new_log_stats t) = t" "capped_fields (new_log_stats t) = []"
  by (simp_all add: new_log_stats_def)

subsection \<open>Merging the shards\<close>

lemma merge_shard_sel:
  "total_logs (fold merge_shard xs m) = total_logs m + (\<Sum>x\<leftarrow>xs. total_logs x)"
  "by_severity (fold merge_shard xs m) = fold merge_counts (map by_severity xs) (by_severity m)"
  "by_app (fold merge_shard xs m) = fold merge_counts (map by_app xs) (by_app m)"
  "by_node (fold merge_shard xs m) = fold merge_counts (map by_node xs) (by_node m)"
  "by_namespace (fold merge_shard xs m) = fold merge_counts (map by_namespace xs) (by_namespace m)"
  by (induction xs arbitrary: m) (simp_all add: merge_shard_def algebra_simps)

lemma Merge_sel:
  "total_logs (Merge xs) = (\<Sum>x\<leftarrow>xs. total_logs x)"
  "by_severity (Merge xs) = fold merge_counts (map by_severity xs) []"
  "by_app (Merge xs) = fold merge_counts (map by_app xs) []"
  "by_node (Merge xs) = fold merge_counts (map by_node xs) []"
  "by_namespace (Merge xs) = fold merge_counts (map by_namespace xs) []"
  by (simp_all add: Merge_def NewLogStats_def merge_shard_sel)

text \<open>A run: each record goes to the shard of the worker that produced it.\<close>

fun run_records :: "golib \<Rightarrow> (int \<times> log_entry) list \<Rightarrow> sharded \<Rightarrow> sharded option" where
  "run_records G [] s = Some s"
| "run_records G ((i, e) # evs) s = do { s' \<leftarrow> record_at G i e s; run_records G evs s' }"

lemma Shard_lt: "Shard s i = Some j \<Longrightarrow> j < length s"
  by (auto simp: Shard_def Let_def rem_go_def sgn_if nat_less_iff split: if_splits)

lemma record_at_Some:
  "record_at G i e s = Some s' \<longleftrightarrow> (\<exists>j. Shard s i = Some j \<and> s' = s[j := Record G e (s ! j)])"
  by (auto simp: record_at_def split: bind_splits)

definition part :: "nat \<Rightarrow> (int \<times> log_entry) list \<Rightarrow> nat \<Rightarrow> log_entry list" where
  "part n evs j = map snd (filter (\<lambda>(i, e). rem_go i (int n) = int j) evs)"

lemma Shard_index: "s \<noteq> [] \<Longrightarrow> Shard s i = Some j \<longleftrightarrow> rem_go i (int (length s)) = int j"
  by (auto simp: Shard_def Let_def)

lemma run_records_shards:
  assumes "run_records G evs s = Some s'" and "s \<noteq> []"
  shows "s' = map (\<lambda>j. fold (Record G) (part (length s) evs j) (s ! j)) [0..<length s]"
  using assms
proof (induction G evs s arbitrary: s' rule: run_records.induct)
  case (1 G s)
  then show ?case by (simp add: part_def map_nth)
next
  case (2 G i e evs s)
  from "2.prems"(1) obtain s1 where s1: "record_at G i e s = Some s1" and
    run: "run_records G evs s1 = Some s'" by (auto split: bind_splits)
  from s1 obtain j where j: "Shard s i = Some j" and s1_eq: "s1 = s[j := Record G e (s ! j)]"
    by (auto simp: record_at_Some)
  have len: "length s1 = length s" and ne: "s1 \<noteq> []" using s1_eq "2.prems"(2) by auto
  have rj: "rem_go i (int (length s)) = int j" using Shard_index "2.prems"(2) j by blast
  have "s' = map (\<lambda>j. fold (Record G) (part (length s) evs j) (s1 ! j)) [0..<length s]"
    using "2.IH" [OF s1 run ne] len by simp
  also have "\<dots> = map (\<lambda>j. fold (Record G) (part (length s) ((i, e) # evs) j) (s ! j)) [0..<length s]"
    using rj by (auto simp: part_def s1_eq nth_list_update)
  finally show ?case .
qed

lemma run_records_total:
  "\<forall>(i, e) \<in> set evs. 0 \<le> i \<Longrightarrow> s \<noteq> [] \<Longrightarrow> \<exists>s'. run_records G evs s = Some s'"
proof (induction G evs s rule: run_records.induct)
  case (2 G i e evs s)
  then obtain j where "Shard s i = Some j"
    by (auto simp: Shard_def Let_def)
  then have "record_at G i e s = Some (s[j := Record G e (s ! j)])" by (simp add: record_at_def)
  with 2 show ?case by simp
qed simp

text \<open>Each record lies in exactly one part.\<close>

lemma sum_of_bool_eq0: "n \<le> j \<Longrightarrow> (\<Sum>i\<leftarrow>[0..<n]. if j = i then x else 0) = (0 :: 'a :: comm_monoid_add)"
  by (induction n) simp_all

lemma sum_of_bool_eq:
  "j < n \<Longrightarrow> (\<Sum>i\<leftarrow>[0..<n]. if j = i then x else 0) = (x :: 'a :: comm_monoid_add)"
  by (induction n) (auto simp: less_Suc_eq sum_of_bool_eq0)

lemma parts_sum:
  fixes f :: "log_entry \<Rightarrow> 'a :: comm_monoid_add"
  assumes "\<forall>(i, e) \<in> set evs. 0 \<le> i" and "0 < n"
  shows "(\<Sum>j\<leftarrow>[0..<n]. \<Sum>e\<leftarrow>part n evs j. f e) = (\<Sum>e\<leftarrow>map snd evs. f e)"
  using assms(1)
proof (induction evs)
  case (Cons x evs)
  obtain i e where x: "x = (i, e)" by (cases x)
  define k where "k = nat (rem_go i (int n))"
  have k: "rem_go i (int n) = int k" "k < n"
    using Cons.prems assms(2) by (auto simp: k_def x nat_less_iff)
  have "(\<Sum>e\<leftarrow>part n (x # evs) j. f e) = (if k = j then f e else 0) + (\<Sum>e\<leftarrow>part n evs j. f e)" for j
    by (simp add: part_def x k)
  then have "(\<Sum>j\<leftarrow>[0..<n]. \<Sum>e\<leftarrow>part n (x # evs) j. f e) =
      (\<Sum>j\<leftarrow>[0..<n]. if k = j then f e else 0) + (\<Sum>j\<leftarrow>[0..<n]. \<Sum>e\<leftarrow>part n evs j. f e)"
    by (simp add: sum_list_addf)
  with Cons k show ?case by (simp add: x sum_of_bool_eq)
qed (simp add: part_def)

lemma count_list_concat: "of_nat (count_list (concat (map h es)) k) = (\<Sum>e\<leftarrow>es. of_nat (count_list (h e) k))"
  by (induction es) simp_all

lemma new_sharded_shape:
  "NewShardedLogStats n cs \<noteq> []"
  "j < length (NewShardedLogStats n cs) \<Longrightarrow> \<exists>t. NewShardedLogStats n cs ! j = new_log_stats t"
  by (auto simp: NewShardedLogStats_def Let_def)

lemma merged_count:
  assumes evs: "\<forall>(i, e) \<in> set evs. 0 \<le> i"
    and run: "run_records G evs (NewShardedLogStats n cs) = Some s"
    and f: "\<And>es t. f (fold (Record G) es (new_log_stats t)) = fold bump (concat (map h es)) []"
  shows "cnt (fold merge_counts (map f s) []) k = of_nat (count_list (concat (map h (map snd evs))) k)"
proof -
  define s0 where "s0 = NewShardedLogStats n cs"
  define N where "N = length s0"
  have N: "0 < N" using new_sharded_shape by (simp add: N_def s0_def)
  have s: "s = map (\<lambda>j. fold (Record G) (part N evs j) (s0 ! j)) [0..<N]"
    using run_records_shards [OF run] new_sharded_shape by (simp add: N_def s0_def)
  have "f (fold (Record G) es (s0 ! j)) = fold bump (concat (map h es)) []" if "j < N" for es j
    using new_sharded_shape(2) [of j n cs] that f by (auto simp: N_def s0_def)
  then have fs: "map f s = map (\<lambda>ks. fold bump ks []) (map (\<lambda>j. concat (map h (part N evs j))) [0..<N])"
    by (simp add: s)
  have "cnt (fold merge_counts (map f s) []) k =
      of_nat (count_list (concat (map (\<lambda>j. concat (map h (part N evs j))) [0..<N])) k)"
    unfolding fs by (rule counters.count_parts)
  also have "\<dots> = (\<Sum>j\<leftarrow>[0..<N]. \<Sum>e\<leftarrow>part N evs j. of_nat (count_list (h e) k))"
    by (simp add: count_list_concat)
  also have "\<dots> = (\<Sum>e\<leftarrow>map snd evs. of_nat (count_list (h e) k))"
    by (rule parts_sum [OF evs N])
  also have "\<dots> = of_nat (count_list (concat (map h (map snd evs))) k)"
    by (simp only: count_list_concat)
  finally show ?thesis .
qed

lemma merged_total:
  assumes evs: "\<forall>(i, e) \<in> set evs. 0 \<le> i"
    and run: "run_records G evs (NewShardedLogStats n cs) = Some s"
  shows "total_logs (Merge s) = of_nat (length evs)"
proof -
  define s0 where "s0 = NewShardedLogStats n cs"
  define N where "N = length s0"
  have N: "0 < N" using new_sharded_shape by (simp add: N_def s0_def)
  have s: "s = map (\<lambda>j. fold (Record G) (part N evs j) (s0 ! j)) [0..<N]"
    using run_records_shards [OF run] new_sharded_shape by (simp add: N_def s0_def)
  have z: "total_logs (s0 ! j) = 0" if "j < N" for j
    using new_sharded_shape(2) [of j n cs] that by (auto simp: N_def s0_def)
  have "(\<Sum>x\<leftarrow>s. total_logs x) = (\<Sum>j\<leftarrow>[0..<N]. of_nat (length (part N evs j)))"
    unfolding s map_map comp_def
    by (intro arg_cong [where f = sum_list] map_cong) (simp_all add: fold_Record_counts z)
  also have "\<dots> = (\<Sum>j\<leftarrow>[0..<N]. \<Sum>e\<leftarrow>part N evs j. 1)"
    by (simp add: sum_list_triv)
  also have "\<dots> = (\<Sum>e\<leftarrow>map snd evs. 1)"
    by (rule parts_sum [OF evs N])
  finally show ?thesis by (simp add: Merge_sel sum_list_triv comp_def)
qed

lemma single_counts:
  "total_logs (fold (Record G) es NewLogStats) = of_nat (length es)"
  "cnt (by_severity (fold (Record G) es NewLogStats)) k = of_nat (count_list (map sev_text es) k)"
  "cnt (by_app (fold (Record G) es NewLogStats)) k =
     of_nat (count_list (concat (map (attr_keys G ''service.name'') es)) k)"
  "cnt (by_node (fold (Record G) es NewLogStats)) k =
     of_nat (count_list (concat (map (attr_keys G ''k8s.node.name'') es)) k)"
  "cnt (by_namespace (fold (Record G) es NewLogStats)) k =
     of_nat (count_list (concat (map (attr_keys G ''k8s.namespace.name'') es)) k)"
  by (simp_all add: NewLogStats_def fold_Record_counts counters.count_recorded counters.count_zero)

text \<open>
  C11. Sharding loses and duplicates nothing: whatever records the workers' goroutines record
  on whichever shards, no call panics and \<open>Merge\<close> reports the same total and the same
  severity, application, node and namespace counts as one \<open>LogStats\<close> that saw every record.
\<close>

theorem sharded_counts_exact:
  assumes "\<forall>(i, e) \<in> set evs. 0 \<le> i"
  shows "\<exists>s. run_records G evs (NewShardedLogStats n cs) = Some s \<and>
    total_logs (Merge s) = total_logs (fold (Record G) (map snd evs) NewLogStats) \<and>
    cnt (by_severity (Merge s)) k = cnt (by_severity (fold (Record G) (map snd evs) NewLogStats)) k \<and>
    cnt (by_app (Merge s)) k = cnt (by_app (fold (Record G) (map snd evs) NewLogStats)) k \<and>
    cnt (by_node (Merge s)) k = cnt (by_node (fold (Record G) (map snd evs) NewLogStats)) k \<and>
    cnt (by_namespace (Merge s)) k = cnt (by_namespace (fold (Record G) (map snd evs) NewLogStats)) k"
proof -
  obtain s where run: "run_records G evs (NewShardedLogStats n cs) = Some s"
    using run_records_total [OF assms new_sharded_shape(1)] by blast
  have sev: "concat (map (\<lambda>e. [sev_text e]) es) = map sev_text es" for es
    by (induction es) simp_all
  let ?h = "\<lambda>key. cnt (fold merge_counts (map key s) []) k"
  have "?h by_severity = of_nat (count_list (concat (map (\<lambda>e. [sev_text e]) (map snd evs))) k)"
    by (rule merged_count [OF assms run]) (simp add: fold_Record_counts sev)
  then have "?h by_severity = of_nat (count_list (map sev_text (map snd evs)) k)"
    by (simp only: sev)
  moreover have "?h by_app = of_nat (count_list (concat (map (attr_keys G ''service.name'') (map snd evs))) k)"
    by (rule merged_count [OF assms run]) (simp add: fold_Record_counts)
  moreover have "?h by_node = of_nat (count_list (concat (map (attr_keys G ''k8s.node.name'') (map snd evs))) k)"
    by (rule merged_count [OF assms run]) (simp add: fold_Record_counts)
  moreover have "?h by_namespace = of_nat (count_list (concat (map (attr_keys G ''k8s.namespace.name'') (map snd evs))) k)"
    by (rule merged_count [OF assms run]) (simp add: fold_Record_counts)
  ultimately show ?thesis
    using run merged_total [OF assms run] by (intro exI [of _ s]) (simp add: Merge_sel(2-) single_counts sev)
qed

lemma sharded_counts_exact_witness:
  "\<exists>s. run_records sample_lib [(5, \<lparr>sev_text = ''INFO'', res_attrs = [(''service.name'', PStr ''nginx'')], rec_attrs = []\<rparr>)]
      (NewShardedLogStats 3 [0, 1]) = Some s \<and>
    total_logs (Merge s) = 1 \<and> cnt (by_app (Merge s)) ''nginx'' = 1"
proof -
  let ?e = "\<lparr>sev_text = ''INFO'', res_attrs = [(''service.name'', PStr ''nginx'')], rec_attrs = []\<rparr>"
  have "cnt (by_app (Record sample_lib ?e NewLogStats)) ''nginx'' = 1"
    by (simp add: NewLogStats_def attr_keys_def bump_def cnt_def)
  then show ?thesis
    using sharded_counts_exact [of "[(5, ?e)]" sample_lib 3 "[0, 1]" "''nginx''"]
    by (auto simp: NewLogStats_def)
qed

subsection \<open>Field cardinality\<close>

definition vals :: "log_stats \<Rightarrow> string \<Rightarrow> string list" where
  "vals s k = (case map_of (field_cardinality s) k of None \<Rightarrow> [] | Some vs \<Rightarrow> vs)"

text \<open>The values of key \<open>k\<close> among a list of attributes, and among the records of a run.\<close>

definition seen_attrs :: "golib \<Rightarrow> string \<Rightarrow> attrs \<Rightarrow> string set" where
  "seen_attrs G k as = {value_to_string G v | v. (k, v) \<in> set as}"

definition seen_values :: "golib \<Rightarrow> string \<Rightarrow> log_entry list \<Rightarrow> string set" where
  "seen_values G k es = (\<Union>e \<in> set es. seen_attrs G k (res_attrs e) \<union> seen_attrs G k (rec_attrs e))"

text \<open>
  The invariant of \<open>addCardinality\<close>: the set kept for a key holds the values seen, all of
  them while fewer than 500 have been kept, and a capped key has exactly 500.
\<close>

definition card_inv :: "string \<Rightarrow> string set \<Rightarrow> log_stats \<Rightarrow> bool" where
  "card_inv k seen s \<longleftrightarrow>
     distinct (vals s k) \<and> length (vals s k) \<le> max_field_cardinality \<and> set (vals s k) \<subseteq> seen \<and>
     (length (vals s k) < max_field_cardinality \<longrightarrow> set (vals s k) = seen) \<and>
     (k \<in> set (capped_fields s) \<longrightarrow> length (vals s k) = max_field_cardinality)"

lemma card_inv_step:
  assumes "card_inv k seen s"
  shows "card_inv k (if j = k then insert (value_to_string G v) seen else seen) (add_cardinality G j v s)"
proof (cases "j = k")
  case False
  with assms show ?thesis
    by (auto simp: card_inv_def add_cardinality_def vals_def map_of_put_go split: option.splits)
next
  case True
  let ?x = "value_to_string G v"
  show ?thesis
  proof (cases "map_of (field_cardinality s) k")
    case None
    then have "vals s k = []" by (simp add: vals_def)
    with assms True None show ?thesis
      by (auto simp: card_inv_def add_cardinality_def vals_def map_of_put_go max_field_cardinality_def)
  next
    case (Some vs)
    then have vs: "vals s k = vs" by (simp add: vals_def)
    have "length (List.insert ?x vs) \<le> Suc (length vs)" by (simp add: List.insert_def)
    with vs assms True Some show ?thesis
      by (auto simp: card_inv_def add_cardinality_def vals_def map_of_put_go)
  qed
qed

lemma card_inv_add_all:
  "card_inv k seen s \<Longrightarrow> card_inv k (seen \<union> seen_attrs G k as) (add_all G as s)"
proof (induction as arbitrary: seen s)
  case (Cons x as)
  obtain j v where x: "x = (j, v)" by (cases x)
  let ?seen = "if j = k then insert (value_to_string G v) seen else seen"
  have "?seen \<union> seen_attrs G k as = seen \<union> seen_attrs G k (x # as)"
    by (auto simp: seen_attrs_def x)
  with Cons.IH [OF card_inv_step [OF Cons.prems, of j G v]] show ?case
    by (simp add: add_all_def x)
qed (simp add: add_all_def seen_attrs_def)

lemma card_inv_Record:
  assumes "card_inv k seen s" and "track_cardinality s"
  shows "card_inv k (seen \<union> seen_attrs G k (res_attrs e) \<union> seen_attrs G k (rec_attrs e)) (Record G e s)"
proof -
  let ?s1 = "s\<lparr>total_logs := total_logs s + 1, by_severity := bump (sev_text e) (by_severity s),
    by_app := bump_attr G (res_attrs e) ''service.name'' (by_app s),
    by_node := bump_attr G (res_attrs e) ''k8s.node.name'' (by_node s),
    by_namespace := bump_attr G (res_attrs e) ''k8s.namespace.name'' (by_namespace s)\<rparr>"
  have "card_inv k seen ?s1" using assms(1) by (simp add: card_inv_def vals_def)
  then show ?thesis
    using assms(2) by (simp add: Record_def Let_def card_inv_add_all)
qed

lemma card_inv_run:
  "card_inv k seen s \<Longrightarrow> track_cardinality s \<Longrightarrow>
   card_inv k (seen \<union> seen_values G k es) (fold (Record G) es s)"
proof (induction es arbitrary: seen s)
  case (Cons e es)
  from Cons.IH [OF card_inv_Record [OF Cons.prems]] Cons.prems show ?case
    by (simp add: seen_values_def Un_assoc)
qed (simp add: seen_values_def)

lemma finite_seen_attrs: "finite (seen_attrs G k as)"
proof -
  have "seen_attrs G k as = (\<lambda>p. value_to_string G (snd p)) ` {p \<in> set as. fst p = k}"
    by (force simp: seen_attrs_def)
  then show ?thesis by simp
qed

lemma finite_seen_values: "finite (seen_values G k es)"
  by (simp add: seen_values_def finite_seen_attrs)

lemma card_inv_min:
  assumes "card_inv k seen s" and "finite seen"
  shows "length (vals s k) = min max_field_cardinality (card seen)"
proof -
  have d: "card (set (vals s k)) = length (vals s k)"
    using assms(1) by (simp add: card_inv_def distinct_card)
  show ?thesis
  proof (cases "length (vals s k) < max_field_cardinality")
    case True
    with assms(1) d show ?thesis by (simp add: card_inv_def)
  next
    case False
    with assms(1) have l: "length (vals s k) = max_field_cardinality" by (simp add: card_inv_def)
    moreover have "card (set (vals s k)) \<le> card seen"
      using assms by (auto simp: card_inv_def intro: card_mono)
    ultimately show ?thesis using d by simp
  qed
qed

lemma card_inv_new: "card_inv k {} (new_log_stats t)"
  by (simp add: card_inv_def vals_def max_field_cardinality_def)

text \<open>
  C24. The cardinality that a tracking \<open>LogStats\<close> reports for a field is the number of
  distinct values the field had in the run's resource and record attributes, cut off at 500,
  and below the cut-off it keeps exactly those values.
\<close>

theorem cardinality_is_min:
  "length (vals (fold (Record G) es NewLogStats) k) = min 500 (card (seen_values G k es)) \<and>
   set (vals (fold (Record G) es NewLogStats) k) \<subseteq> seen_values G k es"
proof -
  have inv: "card_inv k (seen_values G k es) (fold (Record G) es NewLogStats)"
    using card_inv_run [OF card_inv_new, of True k G es] by (simp add: NewLogStats_def)
  from card_inv_min [OF this finite_seen_values] inv show ?thesis
    by (simp add: card_inv_def max_field_cardinality_def)
qed

subsection \<open>Cardinality after merging\<close>

definition valset :: "(string, string list) gomap \<Rightarrow> string \<Rightarrow> string set" where
  "valset fc k = (case map_of fc k of None \<Rightarrow> {} | Some vs \<Rightarrow> set vs)"

lemma valset_vals: "valset (field_cardinality s) k = set (vals s k)"
  by (simp add: valset_def vals_def split: option.splits)

lemma merge_values_fold:
  "map_of fc j = Some ws \<Longrightarrow>
   valset (fold (\<lambda>v fc. put_go j (List.insert v (the (map_of fc j))) fc) vs fc) k =
     valset fc k \<union> (if j = k then set vs else {})"
  by (induction vs arbitrary: fc ws) (auto simp: valset_def map_of_put_go)

lemma valset_merge_values:
  "valset (merge_values j vs fc) k = valset fc k \<union> (if j = k then set vs else {})"
proof (cases "map_of fc j")
  case None
  have "map_of (put_go j [] fc) j = Some []" by simp
  from merge_values_fold [OF this, of vs k] None show ?thesis
    by (auto simp: merge_values_def valset_def map_of_put_go)
next
  case (Some ws)
  from merge_values_fold [OF this, of vs k] show ?thesis
    by (simp add: merge_values_def Let_def Some)
qed

lemma valset_merge_fold:
  "uniq xs \<Longrightarrow> valset (fold (\<lambda>(k, vs). merge_values k vs) xs fc) k = valset fc k \<union> valset xs k"
proof (induction xs arbitrary: fc)
  case (Cons x xs)
  obtain j vs where x: "x = (j, vs)" by (cases x)
  with Cons.prems have u: "uniq xs" and "map_of xs j = None" by (auto simp: map_of_eq_None_iff)
  then have "valset xs j = {}" and "valset (x # xs) k = (if j = k then set vs else valset xs k)"
    by (simp_all add: valset_def x)
  then show ?case
    using Cons.IH [OF u, of "merge_values j vs fc"] by (auto simp: x valset_merge_values)
qed (simp add: valset_def)

lemma uniq_add_cardinality: "uniq (field_cardinality s) \<Longrightarrow> uniq (field_cardinality (add_cardinality G k v s))"
  by (simp add: add_cardinality_def distinct_put_go split: option.splits)

lemma uniq_Record: "uniq (field_cardinality s) \<Longrightarrow> uniq (field_cardinality (Record G e s))"
proof -
  have all: "uniq (field_cardinality (add_all G as s))" if "uniq (field_cardinality s)" for as s
    using that unfolding add_all_def by (induction as arbitrary: s) (auto simp: uniq_add_cardinality)
  assume "uniq (field_cardinality s)"
  then show ?thesis by (simp add: Record_def Let_def all)
qed

lemma uniq_run: "uniq (field_cardinality s) \<Longrightarrow> uniq (field_cardinality (fold (Record G) es s))"
  by (induction es arbitrary: s) (simp_all add: uniq_Record)

lemma valset_fold_merge:
  "\<forall>x \<in> set xs. uniq (field_cardinality x) \<Longrightarrow>
   valset (field_cardinality (fold merge_shard xs m)) k =
     valset (field_cardinality m) k \<union> (\<Union>x \<in> {x \<in> set xs. track_cardinality x}. valset (field_cardinality x) k)"
proof (induction xs arbitrary: m)
  case (Cons x xs)
  then have "valset (field_cardinality (merge_shard x m)) k =
      valset (field_cardinality m) k \<union> (if track_cardinality x then valset (field_cardinality x) k else {})"
    by (simp add: merge_shard_def valset_merge_fold)
  with Cons show ?case by auto
qed simp

text \<open>
  C23. After \<open>Merge\<close> the values reported for a field are the union of those kept by the
  shards that track cardinality; the shards that do not track contribute none.
\<close>

theorem merged_cardinality:
  assumes "run_records G evs (NewShardedLogStats n cs) = Some s"
  shows "set (vals (Merge s) k) = (\<Union>x \<in> {x \<in> set s. track_cardinality x}. set (vals x k)) \<and>
    set (vals (Merge s) k) \<subseteq> seen_values G k (map snd evs)"
proof -
  define s0 where "s0 = NewShardedLogStats n cs"
  define N where "N = length s0"
  have s: "s = map (\<lambda>j. fold (Record G) (part N evs j) (s0 ! j)) [0..<N]"
    using run_records_shards [OF assms] new_sharded_shape by (simp add: N_def s0_def)
  have shard: "\<exists>t. s0 ! j = new_log_stats t" if "j < N" for j
    using new_sharded_shape(2) [of j n cs] that by (simp add: N_def s0_def)
  have u: "\<forall>x \<in> set s. uniq (field_cardinality x)"
    using shard by (fastforce simp: s intro: uniq_run)
  have sub: "set (vals x k) \<subseteq> seen_values G k (map snd evs)" if "x \<in> set s" "track_cardinality x" for x
  proof -
    from that(1) obtain j where j: "j < N" and x: "x = fold (Record G) (part N evs j) (s0 ! j)"
      by (auto simp: s)
    obtain t where t: "s0 ! j = new_log_stats t" using shard [OF j] by blast
    with that(2) x have "t" by (simp add: fold_Record_counts)
    with x t card_inv_run [OF card_inv_new, of t k G "part N evs j"]
    have "set (vals x k) \<subseteq> seen_values G k (part N evs j)" by (simp add: card_inv_def)
    also have "\<dots> \<subseteq> seen_values G k (map snd evs)" by (auto simp: seen_values_def part_def)
    finally show ?thesis .
  qed
  have "set (vals (Merge s) k) = (\<Union>x \<in> {x \<in> set s. track_cardinality x}. set (vals x k))"
    using valset_fold_merge [OF u, of NewLogStats k]
    by (simp add: Merge_def NewLogStats_def valset_vals [symmetric]) (simp add: valset_def)
  with sub show ?thesis by blast
qed

text \<open>Witness: two shards of which only the second tracks, and one record on each.\<close>

lemma merged_cardinality_witness:
  "set (vals (Merge (the (run_records sample_lib
      [(0, \<lparr>sev_text = ''INFO'', res_attrs = [(''a'', PStr ''x'')], rec_attrs = []\<rparr>),
       (1, \<lparr>sev_text = ''WARN'', res_attrs = [(''a'', PStr ''y'')], rec_attrs = []\<rparr>)]
      (NewShardedLogStats 2 [1])))) ''a'') = {''y''}"
proof -
  let ?evs = "[(0, \<lparr>sev_text = ''INFO'', res_attrs = [(''a'', PStr ''x'')], rec_attrs = []\<rparr>),
       (1, \<lparr>sev_text = ''WARN'', res_attrs = [(''a'', PStr ''y'')], rec_attrs = []\<rparr>)]"
  have "NewShardedLogStats 2 [1] = [new_log_stats False, new_log_stats True]"
    by (simp add: NewShardedLogStats_def numeral_2_eq_2)
  then obtain s where s: "run_records sample_lib ?evs (NewShardedLogStats 2 [1]) = Some s"
    and eq: "s = [Record sample_lib (snd (?evs ! 0)) (new_log_stats False),
                  Record sample_lib (snd (?evs ! 1)) (new_log_stats True)]"
    by (simp add: record_at_def Shard_def)
  have "set (vals (Merge s) ''a'') = (\<Union>x \<in> {x \<in> set s. track_cardinality x}. set (vals x ''a''))"
    using merged_cardinality [OF s] by blast
  also have "\<dots> = {''y''}"
    by (auto simp: eq Record_def add_all_def add_cardinality_def vals_def)
  finally show ?thesis by (simp only: s option.sel)
qed

subsection \<open>Numbers and keys of the summary\<close>

lemma insert_commas_filter:
  "CHR '','' \<notin> set s \<Longrightarrow> filter (\<lambda>c. c \<noteq> CHR '','') (insert_commas n i s) = s"
  by (induction n i s rule: insert_commas.induct) auto

lemma fmt_nat_no_comma: "CHR '','' \<notin> set (fmt_nat 10 n)"
proof
  assume "CHR '','' \<in> set (fmt_nat 10 n)"
  then obtain d where "d < 10" and "CHR '','' = digit_char d" using fmt_nat_digits [of 10] by auto
  then have "of_char (CHR '','') = (48 + d :: nat)" using of_char_digit by metis
  then show False by simp
qed

text \<open>
  Counting positions from the right, a comma stands at each position 3, 7, 11, ... and nowhere
  else; \<open>i\<close> digits have been written before \<open>s\<close>, which has the last \<open>n - i\<close>.
\<close>

lemma insert_commas_length:
  "n = i + length s \<Longrightarrow>
   length (insert_commas n i s) = length s + (if i = 0 then (length s - 1) div 3 else length s div 3)"
proof (induction n i s rule: insert_commas.induct)
  case (2 n i c cs)
  then have IH: "length (insert_commas n (Suc i) cs) = length cs + length cs div 3"
    by (cases "0 < i \<and> (n - i) mod 3 = 0") auto
  have "n - i = Suc (length cs)" using "2.prems" by simp
  then show ?case using IH by (auto simp: mod_Suc div_Suc)
qed simp

lemma insert_commas_pos:
  "n = i + length s \<Longrightarrow> CHR '','' \<notin> set s \<Longrightarrow> j < length (insert_commas n i s) \<Longrightarrow>
   rev (insert_commas n i s) ! j = CHR '','' \<longleftrightarrow> j mod 4 = 3"
proof (induction n i s rule: insert_commas.induct)
  case (2 n i c cs)
  let ?r = "insert_commas n (Suc i) cs"
  have l: "length ?r = length cs + length cs div 3"
    using insert_commas_length [of n "Suc i" cs] "2.prems" by simp
  have ni: "n - i = Suc (length cs)" using "2.prems" by simp
  have IH: "j < length ?r \<Longrightarrow> rev ?r ! j = CHR '','' \<longleftrightarrow> j mod 4 = 3"
    using 2 by (cases "0 < i \<and> (n - i) mod 3 = 0") auto
  have c: "c \<noteq> CHR '',''" using "2.prems" by auto
  have m: "length ?r mod 4 = length cs mod 3"
  proof -
    have "length cs = 3 * (length cs div 3) + length cs mod 3" by simp
    then have "length ?r = length cs mod 3 + 4 * (length cs div 3)" using l by linarith
    then have "length ?r mod 4 = length cs mod 3 mod 4" by simp
    also have "\<dots> = length cs mod 3" by (rule mod_less) (rule less_trans [of _ 3]; simp)
    finally show ?thesis .
  qed
  have c_pos: "length ?r mod 4 \<noteq> 3" using m by (metis less_irrefl mod_less_divisor zero_less_numeral)
  consider "j < length ?r" | "j = length ?r" | "j = Suc (length ?r)" "0 < i" "(n - i) mod 3 = 0"
    using "2.prems"(3) by (auto simp: less_Suc_eq split: if_splits)
  then show ?case
  proof cases
    case 1
    with IH show ?thesis by (simp add: nth_append)
  next
    case 2
    with c c_pos show ?thesis by (simp add: nth_append)
  next
    case 3
    then have "length cs mod 3 = 2" using ni by (auto simp: mod_Suc split: if_splits)
    with 3 m have "j mod 4 = 3" by (simp add: mod_Suc)
    with 3 show ?thesis by (simp add: nth_append)
  qed
qed simp

lemma format_number_eq: "format_number n = insert_commas (length (fmt_nat 10 (unat n))) 0 (fmt_nat 10 (unat n))"
proof (cases "n < 1000")
  case True
  then have u: "unat n < 1000" by (simp add: word_less_nat_alt)
  have one: "insert_commas 1 0 [a] = [a]" and two: "insert_commas 2 0 [a, b] = [a, b]"
    and three: "insert_commas 3 0 [a, b, c] = [a, b, c]" for a b c
    by simp_all
  consider "unat n < 10" | "10 \<le> unat n" "unat n < 100" | "100 \<le> unat n" using u by linarith
  then have "\<exists>a b c. fmt_nat 10 (unat n) \<in> {[a], [a, b], [a, b, c]}"
  proof cases
    case 1
    then show ?thesis by (subst fmt_nat.simps) auto
  next
    case 2
    then show ?thesis
      by (subst fmt_nat.simps, subst fmt_nat.simps) (auto simp: div_less_iff_less_mult)
  next
    case 3
    with u have "\<not> unat n div 10 < 10" and "unat n div 10 div 10 < 10" by auto
    then show ?thesis
      by (subst fmt_nat.simps, subst fmt_nat.simps, subst fmt_nat.simps) auto
  qed
  with True show ?thesis by (auto simp: format_number_def)
next
  case False
  then show ?thesis by (simp add: format_number_def Let_def)
qed

lemma insert_commas_hd: "s \<noteq> [] \<Longrightarrow> hd (insert_commas n 0 s) = hd s"
  by (cases s) simp_all

text \<open>
  C38. \<open>formatNumber\<close> groups correctly: without its commas the text is the decimal number and
  reads back as it; counting from the right a comma stands at exactly the positions 3, 7, 11, ...,
  so that all groups but the first have three digits; and the text does not begin with a comma.
\<close>

theorem format_number_groups:
  "filter (\<lambda>c. c \<noteq> CHR '','') (format_number n) = fmt_nat 10 (unat n) \<and>
   read_digits (filter (\<lambda>c. c \<noteq> CHR '','') (format_number n)) = unat n \<and>
   (\<forall>j < length (format_number n). rev (format_number n) ! j = CHR '','' \<longleftrightarrow> j mod 4 = 3) \<and>
   format_number n \<noteq> [] \<and> hd (format_number n) \<noteq> CHR '',''"
proof -
  have "filter (\<lambda>c. c \<noteq> CHR '','') (format_number n) = fmt_nat 10 (unat n)"
    unfolding format_number_eq by (rule insert_commas_filter [OF fmt_nat_no_comma])
  moreover from this have "format_number n \<noteq> []" by (metis filter.simps(1) fmt_nat_nonempty)
  moreover have "hd (format_number n) \<noteq> CHR '',''"
    unfolding format_number_eq insert_commas_hd [OF fmt_nat_nonempty] by (metis fmt_nat_no_comma fmt_nat_nonempty list.set_sel(1))
  moreover have "\<forall>j < length (format_number n). rev (format_number n) ! j = CHR '','' \<longleftrightarrow> j mod 4 = 3"
    unfolding format_number_eq
    using insert_commas_pos [OF _ fmt_nat_no_comma, of "length (fmt_nat 10 (unat n))" 0 "unat n"] by simp
  ultimately show ?thesis by (simp add: read_fmt_nat)
qed

lemma format_number_groups_witness:
  "read_digits (filter (\<lambda>c. c \<noteq> CHR '','') (format_number 123456)) = 123456 \<and>
   rev (format_number 123456) ! 3 = CHR '','' \<and> hd (format_number 123456) \<noteq> CHR '',''"
proof -
  have l: "format_number 123456 = ''123,456''"
    by (simp add: format_number_def fmt_nat.simps)
  have "3 < length (format_number 123456)" unfolding l by simp
  then show ?thesis using format_number_groups [of 123456] by (simp add: read_fmt_nat)
qed

text \<open>Each section of the summary lists every key of its map once, in increasing byte order.\<close>

lemma sorted_keys_once:
  "uniq m \<Longrightarrow> sorted (sorted_keys m) \<and> distinct (sorted_keys m) \<and> set (sorted_keys m) = dom (map_of m)"
  by (simp add: sorted_keys_def dom_map_of_conv_image_fst)

end
