(* ===== verification/GoNet.thy ===== *)
theory GoNet
  imports GoText
begin

text \<open>
  \<open>net.ParseCIDR\<close>, \<open>IP.To4\<close> and \<open>IP.String\<close> for IPv4, as the receiver uses them: a network
  is its masked address and its mask, each as the bytes the library returns. A text whose
  address part is IPv6 is left to the library parameter \<open>cidr6_fn\<close>.
\<close>

type_synonym ipnet = "8 word list \<times> 8 word list"

definition bytes4 :: "32 word \<Rightarrow> 8 word list" where
  "bytes4 w = [ucast (drop_bit 24 w), ucast (drop_bit 16 w), ucast (drop_bit 8 w), ucast w]"

text \<open>\<open>uint32(b[0])<<24 | uint32(b[1])<<16 | uint32(b[2])<<8 | uint32(b[3])\<close>\<close>

fun word_of_bytes :: "8 word list \<Rightarrow> 32 word" where
  "word_of_bytes (a # b # c # d # _) =
     push_bit 24 (ucast a) OR push_bit 16 (ucast b) OR push_bit 8 (ucast c) OR ucast d"
| "word_of_bytes _ = 0"

definition cidr_mask :: "nat \<Rightarrow> 32 word" where
  "cidr_mask n = push_bit (32 - n) (- 1)"

definition is_digit :: "char \<Rightarrow> bool" where
  "is_digit c \<longleftrightarrow> (let n = of_char c :: nat in 48 \<le> n \<and> n \<le> 57)"

fun split_at :: "char \<Rightarrow> string \<Rightarrow> string list" where
  "split_at c [] = [[]]"
| "split_at c (x # xs) =
     (if x = c then [] # split_at c xs
      else case split_at c xs of [] \<Rightarrow> [[x]] | w # ws \<Rightarrow> (x # w) # ws)"

definition parse_octet :: "string \<Rightarrow> 32 word option" where
  "parse_octet s =
     (if s = [] \<or> \<not> list_all is_digit s \<or> (1 < length s \<and> hd s = CHR ''0'') \<or> 255 < read_digits s
      then None else Some (of_nat (read_digits s)))"

definition parse_ipv4 :: "string \<Rightarrow> 32 word option" where
  "parse_ipv4 s =
     (case split_at (CHR ''.'') s of
        [a, b, c, d] \<Rightarrow>
          do { a \<leftarrow> parse_octet a; b \<leftarrow> parse_octet b; c \<leftarrow> parse_octet c; d \<leftarrow> parse_octet d;
               Some (push_bit 24 a OR push_bit 16 b OR push_bit 8 c OR d) }
      | _ \<Rightarrow> None)"

text \<open>The first of \<open>.\<close>, \<open>:\<close> and \<open>%\<close> decides the kind of address.\<close>

definition addr_kind :: "string \<Rightarrow> char option" where
  "addr_kind s = find (\<lambda>c. c \<in> {CHR ''.'', CHR '':'', CHR ''%''}) s"

definition parse_prefix_len :: "string \<Rightarrow> nat option" where
  "parse_prefix_len s = (if s = [] \<or> \<not> list_all is_digit s \<or> 32 < read_digits s then None else Some (read_digits s))"

definition parse_cidr :: "golib \<Rightarrow> string \<Rightarrow> ipnet option" where
  "parse_cidr G s =
     (if CHR ''/'' \<notin> set s then None
      else let addr = takeWhile (\<lambda>c. c \<noteq> CHR ''/'') s; len = tl (dropWhile (\<lambda>c. c \<noteq> CHR ''/'') s)
      in case addr_kind addr of
           Some c \<Rightarrow>
             (if c = CHR ''.'' then
                do { a \<leftarrow> parse_ipv4 addr; n \<leftarrow> parse_prefix_len len;
                     Some (bytes4 (a AND cidr_mask n), bytes4 (cidr_mask n)) }
              else if c = CHR '':'' then cidr6_fn G s else None)
         | None \<Rightarrow> None)"

definition to4 :: "8 word list \<Rightarrow> 8 word list option" where
  "to4 ip =
     (if length ip = 4 then Some ip
      else if length ip = 16 \<and> take 10 ip = replicate 10 0 \<and> ip ! 10 = 255 \<and> ip ! 11 = 255
      then Some (drop 12 ip) else None)"

definition ip_string :: "32 word \<Rightarrow> string" where
  "ip_string w =
     (let q = (\<lambda>b. fmt_nat 10 (unat b))
      in case bytes4 w of
           [a, b, c, d] \<Rightarrow> q a @ ''.'' @ q b @ ''.'' @ q c @ ''.'' @ q d
         | _ \<Rightarrow> [])"

lemma word_of_bytes4 [simp]: "word_of_bytes (bytes4 w) = w"
proof (rule bit_word_eqI)
  fix n assume n: "n < LENGTH(32)"
  then consider "n < 8" | "8 \<le> n" "n < 16" | "16 \<le> n" "n < 24" | "24 \<le> n" "n < 32" by force
  then show "bit (word_of_bytes (bytes4 w)) n = bit w n"
    using n by cases (auto simp: bytes4_def bit_or_iff bit_push_bit_iff bit_ucast_iff bit_drop_bit_eq)
qed

lemma length_bytes4 [simp]: "length (bytes4 w) = 4"
  by (simp add: bytes4_def)

lemma to4_bytes4 [simp]: "to4 (bytes4 w) = Some (bytes4 w)"
  by (simp add: to4_def)

lemma cidr_mask_bit: "n \<le> 32 \<Longrightarrow> bit (cidr_mask n) k \<longleftrightarrow> 32 - n \<le> k \<and> k < 32"
  using bit_imp_le_length [of "cidr_mask n" k]
  by (auto simp: cidr_mask_def bit_push_bit_iff bit_not_iff bit_mask_iff)

lemma not_cidr_mask: "n \<le> 32 \<Longrightarrow> uint (NOT (cidr_mask n)) = 2 ^ (32 - n) - 1"
proof -
  assume n: "n \<le> 32"
  have "NOT (cidr_mask n) = mask (32 - n)"
    by (rule bit_word_eqI) (auto simp: bit_not_iff cidr_mask_bit n bit_mask_iff)
  moreover have "uint (mask (32 - n) :: 32 word) = mask (32 - n)"
    by (rule bit_eqI) (auto simp: bit_uint_iff bit_mask_iff)
  ultimately show ?thesis by (simp only: mask_eq_exp_minus_1)
qed

text \<open>An address with host part \<open>h\<close> lies in the network and is not its base.\<close>

lemma host_in_network:
  assumes n: "n \<le> 32" and b: "b AND cidr_mask n = b" and h: "1 \<le> uint h" "uint h \<le> uint (NOT (cidr_mask n))"
  shows "(b OR h) AND cidr_mask n = b \<and> b OR h \<noteq> b"
proof -
  have lt: "uint h < 2 ^ (32 - n)" using h not_cidr_mask [OF n] by simp
  have hk: "\<not> bit h k" if "32 - n \<le> k" for k
  proof -
    have "uint h < 2 ^ k"
      using lt power_increasing [OF that, of "2::int"] by linarith
    then have "take_bit k (uint h) = uint h" by (simp add: take_bit_int_eq_self)
    then have "\<not> bit (uint h) k" by (metis bit_take_bit_iff less_irrefl)
    then show ?thesis using bit_imp_le_length [of h k] by (auto simp: bit_uint_iff)
  qed
  have "h AND cidr_mask n = 0"
    by (rule bit_word_eqI) (auto simp: bit_and_iff cidr_mask_bit n hk)
  then have 1: "(b OR h) AND cidr_mask n = b" using b by (simp add: bit.conj_disj_distrib2)
  have "h \<noteq> 0" using h by auto
  then obtain k where k: "bit h k" by (auto simp: bit_eq_iff)
  with hk have "k < 32 - n" by (meson not_le)
  then have "\<not> bit b k" using b n by (metis bit_and_iff cidr_mask_bit not_le)
  moreover have "bit (b OR h) k" using k by (simp add: bit_or_iff)
  ultimately have 2: "b OR h \<noteq> b" by metis
  from 1 2 show ?thesis by blast
qed

end
