(* ===== verification/Config.thy ===== *)
theory Config
  imports GoNet
begin

text \<open>
  The configuration (\<open>config.go\<close>) and the built-in profiles (\<open>builtin_profiles.go\<close>).
  A pointer field is an \<open>option\<close>, \<open>nil\<close> being \<open>None\<close>; a Go \<open>error\<close> result is a
  \<open>cfg_error option\<close>, \<open>nil\<close> being \<open>None\<close>. The embedded YAML file, parsed by a library, is
  the argument \<open>file\<close> of the definitions that read it.
\<close>

subsection \<open>Configuration data\<close>

record needle_cfg =
  needle_name :: string
  needle_message :: string
  needle_rate :: f64
  needle_severity :: string
  needle_attributes :: "(string, string) gomap"

record cron_burst_cfg =
  cron_interval :: int
  cron_multiplier :: f64
  cron_duration :: int

record diurnal_cfg =
  peak_hour :: int
  trough_hour :: int
  peak_multiplier :: f64
  trough_multiplier :: f64
  cron_bursts :: "cron_burst_cfg list"

record volume_cfg =
  burst_probability :: f64
  burst_multiplier_min :: f64
  burst_multiplier_max :: f64
  burst_duration_min :: int
  burst_duration_max :: int
  quiet_probability :: f64
  quiet_multiplier :: f64
  quiet_duration_min :: int
  quiet_duration_max :: int

record ip_pool_cfg =
  cfg_cidrs :: "string list"
  cfg_zipf_skew :: f64

record scenario_cfg =
  scn_path :: string
  scale :: int
  concurrency :: int
  template_vars :: "(string, any) gomap"
  logs_per_interval :: int
  emit_trace_context :: bool
  needles :: "needle_cfg list"
  volume_profile :: "volume_cfg option"
  diurnal_profile :: "diurnal_cfg option"
  severity_weights :: "(int \<times> int \<times> int \<times> int \<times> int \<times> int) option"
  ip_pool :: "ip_pool_cfg option"
  instance_volume_skew :: f64

record profile_cfg =
  profile_name :: string
  profile_description :: string
  profile_scenarios :: "scenario_cfg list"

record config =
  start_time :: gotime
  start_now_minus :: int
  end_time :: gotime
  end_now_minus :: int
  interval :: int
  interval_jitter_std_dev :: int
  real_time :: bool
  exit_after_end :: bool
  exit_after_end_timeout :: int
  seed :: int
  profile :: string
  scenarios :: "scenario_cfg list"

definition create_default_config :: config where
  "create_default_config =
     \<lparr>start_time = zero_time, start_now_minus = 0, end_time = zero_time, end_now_minus = 0,
      interval = 0, interval_jitter_std_dev = 0, real_time = False, exit_after_end = False,
      exit_after_end_timeout = 0, seed = 0, profile = [], scenarios = []\<rparr>"

datatype cfg_error =
    IntervalTooSmall | StartAfterEnd | ProfileAndScenarios | NoProfileNoScenarios
  | ProfileFailed string cfg_error | UnknownProfile string | ProfileEmpty string
  | ScaleNegative | ScaleNotMultiple | ConcurrencyNegative | LogsNegative
  | NeedleNoName | NeedleNoMessage string | NeedleBadRate string | NeedleBadSeverity string
  | BurstProbability | QuietProbability | ProbabilitySum | BurstMultiplierMin | BurstMultiplierMax
  | BurstDurationMin | BurstDurationMax | QuietMultiplier | QuietDurationMin | QuietDurationMax
  | PeakHour int | TroughHour int | HoursEqual
  | CronInterval nat | CronMultiplier nat | CronDuration nat | CronDurationInterval nat
  | WeightsDecrease nat int int | WeightRange nat int | WeightLast int
  | BadCIDR string | ZipfSkew f64 | VolumeSkew f64
  | ProfilesUnreadable | ProfilesUnparsable | ProfileNoName nat | ProfileDuplicate string
  | ProfileNoScenarios string | ProfileInvalid string cfg_error | LoadingProfiles cfg_error

subsection \<open>Validation of a scenario\<close>

fun validate_weights :: "nat \<Rightarrow> int \<Rightarrow> int list \<Rightarrow> cfg_error option" where
  "validate_weights i prev [] = None"
| "validate_weights i prev (w # ws) =
     (if w < prev then Some (WeightsDecrease i w prev)
      else if w < 0 \<or> 100 < w then Some (WeightRange i w)
      else validate_weights (Suc i) w ws)"

fun weights_list :: "int \<times> int \<times> int \<times> int \<times> int \<times> int \<Rightarrow> int list" where
  "weights_list (a, b, c, d, e, f) = [a, b, c, d, e, f]"

definition validate_severity_weights :: "(int \<times> int \<times> int \<times> int \<times> int \<times> int) option \<Rightarrow> cfg_error option" where
  "validate_severity_weights sw =
     (case sw of None \<Rightarrow> None
      | Some w \<Rightarrow>
          (case validate_weights 0 0 (weights_list w) of
             Some e \<Rightarrow> Some e
           | None \<Rightarrow> (let last = weights_list w ! 5 in if last \<noteq> 100 then Some (WeightLast last) else None)))"

fun validate_cidrs :: "golib \<Rightarrow> string list \<Rightarrow> cfg_error option" where
  "validate_cidrs G [] = None"
| "validate_cidrs G (c # cs) =
     (case parse_cidr G c of None \<Rightarrow> Some (BadCIDR c) | Some _ \<Rightarrow> validate_cidrs G cs)"

definition validate_ip_pool :: "golib \<Rightarrow> ip_pool_cfg option \<Rightarrow> cfg_error option" where
  "validate_ip_pool G ip =
     (case ip of None \<Rightarrow> None
      | Some p \<Rightarrow>
          (case validate_cidrs G (cfg_cidrs p) of
             Some e \<Rightarrow> Some e
           | None \<Rightarrow>
               if \<not> feq (cfg_zipf_skew p) (Fin 0) \<and> fle (cfg_zipf_skew p) (Fin 1)
               then Some (ZipfSkew (cfg_zipf_skew p)) else None))"

fun validate_cron_bursts :: "nat \<Rightarrow> cron_burst_cfg list \<Rightarrow> cfg_error option" where
  "validate_cron_bursts i [] = None"
| "validate_cron_bursts i (cb # cbs) =
     (if cron_interval cb \<le> 0 then Some (CronInterval i)
      else if fle (cron_multiplier cb) (Fin 0) then Some (CronMultiplier i)
      else if cron_duration cb \<le> 0 then Some (CronDuration i)
      else if cron_interval cb \<le> cron_duration cb then Some (CronDurationInterval i)
      else validate_cron_bursts (Suc i) cbs)"

text \<open>The hours in force: 14 and 4 when both are 0.\<close>

definition default_hours :: "diurnal_cfg \<Rightarrow> int \<times> int" where
  "default_hours dp =
     (if peak_hour dp = 0 \<and> trough_hour dp = 0 then (14, 4) else (peak_hour dp, trough_hour dp))"

definition validate_diurnal_profile :: "diurnal_cfg option \<Rightarrow> cfg_error option" where
  "validate_diurnal_profile d =
     (case d of None \<Rightarrow> None
      | Some dp \<Rightarrow>
          (let (peak, trough) = default_hours dp
           in if peak < 0 \<or> 23 < peak then Some (PeakHour peak)
              else if trough < 0 \<or> 23 < trough then Some (TroughHour trough)
              else if peak = trough then Some HoursEqual
              else validate_cron_bursts 0 (cron_bursts dp)))"

definition apply_diurnal_defaults :: "diurnal_cfg option \<Rightarrow> diurnal_cfg option" where
  "apply_diurnal_defaults d =
     map_option (\<lambda>dp.
       let dp1 = (if peak_hour dp = 0 \<and> trough_hour dp = 0
                  then dp\<lparr>peak_hour := 14, trough_hour := 4\<rparr> else dp);
           dp2 = (if fle (peak_multiplier dp1) (Fin 0) then dp1\<lparr>peak_multiplier := Fin 3\<rparr> else dp1)
       in if fle (trough_multiplier dp2) (Fin 0) then dp2\<lparr>trough_multiplier := rnd (1 / 5)\<rparr> else dp2) d"

definition validate_volume_profile :: "volume_cfg option \<Rightarrow> cfg_error option" where
  "validate_volume_profile v =
     (case v of None \<Rightarrow> None
      | Some vp \<Rightarrow>
          if flt (burst_probability vp) (Fin 0) \<or> flt (Fin 1) (burst_probability vp) then Some BurstProbability
          else if flt (quiet_probability vp) (Fin 0) \<or> flt (Fin 1) (quiet_probability vp) then Some QuietProbability
          else if flt (Fin 1) (fadd (burst_probability vp) (quiet_probability vp)) then Some ProbabilitySum
          else if flt (burst_multiplier_min vp) (Fin 0) then Some BurstMultiplierMin
          else if flt (burst_multiplier_max vp) (burst_multiplier_min vp) then Some BurstMultiplierMax
          else if burst_duration_min vp < 1 \<and> flt (Fin 0) (burst_probability vp) then Some BurstDurationMin
          else if burst_duration_max vp < burst_duration_min vp then Some BurstDurationMax
          else if flt (quiet_multiplier vp) (Fin 0) then Some QuietMultiplier
          else if quiet_duration_min vp < 1 \<and> flt (Fin 0) (quiet_probability vp) then Some QuietDurationMin
          else if quiet_duration_max vp < quiet_duration_min vp then Some QuietDurationMax
          else None)"

definition severity_names :: "string list" where
  "severity_names = [''TRACE'', ''DEBUG'', ''INFO'', ''WARN'', ''ERROR'', ''FATAL'']"

fun validate_needles :: "golib \<Rightarrow> needle_cfg list \<Rightarrow> cfg_error option" where
  "validate_needles G [] = None"
| "validate_needles G (n # ns) =
     (if needle_name n = [] then Some NeedleNoName
      else if needle_message n = [] then Some (NeedleNoMessage (needle_name n))
      else if flt (needle_rate n) (Fin 0) \<or> flt (Fin 1) (needle_rate n) then Some (NeedleBadRate (needle_name n))
      else let sev = to_upper G (trim_space G (needle_severity n))
           in if sev \<noteq> [] \<and> sev \<notin> set severity_names then Some (NeedleBadSeverity (needle_name n))
              else validate_needles G ns)"

definition validate_scenario :: "golib \<Rightarrow> scenario_cfg \<Rightarrow> cfg_error option" where
  "validate_scenario G scn =
     (if scale scn < 0 then Some ScaleNegative
      else if concurrency scn \<noteq> 0 \<and> 0 < scale scn \<and> rem_go (scale scn) (concurrency scn) \<noteq> 0
      then Some ScaleNotMultiple
      else if concurrency scn < 0 then Some ConcurrencyNegative
      else if logs_per_interval scn < 0 then Some LogsNegative
      else case validate_needles G (needles scn) of Some e \<Rightarrow> Some e
      | None \<Rightarrow> case validate_volume_profile (volume_profile scn) of Some e \<Rightarrow> Some e
      | None \<Rightarrow> case validate_diurnal_profile (diurnal_profile scn) of Some e \<Rightarrow> Some e
      | None \<Rightarrow> case validate_severity_weights (severity_weights scn) of Some e \<Rightarrow> Some e
      | None \<Rightarrow> case validate_ip_pool G (ip_pool scn) of Some e \<Rightarrow> Some e
      | None \<Rightarrow> if flt (instance_volume_skew scn) (Fin 0) then Some (VolumeSkew (instance_volume_skew scn))
                else None)"

fun validate_scenarios :: "golib \<Rightarrow> scenario_cfg list \<Rightarrow> cfg_error option" where
  "validate_scenarios G [] = None"
| "validate_scenarios G (scn # scns) =
     (case validate_scenario G scn of Some e \<Rightarrow> Some e | None \<Rightarrow> validate_scenarios G scns)"

subsection \<open>Built-in profiles\<close>

text \<open>The embedded file: unreadable, unparsable, or a list of profiles.\<close>

datatype profiles_file = Unreadable | Unparsable | Profiles "profile_cfg list"

fun load_profiles :: "golib \<Rightarrow> nat \<Rightarrow> (string, profile_cfg) gomap \<Rightarrow> profile_cfg list \<Rightarrow>
    cfg_error + (string, profile_cfg) gomap" where
  "load_profiles G i m [] = Inr m"
| "load_profiles G i m (p # ps) =
     (if profile_name p = [] then Inl (ProfileNoName i)
      else if map_of m (profile_name p) \<noteq> None then Inl (ProfileDuplicate (profile_name p))
      else if profile_scenarios p = [] then Inl (ProfileNoScenarios (profile_name p))
      else case validate_scenarios G (profile_scenarios p) of
             Some e \<Rightarrow> Inl (ProfileInvalid (profile_name p) e)
           | None \<Rightarrow> load_profiles G (Suc i) (put_go (profile_name p) p m) ps)"

definition load_builtin_profiles :: "golib \<Rightarrow> profiles_file \<Rightarrow> cfg_error + (string, profile_cfg) gomap" where
  "load_builtin_profiles G file =
     (case file of Unreadable \<Rightarrow> Inl ProfilesUnreadable | Unparsable \<Rightarrow> Inl ProfilesUnparsable
      | Profiles ps \<Rightarrow> load_profiles G 0 [] ps)"

definition get_builtin_profile :: "golib \<Rightarrow> profiles_file \<Rightarrow> string \<Rightarrow> cfg_error + profile_cfg option" where
  "get_builtin_profile G file name =
     (case load_builtin_profiles G file of Inl e \<Rightarrow> Inl (LoadingProfiles e) | Inr m \<Rightarrow> Inr (map_of m name))"

subsection \<open>Validation of the configuration\<close>

text \<open>\<open>Duration.Seconds\<close>\<close>

definition seconds :: "int \<Rightarrow> f64" where
  "seconds d = fadd (of_i64 (div_go d second_ns)) (fdiv (of_i64 (rem_go d second_ns)) (Fin 1000000000))"

definition Validate :: "golib \<Rightarrow> profiles_file \<Rightarrow> config \<Rightarrow> cfg_error option" where
  "Validate G file cfg =
     (if flt (seconds (interval cfg)) (Fin 1) then Some IntervalTooSmall
      else if after_time (start_time cfg) (end_time cfg) then Some StartAfterEnd
      else
        let has_profile = profile cfg \<noteq> []; has_scenarios = scenarios cfg \<noteq> []
        in if has_profile \<and> has_scenarios then Some ProfileAndScenarios
           else if \<not> has_profile \<and> \<not> has_scenarios then Some NoProfileNoScenarios
           else if has_profile then
             (case get_builtin_profile G file (profile cfg) of
                Inl e \<Rightarrow> Some (ProfileFailed (profile cfg) e)
              | Inr None \<Rightarrow> Some (UnknownProfile (profile cfg))
              | Inr (Some prof) \<Rightarrow>
                  if profile_scenarios prof = [] then Some (ProfileEmpty (profile cfg))
                  else validate_scenarios G (profile_scenarios prof))
           else validate_scenarios G (scenarios cfg))"

definition EffectiveScenarios :: "golib \<Rightarrow> profiles_file \<Rightarrow> config \<Rightarrow> cfg_error + scenario_cfg list" where
  "EffectiveScenarios G file cfg =
     (if profile cfg \<noteq> [] then
        (case get_builtin_profile G file (profile cfg) of
           Inl e \<Rightarrow> Inl (ProfileFailed (profile cfg) e)
         | Inr None \<Rightarrow> Inl (UnknownProfile (profile cfg))
         | Inr (Some prof) \<Rightarrow> Inr (profile_scenarios prof))
      else Inr (scenarios cfg))"

subsection \<open>What a valid scenario is\<close>

text \<open>The conditions on a scenario, stated without the order in which the code checks them.\<close>

definition needle_ok :: "golib \<Rightarrow> needle_cfg \<Rightarrow> bool" where
  "needle_ok G n \<longleftrightarrow> needle_name n \<noteq> [] \<and> needle_message n \<noteq> [] \<and>
     fle (Fin 0) (needle_rate n) \<and> fle (needle_rate n) (Fin 1) \<and>
     to_upper G (trim_space G (needle_severity n)) \<in> insert [] (set severity_names)"

definition volume_ok :: "volume_cfg \<Rightarrow> bool" where
  "volume_ok vp \<longleftrightarrow>
     fle (Fin 0) (burst_probability vp) \<and> fle (burst_probability vp) (Fin 1) \<and>
     fle (Fin 0) (quiet_probability vp) \<and> fle (quiet_probability vp) (Fin 1) \<and>
     fle (fadd (burst_probability vp) (quiet_probability vp)) (Fin 1) \<and>
     fle (Fin 0) (burst_multiplier_min vp) \<and> fle (burst_multiplier_min vp) (burst_multiplier_max vp) \<and>
     (flt (Fin 0) (burst_probability vp) \<longrightarrow> 1 \<le> burst_duration_min vp) \<and>
     burst_duration_min vp \<le> burst_duration_max vp \<and>
     fle (Fin 0) (quiet_multiplier vp) \<and>
     (flt (Fin 0) (quiet_probability vp) \<longrightarrow> 1 \<le> quiet_duration_min vp) \<and>
     quiet_duration_min vp \<le> quiet_duration_max vp"

definition cron_ok :: "cron_burst_cfg \<Rightarrow> bool" where
  "cron_ok cb \<longleftrightarrow> 0 < cron_duration cb \<and> cron_duration cb < cron_interval cb \<and> flt (Fin 0) (cron_multiplier cb)"

definition diurnal_ok :: "diurnal_cfg \<Rightarrow> bool" where
  "diurnal_ok dp \<longleftrightarrow>
     (let (peak, trough) = default_hours dp
      in 0 \<le> peak \<and> peak \<le> 23 \<and> 0 \<le> trough \<and> trough \<le> 23 \<and> peak \<noteq> trough) \<and>
     (\<forall>cb \<in> set (cron_bursts dp). cron_ok cb)"

definition weights_ok :: "int list \<Rightarrow> bool" where
  "weights_ok ws \<longleftrightarrow> sorted ws \<and> set ws \<subseteq> {0..100} \<and> ws \<noteq> [] \<and> last ws = 100"

definition ip_pool_ok :: "golib \<Rightarrow> ip_pool_cfg \<Rightarrow> bool" where
  "ip_pool_ok G p \<longleftrightarrow> (\<forall>c \<in> set (cfg_cidrs p). parse_cidr G c \<noteq> None) \<and>
     (cfg_zipf_skew p = Fin 0 \<or> flt (Fin 1) (cfg_zipf_skew p))"

definition scenario_ok :: "golib \<Rightarrow> scenario_cfg \<Rightarrow> bool" where
  "scenario_ok G scn \<longleftrightarrow>
     0 \<le> scale scn \<and> 0 \<le> concurrency scn \<and> 0 \<le> logs_per_interval scn \<and>
     (0 < concurrency scn \<longrightarrow> concurrency scn dvd scale scn) \<and>
     (\<forall>n \<in> set (needles scn). needle_ok G n) \<and>
     pred_option volume_ok (volume_profile scn) \<and> pred_option diurnal_ok (diurnal_profile scn) \<and>
     pred_option (\<lambda>w. weights_ok (weights_list w)) (severity_weights scn) \<and>
     pred_option (ip_pool_ok G) (ip_pool scn) \<and>
     fle (Fin 0) (instance_volume_skew scn)"

text \<open>No floating point field is NaN.\<close>

definition volume_numbers :: "volume_cfg \<Rightarrow> bool" where
  "volume_numbers vp \<longleftrightarrow> NaN \<notin> {burst_probability vp, quiet_probability vp, burst_multiplier_min vp,
     burst_multiplier_max vp, quiet_multiplier vp}"

definition numbers :: "scenario_cfg \<Rightarrow> bool" where
  "numbers scn \<longleftrightarrow>
     (\<forall>n \<in> set (needles scn). needle_rate n \<noteq> NaN) \<and>
     pred_option volume_numbers (volume_profile scn) \<and>
     pred_option (\<lambda>dp. \<forall>cb \<in> set (cron_bursts dp). cron_multiplier cb \<noteq> NaN) (diurnal_profile scn) \<and>
     pred_option (\<lambda>p. cfg_zipf_skew p \<noteq> NaN) (ip_pool scn) \<and> instance_volume_skew scn \<noteq> NaN"

lemma first_error_None [simp]: "(case x of Some e \<Rightarrow> Some e | None \<Rightarrow> y) = None \<longleftrightarrow> x = None \<and> y = None"
  by (cases x) simp_all

lemma validate_needles_iff:
  "\<forall>n \<in> set ns. needle_rate n \<noteq> NaN \<Longrightarrow> validate_needles G ns = None \<longleftrightarrow> (\<forall>n \<in> set ns. needle_ok G n)"
  by (induction ns) (auto simp: needle_ok_def Let_def flt_not_fle)

lemma fadd_probs: "fle (Fin 0) a \<Longrightarrow> fle a (Fin 1) \<Longrightarrow> fle (Fin 0) b \<Longrightarrow> fadd a b \<noteq> NaN"
  by (cases a; cases b) simp_all

lemma validate_volume_iff:
  "pred_option volume_numbers v \<Longrightarrow> validate_volume_profile v = None \<longleftrightarrow> pred_option volume_ok v"
proof (cases v)
  case (Some vp)
  assume "pred_option volume_numbers v"
  then have n: "burst_probability vp \<noteq> NaN" "quiet_probability vp \<noteq> NaN" "burst_multiplier_min vp \<noteq> NaN"
    "burst_multiplier_max vp \<noteq> NaN" "quiet_multiplier vp \<noteq> NaN"
    by (auto simp: Some volume_numbers_def)
  have p: "flt (Fin 1) (fadd (burst_probability vp) (quiet_probability vp)) \<longleftrightarrow>
      \<not> fle (fadd (burst_probability vp) (quiet_probability vp)) (Fin 1)"
    if "fle (Fin 0) (burst_probability vp)" "fle (burst_probability vp) (Fin 1)" "fle (Fin 0) (quiet_probability vp)"
    using flt_not_fle fadd_probs [OF that] by simp
  show ?thesis
    using n p by (auto simp: Some validate_volume_profile_def volume_ok_def flt_not_fle)
qed (simp add: validate_volume_profile_def)

lemma validate_cron_iff:
  "\<forall>cb \<in> set cbs. cron_multiplier cb \<noteq> NaN \<Longrightarrow>
   validate_cron_bursts i cbs = None \<longleftrightarrow> (\<forall>cb \<in> set cbs. cron_ok cb)"
  by (induction i cbs rule: validate_cron_bursts.induct) (auto simp: cron_ok_def flt_not_fle)

lemma validate_diurnal_iff:
  "pred_option (\<lambda>dp. \<forall>cb \<in> set (cron_bursts dp). cron_multiplier cb \<noteq> NaN) d \<Longrightarrow>
   validate_diurnal_profile d = None \<longleftrightarrow> pred_option diurnal_ok d"
  by (cases d) (auto simp: validate_diurnal_profile_def diurnal_ok_def validate_cron_iff split: prod.splits)

lemma validate_weights_iff:
  "0 \<le> prev \<Longrightarrow> validate_weights i prev ws = None \<longleftrightarrow> sorted (prev # ws) \<and> set ws \<subseteq> {0..100}"
proof (induction i prev ws rule: validate_weights.induct)
  case (2 i prev w ws)
  show ?case
  proof (cases "w < prev \<or> w < 0 \<or> 100 < w")
    case True
    then show ?thesis using "2.prems" by auto
  next
    case False
    with 2 have "validate_weights (Suc i) w ws = None \<longleftrightarrow> sorted (w # ws) \<and> set ws \<subseteq> {0..100}" by simp
    with False show ?thesis by fastforce
  qed
qed simp

lemma validate_severity_iff:
  "validate_severity_weights sw = None \<longleftrightarrow> pred_option (\<lambda>w. weights_ok (weights_list w)) sw"
proof (cases sw)
  case (Some w)
  obtain a b c d e f where w: "w = (a, b, c, d, e, f)" by (cases w)
  have l: "last (weights_list w) = weights_list w ! 5" by (simp add: w)
  have "validate_weights 0 0 (weights_list w) = None \<longleftrightarrow> sorted (weights_list w) \<and> set (weights_list w) \<subseteq> {0..100}"
    by (auto simp: validate_weights_iff)
  with l show ?thesis
    by (auto simp: Some validate_severity_weights_def weights_ok_def w)
qed (simp add: validate_severity_weights_def)

lemma validate_cidrs_iff: "validate_cidrs G cs = None \<longleftrightarrow> (\<forall>c \<in> set cs. parse_cidr G c \<noteq> None)"
  by (induction cs) (auto split: option.splits)

lemma validate_ip_pool_iff:
  "pred_option (\<lambda>p. cfg_zipf_skew p \<noteq> NaN) ip \<Longrightarrow> validate_ip_pool G ip = None \<longleftrightarrow> pred_option (ip_pool_ok G) ip"
proof (cases ip)
  case (Some p)
  assume "pred_option (\<lambda>p. cfg_zipf_skew p \<noteq> NaN) ip"
  then have n: "cfg_zipf_skew p \<noteq> NaN" by (simp add: Some)
  then have "feq (cfg_zipf_skew p) (Fin 0) \<longleftrightarrow> cfg_zipf_skew p = Fin 0" by (cases "cfg_zipf_skew p") auto
  with n show ?thesis
    by (auto simp: Some validate_ip_pool_def ip_pool_ok_def flt_not_fle validate_cidrs_iff)
qed (simp add: validate_ip_pool_def)

lemma validate_scenario_iff:
  assumes "numbers scn"
  shows "validate_scenario G scn = None \<longleftrightarrow> scenario_ok G scn"
proof -
  note n = assms [unfolded numbers_def]
  have m: "(concurrency scn \<noteq> 0 \<and> 0 < scale scn \<and> rem_go (scale scn) (concurrency scn) \<noteq> 0) \<longleftrightarrow>
      \<not> (concurrency scn = 0 \<or> concurrency scn dvd scale scn)" if "0 \<le> scale scn"
    using that by (cases "scale scn = 0") (auto simp: rem_go_dvd)
  show ?thesis
    using n m unfolding validate_scenario_def scenario_ok_def
    by (auto simp: flt_not_fle validate_needles_iff validate_volume_iff validate_diurnal_iff
        validate_severity_iff validate_ip_pool_iff)
qed

text \<open>
  C19. Validation of scenarios decides exactly the conditions of \<open>scenario_ok\<close>: on scenarios
  without NaN it accepts if and only if every scenario has non-negative sizes, a scale that its
  workers share evenly, well-formed needles, volume, diurnal, severity and address settings. The
  comments of the source and the tuning guide differ from these conditions in two places: they
  ask for IPv4 networks, while networks of either kind are accepted, those of IPv6 to be ignored later
  (\<open>ipv6_networks_ignored\<close> in the theory of address pools); and they say that severity weights of all
  zeros select the default, while these are rejected (\<open>zero_weights_rejected\<close>).
\<close>

theorem validate_scenarios_exact:
  assumes "\<forall>scn \<in> set scns. numbers scn"
  shows "validate_scenarios G scns = None \<longleftrightarrow> (\<forall>scn \<in> set scns. scenario_ok G scn)"
  using assms by (induction scns) (auto simp: validate_scenario_iff)

text \<open>A valid scenario, for concrete runs.\<close>

definition sample_scenario :: scenario_cfg where
  "sample_scenario =
     \<lparr>scn_path = ''builtin/k8s-nginx'', scale = 4, concurrency = 2, template_vars = [],
      logs_per_interval = 5, emit_trace_context = False, needles = [], volume_profile = None,
      diurnal_profile = None, severity_weights = Some (0, 3, 85, 93, 100, 100), ip_pool = None,
      instance_volume_skew = Fin 0\<rparr>"

lemma validate_scenarios_exact_witness:
  "validate_scenarios sample_lib [sample_scenario] = None \<and>
   validate_scenarios sample_lib [sample_scenario\<lparr>concurrency := 3\<rparr>] \<noteq> None"
proof -
  have "numbers sample_scenario" and "numbers (sample_scenario\<lparr>concurrency := 3\<rparr>)"
    by (simp_all add: numbers_def sample_scenario_def)
  moreover have "scenario_ok sample_lib sample_scenario"
    and "\<not> scenario_ok sample_lib (sample_scenario\<lparr>concurrency := 3\<rparr>)"
    by (simp_all add: scenario_ok_def sample_scenario_def weights_ok_def)
  ultimately show ?thesis
    using validate_scenarios_exact [of "[sample_scenario]" sample_lib]
      validate_scenarios_exact [of "[sample_scenario\<lparr>concurrency := 3\<rparr>]" sample_lib] by simp
qed

subsection \<open>Profiles and the configuration\<close>

lemma load_profiles_spec:
  assumes "load_profiles G i m ps = Inr m'"
    and "\<forall>p. map_of m k = Some p \<longrightarrow> profile_scenarios p \<noteq> [] \<and> validate_scenarios G (profile_scenarios p) = None"
    and "map_of m' k = Some p"
  shows "profile_scenarios p \<noteq> [] \<and> validate_scenarios G (profile_scenarios p) = None"
  using assms
proof (induction G i m ps rule: load_profiles.induct)
  case (2 G i m q ps)
  from "2.prems"(1) have q: "profile_name q \<noteq> []" "map_of m (profile_name q) = None"
    "profile_scenarios q \<noteq> []" "validate_scenarios G (profile_scenarios q) = None"
    and "load_profiles G (Suc i) (put_go (profile_name q) q m) ps = Inr m'"
    by (auto split: if_splits option.splits)
  with 2 show ?case by (auto simp: map_of_put_go)
qed auto

lemma get_builtin_profile_ok:
  "get_builtin_profile G file name = Inr (Some p) \<Longrightarrow>
   profile_scenarios p \<noteq> [] \<and> validate_scenarios G (profile_scenarios p) = None"
  using load_profiles_spec [of G 0 "[]" _ _ name p]
  by (auto simp: get_builtin_profile_def load_builtin_profiles_def split: sum.splits profiles_file.splits)

lemma effective_valid:
  assumes "Validate G file cfg = None"
  shows "\<exists>scns. EffectiveScenarios G file cfg = Inr scns \<and> scns \<noteq> [] \<and> validate_scenarios G scns = None \<and>
    (profile cfg = [] \<longrightarrow> scns = scenarios cfg)"
proof (cases "profile cfg = []")
  case True
  with assms show ?thesis
    by (auto simp: Validate_def EffectiveScenarios_def Let_def split: if_splits)
next
  case False
  with assms obtain p where p: "get_builtin_profile G file (profile cfg) = Inr (Some p)"
    by (auto simp: Validate_def Let_def split: if_splits sum.splits option.splits)
  with False get_builtin_profile_ok [OF p] show ?thesis by (simp add: EffectiveScenarios_def)
qed

text \<open>
  C20. After a successful \<open>Validate\<close>, \<open>EffectiveScenarios\<close> returns without error a
  non-empty list of scenarios that all pass validation, from the profile or from the configuration.
\<close>

theorem effective_scenarios_valid:
  assumes "Validate G file cfg = None"
  shows "\<exists>scns. EffectiveScenarios G file cfg = Inr scns \<and> scns \<noteq> [] \<and> validate_scenarios G scns = None \<and>
    (profile cfg = [] \<longrightarrow> scns = scenarios cfg)"
  using assms by (rule effective_valid)

lemma seconds_lt_1: "i64 d \<Longrightarrow> flt (seconds d) (Fin 1) \<longleftrightarrow> d < second_ns"
proof -
  assume d: "i64 d"
  define q r where "q = div_go d second_ns" and "r = rem_go d second_ns"
  have "\<bar>d\<bar> \<le> 2 ^ 63" using d by (auto simp: i64_def)
  then have "\<bar>d\<bar> div second_ns \<le> 2 ^ 63 div second_ns"
    by (rule zdiv_mono1) (simp add: second_ns_def)
  then have q: "\<bar>q\<bar> \<le> 2 ^ 53" and r: "\<bar>r\<bar> < 1000000000"
    by (auto simp: q_def r_def div_go_def rem_go_def second_ns_def abs_mult sgn_if)
  have oq: "of_i64 q = Fin (of_int q)" using q by (rule of_i64_small)
  have or: "of_i64 r = Fin (of_int r)" using r by (intro of_i64_small) simp
  define z where "z = of_int r / (1000000000 :: rat)"
  have sec: "seconds d = fadd (Fin (of_int q)) (rnd z)"
    using oq or by (simp add: seconds_def q_def r_def z_def)
  consider "second_ns \<le> d" | "0 \<le> d" "d < second_ns" | "d < 0" by linarith
  then show ?thesis
  proof cases
    case 1
    then have "d div second_ns \<ge> 1" by (simp add: second_ns_def)
    with 1 have q1: "1 \<le> q" and r0: "0 \<le> r" by (simp_all add: q_def r_def second_ns_def)
    have ok: "f64_ok (Fin (of_int q))" using rnd_int [OF q] by simp
    have "nonneg (rnd z)" using r0 by (simp add: z_def nonneg_rnd)
    then have "fle (Fin (of_int q)) (seconds d)" unfolding sec by (rule fadd_ge) (use ok in auto)
    moreover have "fle (Fin 1) (Fin (of_int q))" using q1 by simp
    ultimately have "fle (Fin 1) (seconds d)" by (rule fle_trans [rotated])
    with 1 show ?thesis using fle_not_NaN flt_not_fle by fastforce
  next
    case 2
    then have "q = 0" and "r = d" by (simp_all add: q_def r_def second_ns_def)
    have e: "of_int (2 ^ 30 - 1) * 2 powi (- 30) = (1073741823 / 1073741824 :: rat)"
      by (simp add: power_int_def power_divide)
    have "rnd_pos (of_int (2 ^ 30 - 1) * 2 powi (- 30)) = of_int (2 ^ 30 - 1) * 2 powi (- 30)"
      by (rule rnd_pos_exact) simp_all
    then have rr: "rnd_rat (1073741823 / 1073741824) = 1073741823 / 1073741824"
      unfolding e by (simp add: rnd_rat_def)
    have "(1::rat) < fbound" unfolding fbound_def by (rule one_less_power) simp_all
    then have "\<not> fbound \<le> 1073741823 / 1073741824" and "\<not> 1073741823 / 1073741824 \<le> - fbound" by linarith+
    then have c: "rnd (1073741823 / 1073741824) = Fin (1073741823 / 1073741824)"
      by (simp add: rnd_def rr)
    have "of_int r \<le> (of_int 999999999 :: rat)"
      unfolding of_int_le_iff using 2 \<open>r = d\<close> by (simp add: second_ns_def)
    then have "z \<le> 1073741823 / 1073741824" by (simp add: z_def)
    from rnd_le [OF this c] have le: "fle (rnd z) (Fin (1073741823 / 1073741824))" .
    have "nonneg (rnd z)" using 2 \<open>r = d\<close> by (simp add: z_def nonneg_rnd)
    with le obtain v where v: "rnd z = Fin v" "v \<le> 1073741823 / 1073741824" by (cases "rnd z") auto
    then have "seconds d = Fin v" using rnd_idem by (simp add: sec \<open>q = 0\<close>)
    with v 2 show ?thesis by simp
  next
    case 3
    then have "q \<le> 0" and r0: "r \<le> 0" by (auto simp: q_def r_def div_go_def rem_go_def second_ns_def)
    have "fle (rnd z) (Fin 0)" using r0 by (intro rnd_le) (simp_all add: z_def divide_le_0_iff)
    then have "fle (seconds d) (Fin 0)"
      using \<open>q \<le> 0\<close> unfolding sec by (cases "rnd z") (auto intro!: rnd_le)
    then have "flt (seconds d) (Fin 1)" by (rule fle_flt_trans) simp
    with 3 show ?thesis by (simp add: second_ns_def)
  qed
qed

text \<open>
  C40. A configuration that passes \<open>Validate\<close> has an interval of at least one second and a
  start that is not after its end.
\<close>

theorem validate_interval:
  assumes "Validate G file cfg = None" and "i64 (interval cfg)"
  shows "second_ns \<le> interval cfg \<and> unix_ns (start_time cfg) \<le> unix_ns (end_time cfg)"
  using assms seconds_lt_1 [OF assms(2)]
  by (auto simp: Validate_def after_time_def split: if_splits)

definition sample_config :: config where
  "sample_config = create_default_config\<lparr>interval := second_ns,
     start_time := \<lparr>unix_ns = 1704067200 * second_ns, zone_off = 0\<rparr>,
     end_time := \<lparr>unix_ns = 1704067210 * second_ns, zone_off = 0\<rparr>, scenarios := [sample_scenario]\<rparr>"

lemma sample_scenario_valid: "validate_scenarios sample_lib [sample_scenario] = None"
proof -
  have "numbers sample_scenario" and "scenario_ok sample_lib sample_scenario"
    by (simp_all add: numbers_def scenario_ok_def sample_scenario_def weights_ok_def)
  then show ?thesis by (simp add: validate_scenario_iff)
qed

lemma sample_config_valid: "Validate sample_lib file sample_config = None"
proof -
  have "\<not> flt (seconds second_ns) (Fin 1)"
    using seconds_lt_1 [of second_ns] by (simp add: i64_def second_ns_def)
  then show ?thesis
    using sample_scenario_valid
    by (simp add: Validate_def sample_config_def create_default_config_def after_time_def second_ns_def)
qed

lemma effective_scenarios_valid_witness:
  "\<exists>scns. EffectiveScenarios sample_lib (Profiles []) sample_config = Inr scns \<and> scns = [sample_scenario]"
  using effective_scenarios_valid [OF sample_config_valid [of "Profiles []"]]
  by (auto simp: sample_config_def create_default_config_def)

lemma validate_interval_witness:
  "second_ns \<le> interval sample_config \<and> unix_ns (start_time sample_config) \<le> unix_ns (end_time sample_config)"
  by (rule validate_interval [OF sample_config_valid [of "Profiles []"]])
    (simp add: sample_config_def i64_def second_ns_def)

text \<open>
  A fixed start with an end left to \<open>end_now_minus\<close> is never accepted: \<open>Validate\<close>
  compares the start with the unset end, before \<open>newLogsGenReceiver\<close> would fill it in.
\<close>

theorem validate_rejects_relative_end:
  assumes "end_time cfg = zero_time" and "unix_ns zero_time < unix_ns (start_time cfg)"
    and "second_ns \<le> interval cfg" and "i64 (interval cfg)"
  shows "Validate G file cfg = Some StartAfterEnd"
  using assms seconds_lt_1 [OF assms(4)] by (simp add: Validate_def after_time_def)

lemma validate_rejects_relative_end_witness:
  "Validate sample_lib (Profiles []) (sample_config\<lparr>end_time := zero_time, end_now_minus := 60 * second_ns\<rparr>) =
     Some StartAfterEnd"
  by (rule validate_rejects_relative_end)
    (simp_all add: sample_config_def create_default_config_def zero_time_def second_ns_def i64_def)

text \<open>
  Severity weights that are all zero are rejected, although the field's comment says the
  profile's default is used for them.
\<close>

theorem zero_weights_rejected:
  "severity_weights scn = Some (0, 0, 0, 0, 0, 0) \<Longrightarrow> validate_scenario G scn \<noteq> None"
  by (auto simp: validate_scenario_def validate_severity_weights_def split: option.splits)

lemma zero_weights_rejected_witness:
  "validate_scenario sample_lib (sample_scenario\<lparr>severity_weights := Some (0, 0, 0, 0, 0, 0)\<rparr>) \<noteq> None"
  by (rule zero_weights_rejected) simp

subsection \<open>Diurnal defaults\<close>

text \<open>What the receiver relies on once the defaults are applied.\<close>

definition diurnal_ready :: "diurnal_cfg \<Rightarrow> bool" where
  "diurnal_ready dp \<longleftrightarrow>
     0 \<le> peak_hour dp \<and> peak_hour dp \<le> 23 \<and> 0 \<le> trough_hour dp \<and> trough_hour dp \<le> 23 \<and>
     peak_hour dp \<noteq> trough_hour dp \<and> \<not> fle (peak_multiplier dp) (Fin 0) \<and>
     \<not> fle (trough_multiplier dp) (Fin 0) \<and> validate_cron_bursts 0 (cron_bursts dp) = None"

lemma fifth_pos: "\<not> fle (rnd (1 / 5)) (Fin 0)"
proof -
  have e: "1 * 2 powi (- 3) = (1 / 8 :: rat)" by (simp add: power_int_def power_divide)
  have "rnd_pos (of_int 1 * 2 powi (- 3)) = of_int 1 * 2 powi (- 3)" by (rule rnd_pos_exact) simp_all
  then have "rnd_rat (1 / 8) = 1 / 8" using e by (simp add: rnd_rat_def)
  moreover have "(1::rat) < fbound" unfolding fbound_def by (rule one_less_power) simp_all
  then have "\<not> fbound \<le> 1 / 8" and "\<not> 1 / 8 \<le> - fbound" by linarith+
  ultimately have "rnd (1 / 8) = Fin (1 / 8)" by (simp add: rnd_def)
  then have "fle (Fin (1 / 8)) (rnd (1 / 5))" by (intro rnd_ge) simp_all
  then show ?thesis by (cases "rnd (1 / 5)") auto
qed

lemma ready_after_defaults:
  assumes "validate_diurnal_profile (Some dp) = None" and "apply_diurnal_defaults (Some dp) = Some dp'"
  shows "diurnal_ready dp'"
  using assms fifth_pos
  by (auto simp: validate_diurnal_profile_def apply_diurnal_defaults_def diurnal_ready_def default_hours_def
      Let_def split: if_splits)

text \<open>
  C39. Applying the defaults to a valid diurnal profile gives a profile whose hours are in
  range and differ and whose multipliers are not zero or negative; applying them again, or
  validating the result, changes nothing.
\<close>

theorem diurnal_defaults_ready:
  assumes "validate_diurnal_profile (Some dp) = None" and "apply_diurnal_defaults (Some dp) = Some dp'"
  shows "diurnal_ready dp' \<and> apply_diurnal_defaults (Some dp') = Some dp' \<and>
    validate_diurnal_profile (Some dp') = None"
  using ready_after_defaults [OF assms] assms
  by (auto simp: validate_diurnal_profile_def apply_diurnal_defaults_def diurnal_ready_def default_hours_def
      Let_def split: if_splits)

lemma diurnal_defaults_ready_witness:
  "\<exists>dp'. apply_diurnal_defaults (Some \<lparr>peak_hour = 0, trough_hour = 0, peak_multiplier = Fin 0,
       trough_multiplier = Fin 0, cron_bursts = []\<rparr>) = Some dp' \<and> diurnal_ready dp' \<and> peak_hour dp' = 14"
proof -
  let ?dp = "\<lparr>peak_hour = 0, trough_hour = 0, peak_multiplier = Fin 0, trough_multiplier = Fin 0, cron_bursts = []\<rparr>"
  have "validate_diurnal_profile (Some ?dp) = None"
    by (simp add: validate_diurnal_profile_def default_hours_def)
  from diurnal_defaults_ready [OF this] show ?thesis
    by (simp add: apply_diurnal_defaults_def)
qed

end
