(* ===== verification/Volume.thy ===== *)
theory Volume
  imports Config
begin

text \<open>
  How many records an interval produces (\<open>receiver.go\<close>): the daily curve with its cron
  bursts (\<open>diurnalMultiplier\<close>), the burst and quiet phases of a scenario
  (\<open>resolveVolumeMultiplier\<close> with its \<open>volumeState\<close>), and the share of one instance
  (\<open>buildInstanceMultipliers\<close>, \<open>applyInstanceMultiplier\<close>).
\<close>

subsection \<open>The daily curve\<close>

text \<open>\<open>math.Pi\<close> as a \<open>float64\<close>\<close>

definition pi64 :: rat where
  "pi64 = 884279719003555 / 281474976710656"

definition diurnal_angle :: "int \<Rightarrow> int \<Rightarrow> f64" where
  "diurnal_angle phase trough_phase =
     (if phase \<le> trough_phase
      then fdiv (fmul (Fin pi64) (of_i64 phase)) (of_i64 trough_phase)
      else fadd (Fin pi64)
             (fdiv (fmul (Fin pi64) (of_i64 (phase - trough_phase))) (of_i64 (24 - trough_phase))))"

definition diurnal_base :: "golib \<Rightarrow> diurnal_cfg \<Rightarrow> int \<Rightarrow> f64" where
  "diurnal_base G cfg hour =
     (let peak_mult = (if fle (peak_multiplier cfg) (Fin 0) then Fin 3 else peak_multiplier cfg);
          trough_mult = (if fle (trough_multiplier cfg) (Fin 0) then rnd (1 / 5) else trough_multiplier cfg);
          phase = rem_go (hour - peak_hour cfg + 24) 24;
          trough_phase = rem_go (trough_hour cfg - peak_hour cfg + 24) 24;
          angle = diurnal_angle phase trough_phase
      in fadd trough_mult
           (fdiv (fmul (fsub peak_mult trough_mult) (fadd (cos_fn G angle) (Fin 1))) (Fin 2)))"

text \<open>The position in the cycle of a burst: the remainder by a zero interval panics.\<close>

definition cron_mod :: "int \<Rightarrow> cron_burst_cfg \<Rightarrow> int option" where
  "cron_mod base_unix cb =
     (if cron_interval cb = 0 then None
      else let m = rem_go base_unix (cron_interval cb)
           in Some (if m < 0 then w64 (m + cron_interval cb) else m))"

fun cron_max :: "int \<Rightarrow> cron_burst_cfg list \<Rightarrow> f64 \<Rightarrow> f64 option" where
  "cron_max base_unix [] max_mult = Some max_mult"
| "cron_max base_unix (cb # cbs) max_mult =
     do { m \<leftarrow> cron_mod base_unix cb;
          cron_max base_unix cbs
            (if m < cron_duration cb \<and> flt max_mult (cron_multiplier cb) then cron_multiplier cb else max_mult) }"

definition diurnalMultiplier :: "golib \<Rightarrow> gotime \<Rightarrow> diurnal_cfg option \<Rightarrow> f64 option" where
  "diurnalMultiplier G t d =
     (case d of None \<Rightarrow> Some (Fin 1)
      | Some cfg \<Rightarrow> cron_max (unix_nano t) (cron_bursts cfg) (diurnal_base G cfg (hour_of t)))"

subsection \<open>Bursts and quiet phases\<close>

record volume_state =
  multiplier :: f64
  remaining_intervals :: int

text \<open>The end of a branch: the new multiplier, and a duration drawn between two bounds, less one.\<close>

definition enter_phase :: "f64 \<Rightarrow> int \<Rightarrow> int \<Rightarrow> volume_state \<Rightarrow> rng \<Rightarrow> (f64 \<times> volume_state \<times> rng) option" where
  "enter_phase mult lo hi vs r =
     do { (k, r') \<leftarrow> intn (w64 (w64 (hi - lo) + 1)) r;
          Some (mult, \<lparr>multiplier = mult, remaining_intervals = w64 (w64 (lo + k) - 1)\<rparr>, r') }"

definition resolveVolumeMultiplier ::
    "volume_cfg option \<Rightarrow> volume_state \<Rightarrow> rng \<Rightarrow> (f64 \<times> volume_state \<times> rng) option" where
  "resolveVolumeMultiplier v vs r =
     (case v of None \<Rightarrow> Some (Fin 1, vs, r)
      | Some vp \<Rightarrow>
          if 0 < remaining_intervals vs
          then Some (multiplier vs, vs\<lparr>remaining_intervals := remaining_intervals vs - 1\<rparr>, r)
          else
            let (roll, r1) = float64_go r
            in if flt roll (burst_probability vp) then
                 (let (x, r2) = float64_go r1
                  in enter_phase
                       (fadd (burst_multiplier_min vp)
                         (fmul x (fsub (burst_multiplier_max vp) (burst_multiplier_min vp))))
                       (burst_duration_min vp) (burst_duration_max vp) vs r2)
               else if flt roll (fadd (burst_probability vp) (quiet_probability vp)) then
                 enter_phase (quiet_multiplier vp) (quiet_duration_min vp) (quiet_duration_max vp) vs r1
               else Some (Fin 1, vs, r1))"

text \<open>The number of records of an interval, before the instances' shares: at least one.\<close>

definition effective_logs :: "int \<Rightarrow> f64 \<Rightarrow> f64 \<Rightarrow> int" where
  "effective_logs logs diurnal_mult volume_mult =
     (let n = to_i64 (fmul (fmul (of_i64 logs) diurnal_mult) volume_mult)
      in if n < 1 \<and> 0 < logs then 1 else n)"

subsection \<open>Shares of the instances\<close>

definition applyInstanceMultiplier :: "int \<Rightarrow> f64 list option \<Rightarrow> int \<Rightarrow> int option" where
  "applyInstanceMultiplier base_logs multipliers idx =
     (case multipliers of None \<Rightarrow> Some base_logs
      | Some ms \<Rightarrow>
          do { m \<leftarrow> nth_go ms idx;
               let n = to_i64 (fround (fmul (of_i64 base_logs) m));
               Some (if n < 1 \<and> 0 < base_logs then 1 else n) })"

primrec draw_multipliers :: "golib \<Rightarrow> f64 \<Rightarrow> nat \<Rightarrow> f64 \<Rightarrow> rng \<Rightarrow> f64 list \<times> f64 \<times> rng" where
  "draw_multipliers G sigma 0 acc r = ([], acc, r)"
| "draw_multipliers G sigma (Suc n) acc r =
     (let (z, r1) = norm_fn G r;
          m = exp_fn G (fmul sigma z);
          (ms, acc', r2) = draw_multipliers G sigma n (fadd acc m) r1
      in (m # ms, acc', r2))"

definition buildInstanceMultipliers :: "golib \<Rightarrow> int \<Rightarrow> f64 \<Rightarrow> rng \<Rightarrow> (f64 list option \<times> rng) option" where
  "buildInstanceMultipliers G scal sigma r =
     (if feq sigma (Fin 0) \<or> scal = 0 then Some (None, r)
      else if scal < 0 then None
      else let (ms, acc, r') = draw_multipliers G sigma (nat scal) (Fin 0) r;
               mean = fdiv acc (of_i64 scal)
           in Some (Some (map (\<lambda>m. fdiv m mean) ms), r'))"

subsection \<open>The phases of a scenario\<close>

definition durations_i64 :: "volume_cfg \<Rightarrow> bool" where
  "durations_i64 vp \<longleftrightarrow> i64 (burst_duration_min vp) \<and> i64 (burst_duration_max vp) \<and>
     i64 (quiet_duration_min vp) \<and> i64 (quiet_duration_max vp)"

text \<open>What a validated profile guarantees about the durations, NaN or not.\<close>

definition durations_ok :: "volume_cfg \<Rightarrow> bool" where
  "durations_ok vp \<longleftrightarrow>
     (flt (Fin 0) (burst_probability vp) \<longrightarrow> 1 \<le> burst_duration_min vp) \<and>
     burst_duration_min vp \<le> burst_duration_max vp \<and>
     (flt (Fin 0) (quiet_probability vp) \<longrightarrow> 1 \<le> quiet_duration_min vp) \<and>
     quiet_duration_min vp \<le> quiet_duration_max vp"

lemma validated_durations: "validate_volume_profile (Some vp) = None \<Longrightarrow> durations_ok vp"
  by (auto simp: validate_volume_profile_def durations_ok_def split: if_splits)

lemma validated_probability:
  "validate_volume_profile (Some vp) = None \<Longrightarrow> \<not> flt (burst_probability vp) (Fin 0) \<and> \<not> flt (quiet_probability vp) (Fin 0)"
  by (auto simp: validate_volume_profile_def split: if_splits)

lemma enter_phase_yields:
  assumes "1 \<le> lo" "lo \<le> hi" "i64 hi"
    and Q: "\<And>k r'. lo \<le> k \<Longrightarrow> k \<le> hi \<Longrightarrow> Q (mult, \<lparr>multiplier = mult, remaining_intervals = k - 1\<rparr>, r')"
  shows "yields (enter_phase mult lo hi vs r) Q"
proof -
  have w: "w64 (hi - lo) = hi - lo" "w64 (hi - lo + 1) = hi - lo + 1"
    using assms by (auto simp: i64_def intro!: w64_id)
  have k: "w64 (lo + k) = lo + k \<and> w64 (lo + k - 1) = lo + k - 1" if "0 \<le> k" "k < hi - lo + 1" for k
    using assms that by (auto simp: i64_def intro!: w64_id)
  show ?thesis
    unfolding enter_phase_def w yields_bind
    using assms k Q by (intro intn_yields) auto
qed

text \<open>A roll of \<open>Float64\<close> is below a sum of probabilities only if one of them is positive.\<close>

lemma roll_positive:
  assumes "flt (fst (float64_go r)) a" shows "flt (Fin 0) a"
  using float64_range' [of r] assms by (cases a) auto

lemma roll_sum_positive:
  assumes "\<not> flt (fst (float64_go r)) a" "flt (fst (float64_go r)) (fadd a b)"
    and "\<not> flt a (Fin 0)" "\<not> flt b (Fin 0)" "f64_ok a"
  shows "flt (Fin 0) b"
proof -
  obtain x where x: "fst (float64_go r) = Fin x" using float64_range' [of r] by auto
  have a: "\<not> flt (Fin x) a" and ab: "flt (Fin x) (fadd a b)" using assms(1,2) x by simp_all
  show ?thesis
  proof (cases b)
    case (Fin y)
    have "y \<noteq> 0"
    proof
      assume "y = 0"
      with a ab assms(5) Fin show False by (cases a) simp_all
    qed
    with Fin assms(4) show ?thesis by simp
  next
    case NaN
    then show ?thesis using ab by (cases a) simp_all
  qed (use assms(4) in simp_all)
qed

text \<open>The new phase when the current one is over, by the branch the roll takes.\<close>

definition new_phase :: "volume_cfg \<Rightarrow> f64 \<Rightarrow> int \<Rightarrow> bool" where
  "new_phase vp m k \<longleftrightarrow>
     (\<exists>x. 0 \<le> x \<and> x < 1 \<and>
        m = fadd (burst_multiplier_min vp)
              (fmul (Fin x) (fsub (burst_multiplier_max vp) (burst_multiplier_min vp)))) \<and>
       flt (Fin 0) (burst_probability vp) \<and> burst_duration_min vp \<le> k \<and> k \<le> burst_duration_max vp \<or>
     m = quiet_multiplier vp \<and> flt (Fin 0) (quiet_probability vp) \<and>
       quiet_duration_min vp \<le> k \<and> k \<le> quiet_duration_max vp"

definition roll_ok :: "volume_cfg \<Rightarrow> bool" where
  "roll_ok vp \<longleftrightarrow> validate_volume_profile (Some vp) = None \<and> durations_i64 vp \<and> f64_ok (burst_probability vp)"

lemma resolve_idle:
  assumes "roll_ok vp" and "remaining_intervals vs \<le> 0"
  shows "yields (resolveVolumeMultiplier (Some vp) vs r)
    (\<lambda>(m, vs', r'). m = Fin 1 \<and> vs' = vs \<or>
       (\<exists>k \<ge> 1. new_phase vp m k \<and> vs' = \<lparr>multiplier = m, remaining_intervals = k - 1\<rparr>))"
proof -
  let ?b = "burst_probability vp" and ?q = "quiet_probability vp"
  let ?roll = "fst (float64_go r)" and ?r1 = "snd (float64_go r)"
  note d = validated_durations [of vp] validated_probability [of vp]
  consider "flt ?roll ?b" | "\<not> flt ?roll ?b" "flt ?roll (fadd ?b ?q)"
    | "\<not> flt ?roll ?b" "\<not> flt ?roll (fadd ?b ?q)" by blast
  then show ?thesis
  proof cases
    case 1
    then have "flt (Fin 0) ?b" by (rule roll_positive)
    moreover obtain x where "fst (float64_go ?r1) = Fin x" "0 \<le> x" "x < 1" using float64_range' [of ?r1] by auto
    ultimately show ?thesis
      using 1 assms d
      by (auto simp: resolveVolumeMultiplier_def split_beta Let_def roll_ok_def durations_ok_def durations_i64_def
          new_phase_def intro!: enter_phase_yields)
  next
    case 2
    then have "flt (Fin 0) ?q" using assms(1) d by (intro roll_sum_positive [of r ?b ?q]) (auto simp: roll_ok_def)
    with 2 assms d show ?thesis
      by (auto simp: resolveVolumeMultiplier_def split_beta Let_def roll_ok_def durations_ok_def durations_i64_def
          new_phase_def intro!: enter_phase_yields)
  next
    case 3
    with assms show ?thesis by (auto simp: resolveVolumeMultiplier_def split_beta Let_def)
  qed
qed

text \<open>The multipliers of \<open>n\<close> consecutive intervals.\<close>

definition resolve_intervals ::
    "nat \<Rightarrow> volume_cfg option \<Rightarrow> volume_state \<Rightarrow> rng \<Rightarrow> (f64 list \<times> volume_state \<times> rng) option" where
  "resolve_intervals n v vs r =
     repeat_go n (\<lambda>(vs, r). resolveVolumeMultiplier v vs r) (vs, r)"

lemma resolve_phase:
  "remaining_intervals vs = int n \<Longrightarrow>
   resolve_intervals n (Some vp) vs r = Some (replicate n (multiplier vs), vs\<lparr>remaining_intervals := 0\<rparr>, r)"
  by (induction n arbitrary: vs) (simp_all add: resolve_intervals_def resolveVolumeMultiplier_def)

text \<open>
  C16. The burst and quiet phases of a validated profile. Resolving the multiplier never
  panics. When no phase is running, an interval either keeps the multiplier 1 and the state, or
  starts a phase: then the following \<open>k - 1\<close> intervals reuse its multiplier without drawing
  from the generator, \<open>k\<close> lies within the configured durations, and after them no phase runs.
\<close>

theorem volume_phases:
  assumes "validate_volume_profile (Some vp) = None" and "durations_i64 vp" and "f64_ok (burst_probability vp)"
    and "remaining_intervals vs = 0"
  shows "\<exists>m vs' r'. resolveVolumeMultiplier (Some vp) vs r = Some (m, vs', r') \<and>
    (m = Fin 1 \<and> vs' = vs \<or>
     (\<exists>k \<ge> 1. new_phase vp m k \<and>
        resolve_intervals (nat (k - 1)) (Some vp) vs' r' =
          Some (replicate (nat (k - 1)) m, \<lparr>multiplier = m, remaining_intervals = 0\<rparr>, r')))"
proof -
  have "yields (resolveVolumeMultiplier (Some vp) vs r)
    (\<lambda>(m, vs', r'). m = Fin 1 \<and> vs' = vs \<or>
       (\<exists>k \<ge> 1. new_phase vp m k \<and> vs' = \<lparr>multiplier = m, remaining_intervals = k - 1\<rparr>))"
    using assms by (intro resolve_idle) (simp_all add: roll_ok_def)
  then obtain m vs' r' where r: "resolveVolumeMultiplier (Some vp) vs r = Some (m, vs', r')"
    and c: "m = Fin 1 \<and> vs' = vs \<or>
       (\<exists>k \<ge> 1. new_phase vp m k \<and> vs' = \<lparr>multiplier = m, remaining_intervals = k - 1\<rparr>)"
    by (auto simp: yields_ex)
  have "resolve_intervals (nat (k - 1)) (Some vp) \<lparr>multiplier = m, remaining_intervals = k - 1\<rparr> r' =
      Some (replicate (nat (k - 1)) m, \<lparr>multiplier = m, remaining_intervals = 0\<rparr>, r')" if "1 \<le> k" for k
    using resolve_phase [of "\<lparr>multiplier = m, remaining_intervals = k - 1\<rparr>" "nat (k - 1)" vp r'] that by simp
  with r c show ?thesis by blast
qed

definition sample_volume :: volume_cfg where
  "sample_volume =
     \<lparr>burst_probability = Fin 1, burst_multiplier_min = Fin 2, burst_multiplier_max = Fin 6,
      burst_duration_min = 3, burst_duration_max = 3, quiet_probability = Fin 0,
      quiet_multiplier = Fin 0, quiet_duration_min = 0, quiet_duration_max = 0\<rparr>"

lemma volume_phases_witness:
  "\<exists>m vs' r'. resolveVolumeMultiplier (Some sample_volume) \<lparr>multiplier = Fin 0, remaining_intervals = 0\<rparr>
       (new_rng [0, 0]) = Some (m, vs', r') \<and> (m = Fin 1 \<or> (\<exists>k \<ge> 1. new_phase sample_volume m k))"
  using volume_phases [of sample_volume "\<lparr>multiplier = Fin 0, remaining_intervals = 0\<rparr>" "new_rng [0, 0]"]
  by (auto simp: sample_volume_def validate_volume_profile_def durations_i64_def i64_def)

text \<open>With finite numbers a multiplier is 1, the quiet one, or in the burst range.\<close>

definition volume_finite :: "volume_cfg \<Rightarrow> bool" where
  "volume_finite vp \<longleftrightarrow> (\<exists>a b. burst_multiplier_min vp = Fin a \<and> burst_multiplier_max vp = Fin b \<and>
     rnd a = Fin a \<and> rnd b = Fin b) \<and> quiet_multiplier vp \<noteq> NaN"

definition volume_range :: "volume_cfg \<Rightarrow> f64 \<Rightarrow> bool" where
  "volume_range vp m \<longleftrightarrow> m = Fin 1 \<or> m = quiet_multiplier vp \<or>
     fle (burst_multiplier_min vp) m \<and>
     fle m (fadd (burst_multiplier_min vp) (fsub (burst_multiplier_max vp) (burst_multiplier_min vp)))"

lemma burst_range:
  assumes "0 \<le> x" "x < 1" "a \<le> b" "rnd a = Fin a" "rnd b = Fin b" "0 \<le> a"
  shows "fle (Fin a) (fadd (Fin a) (fmul (Fin x) (fsub (Fin b) (Fin a)))) \<and>
    fle (fadd (Fin a) (fmul (Fin x) (fsub (Fin b) (Fin a)))) (fadd (Fin a) (fsub (Fin b) (Fin a)))"
proof -
  have "nonneg (rnd (b - a))" and "fle (rnd (b - a)) (Fin b)"
    using assms nonneg_rnd [of "b - a"] rnd_le [of "b - a" b] by simp_all
  then obtain d where d: "rnd (b - a) = Fin d" "0 \<le> d" by (cases "rnd (b - a)") auto
  then have idem: "rnd d = Fin d" using rnd_idem by blast
  have sub: "fsub (Fin b) (Fin a) = Fin d" using d by (simp add: fsub_def)
  have "x * d \<le> d" and "0 \<le> x * d" using assms d mult_right_mono [of x 1 d] by simp_all
  then have "fle (rnd (x * d)) (Fin d)" and "nonneg (rnd (x * d))"
    using rnd_le [OF _ idem] nonneg_rnd by simp_all
  then show ?thesis
    unfolding sub using assms fadd_ge [of "rnd (x * d)" "Fin a"] fadd_mono_right [of "rnd (x * d)" "Fin d" a]
    by simp
qed

lemma new_phase_range: "volume_finite vp \<Longrightarrow> validate_volume_profile (Some vp) = None \<Longrightarrow> new_phase vp m k \<Longrightarrow> volume_range vp m"
  using burst_range
  by (fastforce simp: new_phase_def volume_range_def volume_finite_def validate_volume_profile_def split: if_splits)

lemma volume_range_1 [simp]: "volume_range vp (Fin 1)"
  by (simp add: volume_range_def)

text \<open>The invariant of \<open>volumeState\<close>: a running phase has a multiplier in range.\<close>

definition volume_inv :: "volume_cfg \<Rightarrow> volume_state \<Rightarrow> bool" where
  "volume_inv vp vs \<longleftrightarrow> 0 \<le> remaining_intervals vs \<and> (0 < remaining_intervals vs \<longrightarrow> volume_range vp (multiplier vs))"

lemma volume_inv_step:
  assumes "roll_ok vp" "volume_finite vp" "volume_inv vp vs"
  shows "yields (resolveVolumeMultiplier (Some vp) vs r) (\<lambda>(m, vs', r'). volume_range vp m \<and> volume_inv vp vs')"
proof (cases "0 < remaining_intervals vs")
  case True
  with assms show ?thesis by (simp add: resolveVolumeMultiplier_def volume_inv_def)
next
  case False
  then have i: "remaining_intervals vs \<le> 0" by simp
  show ?thesis
    using assms new_phase_range [of vp] by (intro yields_mono [OF resolve_idle [OF assms(1) i]])
      (auto simp: volume_inv_def roll_ok_def)
qed

text \<open>
  C17. Over any number of intervals, starting from the initial state, the multipliers of a
  validated profile with finite numbers are all 1, the quiet multiplier, or between the
  smallest burst multiplier and the value the code's formula takes at the end of the range.
\<close>

theorem volume_multipliers_in_range:
  assumes "validate_volume_profile (Some vp) = None" and "durations_i64 vp" and "f64_ok (burst_probability vp)"
    and "volume_finite vp"
  shows "\<exists>ms vs' r'. resolve_intervals n (Some vp) \<lparr>multiplier = Fin 0, remaining_intervals = 0\<rparr> r = Some (ms, vs', r') \<and>
    length ms = n \<and> (\<forall>m \<in> set ms. volume_range vp m)"
proof -
  have ok: "roll_ok vp" using assms by (simp add: roll_ok_def)
  have "yields (resolve_intervals n (Some vp) vs r) (\<lambda>(ms, vs', r'). length ms = n \<and> (\<forall>m \<in> set ms. volume_range vp m))"
    if "volume_inv vp vs" for vs
    using that
  proof (induction n arbitrary: vs r)
    case (Suc n)
    show ?case
      using Suc.IH
      by (auto simp: resolve_intervals_def intro!: yields_mono [OF volume_inv_step [OF ok assms(4) Suc.prems]]
          elim!: yields_mono)
  qed (simp add: resolve_intervals_def)
  from this [of "\<lparr>multiplier = Fin 0, remaining_intervals = 0\<rparr>"] show ?thesis
    by (auto simp: yields_ex volume_inv_def)
qed

lemma volume_multipliers_in_range_witness:
  "\<exists>ms vs' r'. resolve_intervals 4 (Some sample_volume) \<lparr>multiplier = Fin 0, remaining_intervals = 0\<rparr> (new_rng [0, 0]) =
     Some (ms, vs', r') \<and> length ms = 4"
proof -
  have "rnd 2 = Fin 2" "rnd 6 = Fin 6" using rnd_int [of 2] rnd_int [of 6] by simp_all
  then show ?thesis
    using volume_multipliers_in_range [of sample_volume 4 "new_rng [0, 0]"]
    by (auto simp: sample_volume_def validate_volume_profile_def durations_i64_def i64_def volume_finite_def)
qed

subsection \<open>The daily curve: bursts and bounds\<close>

text \<open>The bursts active at an instant, as the loop reads them: \<open>mod\<close> is below the duration.\<close>

definition cron_active :: "int \<Rightarrow> cron_burst_cfg \<Rightarrow> bool" where
  "cron_active base_unix cb \<longleftrightarrow> base_unix mod cron_interval cb < cron_duration cb"

lemma cron_mod_eq:
  assumes "0 < cron_interval cb" "i64 (cron_interval cb)"
  shows "cron_mod u cb = Some (u mod cron_interval cb)"
proof -
  let ?c = "cron_interval cb"
  show ?thesis
  proof (cases "0 \<le> u")
    case True
    moreover have "\<not> u mod ?c < 0" using assms(1) pos_mod_sign [of ?c u] by linarith
    ultimately show ?thesis using assms by (simp add: cron_mod_def)
  next
    case False
    have m: "(- u) mod ?c < ?c" "0 \<le> (- u) mod ?c" using assms by simp_all
    then have w: "w64 (?c - (- u) mod ?c) = ?c - (- u) mod ?c"
      using assms unfolding i64_def by (intro w64_id) linarith+
    have "rem_go u ?c = - ((- u) mod ?c)" using False assms by (simp add: rem_go_def)
    moreover have "u mod ?c = (if (- u) mod ?c = 0 then 0 else ?c - (- u) mod ?c)"
      using zmod_zminus1_eq_if [of "- u" ?c] by simp
    moreover have "(- u) mod ?c = 0 \<or> 0 < (- u) mod ?c" using m(2) by linarith
    ultimately show ?thesis using m w assms by (auto simp: cron_mod_def Let_def)
  qed
qed

lemma cron_max_spec:
  assumes "\<forall>cb \<in> set cbs. 0 < cron_interval cb \<and> i64 (cron_interval cb)" and "m0 \<noteq> NaN"
  shows "\<exists>m. cron_max u cbs m0 = Some m \<and> fle m0 m \<and>
    (\<forall>cb \<in> set cbs. cron_active u cb \<and> cron_multiplier cb \<noteq> NaN \<longrightarrow> fle (cron_multiplier cb) m) \<and>
    (m = m0 \<or> (\<exists>cb \<in> set cbs. cron_active u cb \<and> m = cron_multiplier cb))"
  using assms
proof (induction cbs arbitrary: m0)
  case Nil
  then show ?case by (simp add: fle_refl)
next
  case (Cons cb cbs)
  let ?m1 = "if cron_active u cb \<and> flt m0 (cron_multiplier cb) then cron_multiplier cb else m0"
  have step: "cron_max u (cb # cbs) m0 = cron_max u cbs ?m1"
    using Cons.prems by (simp add: cron_mod_eq cron_active_def)
  have n: "?m1 \<noteq> NaN" and le: "fle m0 ?m1"
    using Cons.prems(2) by (cases m0; cases "cron_multiplier cb"; simp)+
  have c: "fle (cron_multiplier cb) ?m1" if "cron_active u cb" "cron_multiplier cb \<noteq> NaN"
    using that Cons.prems(2) not_flt [of m0 "cron_multiplier cb"] by (auto simp: fle_refl)
  obtain m where m: "cron_max u cbs ?m1 = Some m" "fle ?m1 m"
    "\<forall>cb \<in> set cbs. cron_active u cb \<and> cron_multiplier cb \<noteq> NaN \<longrightarrow> fle (cron_multiplier cb) m"
    "m = ?m1 \<or> (\<exists>cb \<in> set cbs. cron_active u cb \<and> m = cron_multiplier cb)"
    using Cons.IH [OF _ n] Cons.prems(1) by auto
  have "fle m0 m" using le m(2) fle_trans by blast
  moreover have "fle (cron_multiplier cb) m" if "cron_active u cb" "cron_multiplier cb \<noteq> NaN"
    using c [OF that] m(2) fle_trans by blast
  moreover have "m = m0 \<or> (\<exists>cb' \<in> set (cb # cbs). cron_active u cb' \<and> m = cron_multiplier cb')"
    using m(4) by (auto split: if_splits)
  ultimately show ?case using m(1,3) step by auto
qed

lemma of_i64_hour: "0 \<le> n \<Longrightarrow> n \<le> 24 \<Longrightarrow> of_i64 n = Fin (of_int n)"
  by (rule of_i64_small) simp

lemma rem_hours: "0 \<le> a \<Longrightarrow> a < 24 \<Longrightarrow> 0 \<le> b \<Longrightarrow> b < 24 \<Longrightarrow> rem_go (a - b + 24) 24 = (a - b) mod 24"
  by simp

lemma mod_diff_nonzero:
  "0 \<le> a \<Longrightarrow> a < 24 \<Longrightarrow> 0 \<le> b \<Longrightarrow> b < 24 \<Longrightarrow> a \<noteq> b \<Longrightarrow> (a - b) mod 24 \<noteq> (0 :: int)"
  by presburger

lemma rnd_small:
  assumes "0 \<le> x" "x \<le> 128" shows "\<exists>y. rnd x = Fin y \<and> 0 \<le> y \<and> y \<le> 128"
proof -
  have "rnd 128 = Fin 128" using rnd_int [of 128] by simp
  then have "fle (rnd x) (Fin 128)" and "nonneg (rnd x)" using assms rnd_le nonneg_rnd by simp_all
  then show ?thesis by (cases "rnd x") auto
qed

lemma pi_fraction:
  assumes "0 \<le> a" "a \<le> 24" "1 \<le> b" "b \<le> 24"
  shows "\<exists>y. fdiv (fmul (Fin pi64) (of_i64 a)) (of_i64 b) = Fin y \<and> 0 \<le> y \<and> y \<le> 128"
proof -
  have "pi64 * of_int a \<le> 4 * 24" using assms by (intro mult_mono) (simp_all add: pi64_def)
  moreover have "0 \<le> pi64 * of_int a" using assms by (simp add: pi64_def)
  ultimately obtain x where x: "rnd (pi64 * of_int a) = Fin x" "0 \<le> x" "x \<le> 128"
    using rnd_small [of "pi64 * of_int a"] by auto
  have "x / of_int b \<le> x / 1" using x assms by (intro divide_left_mono) simp_all
  then obtain y where y: "rnd (x / of_int b) = Fin y" "0 \<le> y" "y \<le> 128"
    using x assms rnd_small [of "x / of_int b"] by auto
  then show ?thesis using x assms by (simp add: of_i64_hour)
qed

lemma angle_finite:
  assumes "0 \<le> phase" "phase < 24" "1 \<le> tp" "tp < 24"
  shows "\<exists>y. diurnal_angle phase tp = Fin y"
proof (cases "phase \<le> tp")
  case True
  with assms pi_fraction [of phase tp] show ?thesis by (auto simp: diurnal_angle_def)
next
  case False
  then obtain y where y: "fdiv (fmul (Fin pi64) (of_i64 (phase - tp))) (of_i64 (24 - tp)) = Fin y" "0 \<le> y" "y \<le> 128"
    using assms pi_fraction [of "phase - tp" "24 - tp"] by auto
  have "rnd 256 = Fin 256" using rnd_int [of 256] by simp
  then have "fle (rnd (pi64 + y)) (Fin 256)" and "nonneg (rnd (pi64 + y))"
    using y rnd_le [of "pi64 + y" 256] nonneg_rnd [of "pi64 + y"] by (simp_all add: pi64_def)
  with y False show ?thesis by (cases "rnd (pi64 + y)") (auto simp: diurnal_angle_def)
qed

lemma fdiv2_mono: "fle a b \<Longrightarrow> fle (fdiv a (Fin 2)) (fdiv b (Fin 2))"
  using NInf_fle fle_PInf by (cases a; cases b) (simp_all add: rnd_mono divide_right_mono finf_def)

text \<open>The value of the curve's formula where the cosine is 1, at the peak hour.\<close>

definition curve_top :: "diurnal_cfg \<Rightarrow> f64" where
  "curve_top cfg = fadd (trough_multiplier cfg)
     (fdiv (fmul (fsub (peak_multiplier cfg) (trough_multiplier cfg)) (Fin 2)) (Fin 2))"

text \<open>Both multipliers are finite \<open>float64\<close> values.\<close>

definition curve_finite :: "diurnal_cfg \<Rightarrow> bool" where
  "curve_finite cfg \<longleftrightarrow> (\<exists>t p. trough_multiplier cfg = Fin t \<and> peak_multiplier cfg = Fin p \<and>
     rnd t = Fin t \<and> rnd p = Fin p)"

lemma curve_bounds:
  assumes ready: "diurnal_ready cfg" and fin: "curve_finite cfg" and G: "cos_ok G"
    and ord: "fle (trough_multiplier cfg) (peak_multiplier cfg)"
  shows "fle (trough_multiplier cfg) (diurnal_base G cfg (hour_of tm)) \<and> fle (diurnal_base G cfg (hour_of tm)) (curve_top cfg)"
proof -
  obtain t p where tp: "trough_multiplier cfg = Fin t" "peak_multiplier cfg = Fin p" "t \<le> p" "rnd t = Fin t" "rnd p = Fin p"
    using fin ord by (auto simp: curve_finite_def)
  have pos: "0 < t" "0 < p" using ready tp by (auto simp: diurnal_ready_def)
  define ph where "ph = rem_go (hour_of tm - peak_hour cfg + 24) 24"
  define th where "th = rem_go (trough_hour cfg - peak_hour cfg + 24) 24"
  have hours: "0 \<le> peak_hour cfg" "peak_hour cfg < 24" "0 \<le> trough_hour cfg" "trough_hour cfg < 24"
    "peak_hour cfg \<noteq> trough_hour cfg" using ready by (auto simp: diurnal_ready_def)
  have "0 \<le> ph" "ph < 24" using hour_of_range [of tm] hours by (simp_all add: ph_def rem_hours)
  moreover have "0 \<le> th" "th < 24" "th \<noteq> 0"
    using hours mod_diff_nonzero [of "trough_hour cfg" "peak_hour cfg"] by (simp_all add: th_def rem_hours)
  ultimately obtain a where "diurnal_angle ph th = Fin a" using angle_finite [of ph th] by auto
  then obtain c where c: "cos_fn G (diurnal_angle ph th) = Fin c" "- 1 \<le> c" "c \<le> 1"
    using G by (auto simp: cos_ok_def)
  have two: "rnd 2 = Fin 2" using rnd_int [of 2] by simp
  have "nonneg (rnd (c + 1))" and "fle (rnd (c + 1)) (Fin 2)" using c two by (auto intro: nonneg_rnd rnd_le)
  then obtain s where s: "rnd (c + 1) = Fin s" "0 \<le> s" "s \<le> 2" by (cases "rnd (c + 1)") auto
  have "nonneg (rnd (p - t))" and "fle (rnd (p - t)) (Fin p)"
    using tp pos nonneg_rnd [of "p - t"] rnd_le [of "p - t" p] by simp_all
  then obtain d where d: "rnd (p - t) = Fin d" "0 \<le> d" by (cases "rnd (p - t)") auto
  have base: "diurnal_base G cfg (hour_of tm) = fadd (Fin t) (fdiv (rnd (d * s)) (Fin 2))"
    using tp pos c s d by (simp add: diurnal_base_def Let_def ph_def [symmetric] th_def [symmetric] fsub_def)
  have top: "curve_top cfg = fadd (Fin t) (fdiv (rnd (d * 2)) (Fin 2))"
    using tp d by (simp add: curve_top_def fsub_def)
  have "fle (rnd (d * s)) (rnd (d * 2))" using d s by (intro rnd_mono mult_left_mono) simp_all
  moreover have "nonneg (fdiv (rnd (d * s)) (Fin 2))"
    using d s fdiv2_mono [of "Fin 0" "rnd (d * s)"] nonneg_rnd [of "d * s"] by simp
  ultimately show ?thesis
    unfolding base top tp using tp fdiv2_mono fadd_mono_right fadd_ge [of "fdiv (rnd (d * s)) (Fin 2)" "Fin t"] by simp
qed

text \<open>
  C18. The daily curve. For a valid diurnal profile with finite multipliers, after its defaults
  and with a trough multiplier that is at most the peak multiplier (the validation does not
  demand it), the multiplier at any instant exists, is at least the trough multiplier and at
  least that of every burst active at the instant, and is either at most the top of the curve
  or the multiplier of an active burst.
\<close>

theorem diurnal_multiplier_bounds:
  assumes "validate_diurnal_profile (Some dp) = None" and "apply_diurnal_defaults (Some dp) = Some cfg"
    and "\<forall>cb \<in> set (cron_bursts cfg). i64 (cron_interval cb) \<and> cron_multiplier cb \<noteq> NaN"
    and "curve_finite cfg" and "fle (trough_multiplier cfg) (peak_multiplier cfg)" and "cos_ok G"
  shows "\<exists>m. diurnalMultiplier G t (Some cfg) = Some m \<and> fle (trough_multiplier cfg) m \<and>
    (\<forall>cb \<in> set (cron_bursts cfg). cron_active (unix_nano t) cb \<longrightarrow> fle (cron_multiplier cb) m) \<and>
    (fle m (curve_top cfg) \<or>
     (\<exists>cb \<in> set (cron_bursts cfg). cron_active (unix_nano t) cb \<and> m = cron_multiplier cb))"
proof -
  have ready: "diurnal_ready cfg" using assms(1,2) by (rule ready_after_defaults)
  then have "validate_cron_bursts 0 (cron_bursts cfg) = None" by (simp add: diurnal_ready_def)
  then have "\<forall>cb \<in> set (cron_bursts cfg). 0 < cron_interval cb"
    using assms(3) validate_cron_iff [of "cron_bursts cfg" 0] by (auto simp: cron_ok_def)
  with assms(3) have cbs: "\<forall>cb \<in> set (cron_bursts cfg). 0 < cron_interval cb \<and> i64 (cron_interval cb)" by blast
  let ?b = "diurnal_base G cfg (hour_of t)"
  have b: "fle (trough_multiplier cfg) ?b" "fle ?b (curve_top cfg)"
    using curve_bounds [OF ready assms(4,6,5)] by blast+
  then have n: "?b \<noteq> NaN" using fle_not_NaN by blast
  obtain m where m: "cron_max (unix_nano t) (cron_bursts cfg) ?b = Some m" "fle ?b m"
    "\<forall>cb \<in> set (cron_bursts cfg). cron_active (unix_nano t) cb \<and> cron_multiplier cb \<noteq> NaN \<longrightarrow> fle (cron_multiplier cb) m"
    "m = ?b \<or> (\<exists>cb \<in> set (cron_bursts cfg). cron_active (unix_nano t) cb \<and> m = cron_multiplier cb)"
    using cron_max_spec [OF cbs n, of "unix_nano t"] by blast
  have "diurnalMultiplier G t (Some cfg) = Some m" using m(1) by (simp add: diurnalMultiplier_def)
  moreover have "fle (trough_multiplier cfg) m" using b(1) m(2) fle_trans by blast
  moreover have "\<forall>cb \<in> set (cron_bursts cfg). cron_active (unix_nano t) cb \<longrightarrow> fle (cron_multiplier cb) m"
    using m(3) assms(3) by blast
  ultimately show ?thesis using m(4) b(2) by blast
qed

lemma diurnal_multiplier_bounds_witness:
  "\<exists>m. diurnalMultiplier sample_lib zero_time (Some \<lparr>peak_hour = 14, trough_hour = 4, peak_multiplier = Fin 3,
       trough_multiplier = Fin 1, cron_bursts = [\<lparr>cron_interval = 10, cron_multiplier = Fin 9, cron_duration = 5\<rparr>]\<rparr>) =
     Some m \<and> fle (Fin 1) m"
proof -
  let ?dp = "\<lparr>peak_hour = 14, trough_hour = 4, peak_multiplier = Fin 3, trough_multiplier = Fin 1,
    cron_bursts = [\<lparr>cron_interval = 10, cron_multiplier = Fin 9, cron_duration = 5\<rparr>]\<rparr>"
  have "validate_diurnal_profile (Some ?dp) = None" "apply_diurnal_defaults (Some ?dp) = Some ?dp"
    by (simp_all add: validate_diurnal_profile_def apply_diurnal_defaults_def default_hours_def)
  moreover have "rnd 3 = Fin 3" using rnd_int [of 3] by simp
  ultimately show ?thesis
    using diurnal_multiplier_bounds [of ?dp ?dp sample_lib zero_time] sample_lib_ok
    by (auto simp: curve_finite_def i64_def)
qed

text \<open>
  Without that order the curve is upside down: a valid profile whose trough multiplier is 3 and
  whose peak multiplier is 1 produces its most records at the trough hour, and at the peak hour
  fewer than the trough multiplier asks for.
\<close>

lemma inverted_curve_accepted:
  "validate_diurnal_profile (Some \<lparr>peak_hour = 0, trough_hour = 12, peak_multiplier = Fin 1,
     trough_multiplier = Fin 3, cron_bursts = []\<rparr>) = None \<and>
   diurnal_base (sample_lib\<lparr>cos_fn := \<lambda>a. if feq a (Fin 0) then Fin 1 else Fin (- 1)\<rparr>)
     \<lparr>peak_hour = 0, trough_hour = 12, peak_multiplier = Fin 1, trough_multiplier = Fin 3, cron_bursts = []\<rparr> 0 = Fin 1"
proof -
  have "rnd 2 = Fin 2" "rnd (- 2) = Fin (- 2)" "rnd (- 4) = Fin (- 4)" "rnd 1 = Fin 1" "rnd 0 = Fin 0" "rnd 12 = Fin 12"
    using rnd_int [of 2] rnd_int [of "- 2"] rnd_int [of "- 4"] rnd_int [of 1] rnd_int [of 0] rnd_int [of 12] by simp_all
  then show ?thesis
    by (simp add: validate_diurnal_profile_def default_hours_def diurnal_base_def diurnal_angle_def of_i64_def
        fsub_def)
qed

subsection \<open>Records per instance\<close>

lemma draw_multipliers_length: "length (fst (draw_multipliers G sigma n acc r)) = n"
  by (induction n arbitrary: acc r) (simp_all add: split_beta Let_def)

lemma build_multipliers_yields:
  "0 \<le> n \<Longrightarrow> yields (buildInstanceMultipliers G n sigma r)
     (\<lambda>(ms, _). pred_option (\<lambda>xs. int (length xs) = n) ms)"
  using draw_multipliers_length [of G sigma "nat n"]
  by (auto simp: buildInstanceMultipliers_def Let_def split_beta)

lemma effective_logs_pos: "0 < logs \<Longrightarrow> 1 \<le> effective_logs logs d v"
  by (simp add: effective_logs_def Let_def)

lemma apply_multiplier_yields:
  assumes "pred_option (\<lambda>xs. int (length xs) = n) ms" "0 \<le> i" "i < n" "0 < base"
  shows "yields (applyInstanceMultiplier base ms i) (\<lambda>k. 1 \<le> k)"
  using assms by (auto simp: applyInstanceMultiplier_def Let_def split: option.splits intro!: nth_go_yields)

text \<open>
  Every instance of a scenario that is to log produces at least one record in every
  interval, whatever the daily curve, the phase and the instance's share are: the share exists
  for every instance, and rounding down to nothing is undone.
\<close>

theorem instance_records_positive:
  assumes "buildInstanceMultipliers G n sigma r = Some (ms, r')" and "0 \<le> i" "i < n" and "0 < logs"
  shows "\<exists>k. applyInstanceMultiplier (effective_logs logs d v) ms i = Some k \<and> 1 \<le> k"
proof -
  have "pred_option (\<lambda>xs. int (length xs) = n) ms"
    using build_multipliers_yields [of n G sigma r] assms by simp
  then show ?thesis
    using apply_multiplier_yields [of n ms i "effective_logs logs d v"] effective_logs_pos [of logs d v] assms
    by (simp add: yields_ex)
qed

lemma instance_records_positive_witness:
  "\<exists>ms r' k. buildInstanceMultipliers sample_lib 3 (Fin 2) (new_rng []) = Some (ms, r') \<and>
     applyInstanceMultiplier (effective_logs 10 (Fin 1) (Fin 0)) ms 1 = Some k \<and> 1 \<le> k"
proof -
  obtain ms r' where b: "buildInstanceMultipliers sample_lib 3 (Fin 2) (new_rng []) = Some (ms, r')"
    using build_multipliers_yields [of 3 sample_lib "Fin 2" "new_rng []"] by (auto simp: yields_ex)
  show ?thesis
    using instance_records_positive [OF b, of 1 10] b by auto
qed

end
