(* ===== verification/IPPool.thy ===== *)
theory IPPool
  imports Config
begin

text \<open>
  The pools of client addresses (\<open>buildIPPool\<close> in \<open>internal/loggen/loggen.go\<close>): the IPv4
  ranges of the configured networks, and addresses drawn from them.
\<close>

type_synonym cidr_range = "32 word \<times> 32 word"

text \<open>One round of the first loop: networks that do not parse or are not IPv4 are skipped.\<close>

definition cidr_range_of :: "golib \<Rightarrow> string \<Rightarrow> cidr_range list" where
  "cidr_range_of G c =
     (case parse_cidr G c of None \<Rightarrow> []
      | Some (ip, m) \<Rightarrow>
          (case to4 ip of None \<Rightarrow> []
           | Some ip4 \<Rightarrow> [(word_of_bytes ip4, NOT (word_of_bytes m))]))"

definition cidr_ranges :: "golib \<Rightarrow> string list \<Rightarrow> cidr_range list" where
  "cidr_ranges G cidrs =
     (let ranges = concat (map (cidr_range_of G) cidrs)
      in if ranges = [] then [(0x0A000000, 0x00FFFFFF)] else ranges)"

definition random_ip :: "cidr_range list \<Rightarrow> rng \<Rightarrow> (string \<times> rng) option" where
  "random_ip ranges r =
     do { ((base, host_max), r1) \<leftarrow> pick ranges r;
          (h, r2) \<leftarrow> int63n (uint host_max) r1;
          let host = word_of_int h + 1;
          Some (ip_string (base OR host), r2) }"

definition buildIPPool :: "golib \<Rightarrow> rng \<Rightarrow> string list \<Rightarrow> int \<Rightarrow> (string list \<times> rng) option" where
  "buildIPPool G r cidrs pool_size =
     (if pool_size < 0 then None else repeat_go (nat pool_size) (random_ip (cidr_ranges G cidrs)) r)"

subsection \<open>Every address lies in a configured network\<close>

text \<open>A network with room for hosts: at most 31 bits of prefix.\<close>

definition host_range :: "cidr_range \<Rightarrow> bool" where
  "host_range rg \<longleftrightarrow> (\<exists>n \<le> 31. fst rg AND cidr_mask n = fst rg \<and> snd rg = NOT (cidr_mask n))"

definition in_range :: "cidr_range \<Rightarrow> 32 word \<Rightarrow> bool" where
  "in_range rg a \<longleftrightarrow> a AND NOT (snd rg) = fst rg \<and> a \<noteq> fst rg"

lemma host_range_room: "host_range rg \<Longrightarrow> 0 < uint (snd rg)"
  using not_cidr_mask by (auto simp: host_range_def)

lemma host_drawn:
  assumes "host_range rg" "0 \<le> h" "h < uint (snd rg)"
  shows "in_range rg (fst rg OR (word_of_int h + 1))"
proof -
  obtain n where n: "n \<le> 31" "fst rg AND cidr_mask n = fst rg" "snd rg = NOT (cidr_mask n)"
    using assms(1) by (auto simp: host_range_def)
  have "uint (snd rg) < 2 ^ 32" using uint_lt2p [of "snd rg"] by simp
  then have u: "uint (word_of_int h + 1 :: 32 word) = h + 1"
    using assms(2,3) by (simp add: uint_word_ariths word_of_int_inverse uint_word_of_int)
  then show ?thesis
    using host_in_network [of n "fst rg" "word_of_int h + 1"] n assms by (simp add: in_range_def)
qed

lemma random_ip_yields:
  assumes "ranges \<noteq> []" and "\<forall>rg \<in> set ranges. host_range rg"
  shows "yields (random_ip ranges r) (\<lambda>(s, _). \<exists>rg \<in> set ranges. \<exists>a. s = ip_string a \<and> in_range rg a)"
proof -
  have step: "yields (int63n (uint (snd rg)) r1)
      (\<lambda>x. \<exists>rg' \<in> set ranges. \<exists>a. ip_string (fst rg OR word_of_int (fst x) + 1) = ip_string a \<and> in_range rg' a)"
    if "rg \<in> set ranges" for rg r1
  proof (rule int63n_yields)
    have h: "host_range rg" using assms(2) that by blast
    then show "0 < uint (snd rg)" by (rule host_range_room)
    show "\<exists>rg' \<in> set ranges. \<exists>a. ip_string (fst rg OR word_of_int (fst (v, r')) + 1) = ip_string a \<and> in_range rg' a"
      if "0 \<le> v" "v < uint (snd rg)" for v and r' :: rng
      using host_drawn [OF h that] \<open>rg \<in> set ranges\<close> by auto
  qed
  show ?thesis
    unfolding random_ip_def yields_bind
    by (rule pick_yields [OF assms(1)]) (use step in \<open>simp add: split_beta Let_def\<close>)
qed

lemma build_pool_yields:
  assumes "0 \<le> n" and "\<forall>rg \<in> set (cidr_ranges G cidrs). host_range rg"
  shows "yields (buildIPPool G r cidrs n)
    (\<lambda>(pool, _). length pool = nat n \<and>
       (\<forall>s \<in> set pool. \<exists>rg \<in> set (cidr_ranges G cidrs). \<exists>a. s = ip_string a \<and> in_range rg a))"
proof -
  have "cidr_ranges G cidrs \<noteq> []" by (simp add: cidr_ranges_def Let_def)
  from repeat_go_yields [OF random_ip_yields [OF this assms(2)]] show ?thesis
    using assms(1) by (simp add: buildIPPool_def)
qed

text \<open>Which texts give such a range: a dotted address with a prefix of at most 31 bits.\<close>

definition host_cidr :: "golib \<Rightarrow> string \<Rightarrow> bool" where
  "host_cidr G c \<longleftrightarrow>
     (\<exists>a n. n \<le> 31 \<and> parse_cidr G c = Some (bytes4 (a AND cidr_mask n), bytes4 (cidr_mask n)))"

lemma host_cidr_range: "host_cidr G c \<Longrightarrow> \<exists>rg. cidr_range_of G c = [rg] \<and> host_range rg"
  unfolding host_cidr_def host_range_def cidr_range_of_def by (force simp: and.assoc)

lemma default_range: "host_range (0x0A000000, 0x00FFFFFF)"
proof -
  have "(0x0A000000 :: 32 word) AND cidr_mask 8 = 0x0A000000" "(0x00FFFFFF :: 32 word) = NOT (cidr_mask 8)"
    by code_simp+
  then show ?thesis unfolding host_range_def by (intro exI [of _ 8]) simp
qed

lemma host_cidr_ranges: "\<forall>c \<in> set cidrs. host_cidr G c \<Longrightarrow> \<forall>rg \<in> set (cidr_ranges G cidrs). host_range rg"
proof -
  assume cs: "\<forall>c \<in> set cidrs. host_cidr G c"
  have "\<forall>rg \<in> set (cidr_range_of G c). host_range rg" if "c \<in> set cidrs" for c
    using host_cidr_range [of G c] cs that by auto
  then show ?thesis using default_range by (auto simp: cidr_ranges_def Let_def)
qed

text \<open>
  C32. The pool built from dotted networks with prefixes of at most 31 bits has the requested
  size, and each of its entries is the text of an address of one of these networks (of
  10.0.0.0/8 when none is given) other than the network's own address.
\<close>

theorem ip_pool_in_networks:
  assumes "\<forall>c \<in> set cidrs. host_cidr G c" and "0 \<le> n"
  shows "\<exists>pool r'. buildIPPool G r cidrs n = Some (pool, r') \<and> length pool = nat n \<and>
    (\<forall>s \<in> set pool. \<exists>rg \<in> set (cidr_ranges G cidrs). \<exists>a. s = ip_string a \<and> in_range rg a)"
  using build_pool_yields [OF assms(2) host_cidr_ranges [OF assms(1)], of r] by (auto simp: yields_ex)

lemma host_cidr_10: "host_cidr G ''10.0.0.0/8''"
proof -
  have 1: "parse_cidr G ''10.0.0.0/8'' = Some (bytes4 (0x0A000000 AND cidr_mask 8), bytes4 (cidr_mask 8))"
    by (simp add: parse_cidr_def addr_kind_def parse_ipv4_def parse_octet_def parse_prefix_len_def is_digit_def
        read_digits_def)
  then show ?thesis unfolding host_cidr_def by (intro exI [of _ "0x0A000000"] exI [of _ 8]) simp
qed

lemma ip_pool_in_networks_witness:
  "\<exists>pool r'. buildIPPool sample_lib (new_rng [5, 7]) [''10.0.0.0/8''] 3 = Some (pool, r') \<and> length pool = 3"
  using ip_pool_in_networks [of "[''10.0.0.0/8'']" sample_lib 3 "new_rng [5, 7]"] host_cidr_10 by auto

text \<open>
  C33. A network of a single address passes the validation of the configuration, and building
  the pool from it panics: \<open>Int63n\<close> is called with 0.
\<close>

theorem single_host_cidr_panics:
  assumes "parse_cidr G c = Some (bytes4 a, bytes4 (cidr_mask 32))" and "0 < n"
  shows "validate_ip_pool G (Some \<lparr>cfg_cidrs = [c], cfg_zipf_skew = Fin 0\<rparr>) = None \<and> buildIPPool G r [c] n = None"
proof -
  have "cidr_ranges G [c] = [(a, 0)]"
    using assms by (simp add: cidr_ranges_def cidr_range_of_def cidr_mask_def)
  moreover have "random_ip [(a, 0)] r = None"
  proof (cases "pick [(a, 0 :: 32 word)] r")
    case (Some p)
    then have "fst p = (a, 0)" using pick_Some [of "[(a, 0)]" r "fst p" "snd p"] by simp
    with Some show ?thesis
      by (cases p) (simp add: random_ip_def int63n_panics [THEN iffD2])
  qed (simp add: random_ip_def)
  moreover obtain k where "nat n = Suc k" using assms(2) by (cases "nat n") auto
  ultimately have "buildIPPool G r [c] n = None" using assms(2) by (simp add: buildIPPool_def)
  then show ?thesis using assms(1) by (simp add: validate_ip_pool_def)
qed

lemma single_host_cidr_panics_witness:
  "buildIPPool sample_lib (new_rng [5]) [''192.168.1.1/32''] 500 = None"
proof -
  have "parse_cidr sample_lib ''192.168.1.1/32'' = Some (bytes4 0xC0A80101, bytes4 (cidr_mask 32))"
    by (simp add: parse_cidr_def addr_kind_def parse_ipv4_def parse_octet_def parse_prefix_len_def is_digit_def
        read_digits_def cidr_mask_def)
  from single_host_cidr_panics [OF this, of 500 "new_rng [5]"] show ?thesis by simp
qed

subsection \<open>Networks that are not IPv4\<close>

text \<open>
  The configuration documents IPv4 networks, and its validation accepts any network that parses:
  a list of IPv6 networks is valid, and the pool is then the one of 10.0.0.0/8.
\<close>

lemma ipv6_networks_ignored:
  assumes "\<forall>c \<in> set cidrs. \<exists>ip m. parse_cidr G c = Some (ip, m) \<and> to4 ip = None"
  shows "validate_ip_pool G (Some \<lparr>cfg_cidrs = cidrs, cfg_zipf_skew = Fin 0\<rparr>) = None"
    and "cidr_ranges G cidrs = cidr_ranges G [''10.0.0.0/8'']"
proof -
  have "parse_cidr G c \<noteq> None" if "c \<in> set cidrs" for c using assms that by force
  then show "validate_ip_pool G (Some \<lparr>cfg_cidrs = cidrs, cfg_zipf_skew = Fin 0\<rparr>) = None"
    by (simp add: validate_ip_pool_def validate_cidrs_iff)
  have "cidr_range_of G c = []" if "c \<in> set cidrs" for c
    using assms that by (force simp: cidr_range_of_def)
  then have "concat (map (cidr_range_of G) cidrs) = []" by simp
  then have "cidr_ranges G cidrs = [(0x0A000000, 0x00FFFFFF)]" by (simp add: cidr_ranges_def)
  moreover have "parse_cidr G ''10.0.0.0/8'' = Some (bytes4 (0x0A000000 AND cidr_mask 8), bytes4 (cidr_mask 8))"
    by (simp add: parse_cidr_def addr_kind_def parse_ipv4_def parse_octet_def parse_prefix_len_def is_digit_def
        read_digits_def)
  moreover have "NOT (cidr_mask 8) = 0x00FFFFFF" "0x0A000000 AND cidr_mask 8 = 0x0A000000" by code_simp+
  ultimately show "cidr_ranges G cidrs = cidr_ranges G [''10.0.0.0/8'']"
    by (simp add: cidr_ranges_def cidr_range_of_def)
qed

end
