(* ===== verification/LongTail.thy ===== *)
theory LongTail
  imports IPPool
begin

text \<open>
  The rare fields (\<open>internal/loggen/longtail.go\<close>): their pools of values, the schedule of the
  fields that fire in each of its slots, and \<open>EmitLongTail\<close>, which draws one number per
  record and looks the slot up. A table entry of the source, \<open>{key, buildPool(rng, ...),
  threshold}\<close>, is a triple whose second component is the pool's builder, run in the order
  of the table.
\<close>

type_synonym gen_attrs = "(string, any) gomap"

record long_tail_field =
  lt_key :: string
  lt_pool :: "string list"
  lt_threshold :: int

record schedule_entry =
  field_idx :: int
  pool_idx :: int

record long_tail_set =
  lt_fields :: "long_tail_field list"
  lt_schedule :: "schedule_entry list list"

definition longTailPoolSize :: nat where
  "longTailPoolSize = 256"

definition longTailDenominator :: int where
  "longTailDenominator = 10000"

definition longTailScheduleSize :: nat where
  "longTailScheduleSize = 65536"

definition longTailScheduleMask :: int where
  "longTailScheduleMask = int longTailScheduleSize - 1"

subsection \<open>Pools\<close>

definition hexChars :: string where
  "hexChars = ''0123456789abcdef''"

definition random_hex_char :: "rng \<Rightarrow> (char \<times> rng) option" where
  "random_hex_char r = do { (i, r') \<leftarrow> intn 16 r; c \<leftarrow> nth_go hexChars i; Some (c, r') }"

definition randomHexString :: "int \<Rightarrow> rng \<Rightarrow> (string \<times> rng) option" where
  "randomHexString n r = (if n < 0 then None else repeat_go (nat n) random_hex_char r)"

definition buildStrPool :: "string list \<Rightarrow> rng \<Rightarrow> (string list \<times> rng) option" where
  "buildStrPool choices = repeat_go longTailPoolSize (pick choices)"

definition buildIntStrPool :: "int \<Rightarrow> int \<Rightarrow> rng \<Rightarrow> (string list \<times> rng) option" where
  "buildIntStrPool lo hi =
     (let span = w64 (w64 (hi - lo) + 1)
      in repeat_go longTailPoolSize (\<lambda>r. do { (v, r') \<leftarrow> intn span r; Some (itoa (w64 (v + lo)), r') }))"

definition buildIntChoiceStrPool :: "int list \<Rightarrow> rng \<Rightarrow> (string list \<times> rng) option" where
  "buildIntChoiceStrPool choices =
     repeat_go longTailPoolSize (\<lambda>r. do { (v, r') \<leftarrow> pick choices r; Some (itoa v, r') })"

definition buildHexStrPool :: "int \<Rightarrow> rng \<Rightarrow> (string list \<times> rng) option" where
  "buildHexStrPool n = repeat_go longTailPoolSize (randomHexString n)"

text \<open>\<open>buildStrPool(rng, buildIPPool(rng, cidrs, n))\<close>\<close>

definition buildIPStrPool :: "golib \<Rightarrow> string list \<Rightarrow> int \<Rightarrow> rng \<Rightarrow> (string list \<times> rng) option" where
  "buildIPStrPool G cidrs n r = do { (ips, r') \<leftarrow> buildIPPool G r cidrs n; buildStrPool ips r' }"

subsection \<open>The schedule and its use\<close>

fun slot_entries :: "int \<Rightarrow> long_tail_field list \<Rightarrow> rng \<Rightarrow> (schedule_entry list \<times> rng) option" where
  "slot_entries fi [] r = Some ([], r)"
| "slot_entries fi (f # fs) r =
     (let (v, r1) = int63_go r
      in do { (p, r2) \<leftarrow> intn (int longTailPoolSize) r1;
              (es, r3) \<leftarrow> slot_entries (fi + 1) fs r2;
              Some (if rem_go v longTailDenominator < lt_threshold f
                    then \<lparr>field_idx = fi, pool_idx = p\<rparr> # es else es, r3) })"

definition buildLongTailSchedule :: "long_tail_field list \<Rightarrow> rng \<Rightarrow> (schedule_entry list list \<times> rng) option" where
  "buildLongTailSchedule flds = repeat_go longTailScheduleSize (slot_entries 0 flds)"

fun emit_entries :: "long_tail_field list \<Rightarrow> schedule_entry list \<Rightarrow> gen_attrs \<Rightarrow> gen_attrs option" where
  "emit_entries flds [] attrs = Some attrs"
| "emit_entries flds (e # es) attrs =
     do { f \<leftarrow> nth_go flds (field_idx e);
          s \<leftarrow> nth_go (lt_pool f) (pool_idx e);
          emit_entries flds es (put_go (lt_key f) (AStr s) attrs) }"

definition EmitLongTail :: "long_tail_set \<Rightarrow> gen_attrs \<Rightarrow> rng \<Rightarrow> (gen_attrs \<times> rng) option" where
  "EmitLongTail lt attrs r =
     (let (v, r') = int63_go r; slot = v AND longTailScheduleMask
      in do { entries \<leftarrow> nth_go (lt_schedule lt) slot;
              attrs' \<leftarrow> emit_entries (lt_fields lt) entries attrs;
              Some (attrs', r') })"

definition long_tail_table :: "golib \<Rightarrow> (string \<times> (rng \<Rightarrow> (string list \<times> rng) option) \<times> int) list" where
  "long_tail_table G =
     [(''config.file.path'', buildStrPool [''/etc/app/config.yaml'', ''/opt/config/settings.json'', ''/usr/local/etc/app.conf'', ''/app/config/production.yaml''], 30),
      (''config.file.hash'', buildHexStrPool 32, 30),
      (''config.reload.count'', buildIntStrPool 1 50, 20),
      (''config.reload.last_status'', buildStrPool [''success'', ''failed'', ''skipped''], 20),
      (''config.environment'', buildStrPool [''production'', ''staging'', ''canary'', ''development''], 50),
      (''config.feature_flags'', buildStrPool [''dark_launch=true,new_ui=false'', ''dark_launch=false,new_ui=true'', ''beta=true''], 20),
      (''config.max_connections'', buildIntChoiceStrPool [100, 256, 512, 1024, 2048], 30),
      (''config.worker_threads'', buildIntChoiceStrPool [2, 4, 8, 16, 32], 30),
      (''config.tls.enabled'', buildStrPool [''true'', ''false''], 40),
      (''config.tls.cert_expiry_days'', buildIntStrPool 1 365, 20),
      (''config.log_level'', buildStrPool [''debug'', ''info'', ''warn'', ''error''], 50),
      (''config.memory_limit_mb'', buildIntChoiceStrPool [256, 512, 1024, 2048, 4096, 8192], 30),
      (''config.cpu_limit_millicores'', buildIntChoiceStrPool [250, 500, 1000, 2000, 4000], 30),
      (''process.runtime.jvm.gc.count'', buildIntStrPool 0 5000, 40),
      (''process.runtime.jvm.gc.pause_ms'', buildIntStrPool 1 500, 40),
      (''process.runtime.jvm.heap_used_mb'', buildIntStrPool 64 4096, 30),
      (''process.runtime.jvm.threads.count'', buildIntStrPool 10 500, 30),
      (''process.runtime.go.goroutines'', buildIntStrPool 1 10000, 50),
      (''process.runtime.go.mem.heap_alloc_mb'', buildIntStrPool 8 2048, 50),
      (''process.runtime.go.gc.pause_ns'', buildIntStrPool 10000 50000000, 30),
      (''process.cpu_seconds_total'', buildIntStrPool 1 100000, 40),
      (''process.memory_rss_mb'', buildIntStrPool 32 8192, 40),
      (''process.open_fds'', buildIntStrPool 10 65000, 30),
      (''process.uptime_seconds'', buildIntStrPool 1 2592000, 30),
      (''k8s.pod.restart_count'', buildIntChoiceStrPool [0, 0, 0, 1, 1, 2, 3, 5], 50),
      (''k8s.container.ready'', buildStrPool [''true'', ''true'', ''true'', ''false''], 40),
      (''k8s.pod.phase'', buildStrPool [''Running'', ''Running'', ''Pending'', ''Succeeded'', ''Failed''], 30),
      (''k8s.pod.qos_class'', buildStrPool [''Guaranteed'', ''Burstable'', ''BestEffort''], 30),
      (''k8s.node.condition.ready'', buildStrPool [''True'', ''True'', ''True'', ''False''], 20),
      (''k8s.node.condition.memory_pressure'', buildStrPool [''False'', ''False'', ''True''], 10),
      (''k8s.node.condition.disk_pressure'', buildStrPool [''False'', ''False'', ''True''], 10),
      (''k8s.deployment.revision'', buildIntStrPool 1 200, 30),
      (''k8s.hpa.current_replicas'', buildIntStrPool 1 50, 20),
      (''k8s.hpa.desired_replicas'', buildIntStrPool 1 50, 20),
      (''net.sock.peer.addr'', buildIPStrPool G [''10.0.0.0/8''] 200, 40),
      (''net.sock.host.addr'', buildStrPool [''0.0.0.0'', ''127.0.0.1'', ''10.0.0.1''], 30),
      (''net.sock.host.port'', buildIntChoiceStrPool [8080, 8443, 9090, 9200, 3306, 6379], 30),
      (''net.host.connection.type'', buildStrPool [''wifi'', ''cell'', ''wired'', ''unknown''], 20),
      (''dns.lookup_duration_ms'', buildIntStrPool 0 200, 20),
      (''net.protocol.name'', buildStrPool [''http'', ''https'', ''grpc'', ''amqp'', ''redis''], 40),
      (''net.protocol.version'', buildStrPool [''1.0'', ''1.1'', ''2.0'', ''3.0''], 40),
      (''tls.client.server_name'', buildStrPool [''api.example.com'', ''internal.svc.local'', ''search.cloud.internal'', ''dashboard.cloud.internal''], 20),
      (''tls.client.certificate.serial'', buildHexStrPool 20, 10),
      (''cloud.account.id'', buildStrPool [''123456789012'', ''987654321098'', ''112233445566''], 30),
      (''cloud.availability_zone'', buildStrPool [''eu-west-1a'', ''eu-west-1b'', ''eu-west-1c'', ''us-east-1a'', ''us-east-1b''], 40),
      (''cloud.machine.type'', buildStrPool [''m5.xlarge'', ''m5.2xlarge'', ''c5.4xlarge'', ''r5.2xlarge'', ''t3.medium''], 30),
      (''cloud.region'', buildStrPool [''eu-west-1'', ''us-east-1'', ''ap-southeast-1''], 40),
      (''host.cpu.utilization'', buildIntStrPool 1 100, 30),
      (''host.disk.io.read_bytes'', buildIntStrPool 0 1000000000, 20),
      (''host.disk.io.write_bytes'', buildIntStrPool 0 1000000000, 20),
      (''host.network.io.receive_bytes'', buildIntStrPool 0 1000000000, 20),
      (''host.network.io.transmit_bytes'', buildIntStrPool 0 1000000000, 20),
      (''session.id'', buildHexStrPool 16, 50),
      (''enduser.id'', buildHexStrPool 12, 30),
      (''enduser.role'', buildStrPool [''admin'', ''user'', ''service-account'', ''readonly''], 20),
      (''enduser.scope'', buildStrPool [''read'', ''write'', ''admin'', ''monitoring''], 20),
      (''thread.id'', buildIntStrPool 1 65535, 40),
      (''thread.name'', buildStrPool [''main'', ''worker-0'', ''worker-1'', ''grpc-default-executor-0'', ''http-nio-8080-exec-1'', ''pool-1-thread-1''], 40),
      (''code.function'', buildStrPool [''handleRequest'', ''processMessage'', ''executeQuery'', ''serialize'', ''authenticate'', ''authorize'', ''validate''], 50),
      (''code.namespace'', buildStrPool [''com.example.service'', ''internal.handler'', ''net.http'', ''database.sql'', ''grpc.server''], 40),
      (''code.filepath'', buildStrPool [''handler.go:142'', ''service.py:89'', ''Controller.java:201'', ''middleware.ts:56'', ''query.go:77''], 40),
      (''code.lineno'', buildIntStrPool 1 2000, 40)]"

definition LongTailAttrs :: "golib \<Rightarrow> rng \<Rightarrow> (long_tail_set \<times> rng) option" where
  "LongTailAttrs G r =
     do { (flds, r1) \<leftarrow>
            each_go (\<lambda>(key, build, threshold) r.
                do { (pool, r') \<leftarrow> build r; Some (\<lparr>lt_key = key, lt_pool = pool, lt_threshold = threshold\<rparr>, r') })
              (long_tail_table G) r;
          (sched, r2) \<leftarrow> buildLongTailSchedule flds r1;
          Some (\<lparr>lt_fields = flds, lt_schedule = sched\<rparr>, r2) }"

subsection \<open>Pools are full\<close>

lemma hex_char_yields: "yields (random_hex_char r) (\<lambda>(c, _). c \<in> set hexChars)"
  by (auto simp: random_hex_char_def hexChars_def intro!: intn_yields nth_go_yields)

lemma hex_string_yields [yields_intro]:
  assumes "0 \<le> n" and "\<And>s r'. length s = nat n \<Longrightarrow> set s \<subseteq> set hexChars \<Longrightarrow> Q (s, r')"
  shows "yields (randomHexString n r) Q"
  using assms by (auto simp: randomHexString_def intro!: yields_mono [OF repeat_go_yields [OF hex_char_yields]])

text \<open>A builder that makes a pool of 256 values from any state of the generator.\<close>

definition fills_pool :: "(rng \<Rightarrow> (string list \<times> rng) option) \<Rightarrow> bool" where
  "fills_pool b \<longleftrightarrow> (\<forall>r. yields (b r) (\<lambda>(pool, _). length pool = longTailPoolSize))"

lemma fills_poolI: "(\<And>r. yields (f r) (\<lambda>_. True)) \<Longrightarrow> fills_pool (repeat_go longTailPoolSize f)"
  by (simp add: fills_pool_def repeat_go_total)

lemma fills_str_pool [simp]: "cs \<noteq> [] \<Longrightarrow> fills_pool (buildStrPool cs)"
  unfolding buildStrPool_def by (rule fills_poolI) (auto intro!: pick_yields)

lemma fills_int_pool [simp]: "lo \<le> hi \<Longrightarrow> 0 \<le> lo \<Longrightarrow> hi < 2 ^ 62 \<Longrightarrow> fills_pool (buildIntStrPool lo hi)"
  unfolding buildIntStrPool_def Let_def
  by (rule fills_poolI) (auto simp: w64_id intro!: intn_yields)

lemma fills_int_choice_pool [simp]: "cs \<noteq> [] \<Longrightarrow> fills_pool (buildIntChoiceStrPool cs)"
  unfolding buildIntChoiceStrPool_def by (rule fills_poolI) (auto intro!: pick_yields)

lemma fills_hex_pool [simp]: "0 \<le> n \<Longrightarrow> fills_pool (buildHexStrPool n)"
  unfolding buildHexStrPool_def by (rule fills_poolI) (auto intro!: hex_string_yields)

lemma fills_ip_pool [simp]:
  assumes "0 < n" shows "fills_pool (buildIPStrPool G [''10.0.0.0/8''] n)"
proof -
  have "fills_pool (buildStrPool ips)" if "length ips = nat n" for ips
    using that assms by (intro fills_str_pool) auto
  moreover have "\<forall>rg \<in> set (cidr_ranges G [''10.0.0.0/8'']). host_range rg"
    using host_cidr_ranges [of "[''10.0.0.0/8'']" G] host_cidr_10 [of G] by simp
  ultimately show ?thesis
    unfolding fills_pool_def buildIPStrPool_def yields_bind
    using assms by (auto intro!: yields_mono [OF build_pool_yields])
qed

lemma long_tail_table_fills: "\<forall>(key, build, threshold) \<in> set (long_tail_table G). fills_pool build"
  unfolding long_tail_table_def by simp

lemma long_tail_table_keys: "distinct (map fst (long_tail_table G))" "length (long_tail_table G) = 62"
  unfolding long_tail_table_def by simp_all

subsection \<open>The schedule refers to existing fields and pool entries\<close>

definition entry_ok :: "int \<Rightarrow> schedule_entry \<Rightarrow> bool" where
  "entry_ok n e \<longleftrightarrow> 0 \<le> field_idx e \<and> field_idx e < n \<and> 0 \<le> pool_idx e \<and> pool_idx e < int longTailPoolSize"

definition long_tail_ok :: "long_tail_set \<Rightarrow> bool" where
  "long_tail_ok lt \<longleftrightarrow>
     length (lt_schedule lt) = longTailScheduleSize \<and>
     (\<forall>f \<in> set (lt_fields lt). length (lt_pool f) = longTailPoolSize) \<and>
     (\<forall>es \<in> set (lt_schedule lt). \<forall>e \<in> set es. entry_ok (int (length (lt_fields lt))) e)"

lemma slot_entries_yields:
  "0 \<le> fi \<Longrightarrow> yields (slot_entries fi flds r) (\<lambda>(es, _). \<forall>e \<in> set es. entry_ok (fi + int (length flds)) e)"
proof (induction flds arbitrary: fi r)
  case (Cons f fs)
  have "yields (slot_entries (fi + 1) fs r') (\<lambda>x. \<forall>e \<in> set (fst x). entry_ok (fi + int (length (f # fs))) e)" for r'
    using Cons.IH [of "fi + 1" r'] Cons.prems by (simp add: case_prod_unfold algebra_simps)
  then show ?case
    using Cons.prems
    by (auto simp: split_beta Let_def longTailPoolSize_def intro!: intn_yields elim!: yields_mono)
      (auto simp: entry_ok_def longTailPoolSize_def)
qed simp

lemma schedule_yields:
  "yields (buildLongTailSchedule flds r) (\<lambda>(sched, _). length sched = longTailScheduleSize \<and>
     (\<forall>es \<in> set sched. \<forall>e \<in> set es. entry_ok (int (length flds)) e))"
  unfolding buildLongTailSchedule_def
  using repeat_go_yields [of "slot_entries 0 flds" "\<lambda>es. \<forall>e \<in> set es. entry_ok (int (length flds)) e"]
    slot_entries_yields [of 0 flds] by simp

lemma long_tail_yields:
  "yields (LongTailAttrs G r) (\<lambda>(lt, _). long_tail_ok lt \<and> map lt_key (lt_fields lt) = map fst (long_tail_table G))"
proof -
  let ?f = "\<lambda>(key, build, threshold) r.
    do { (pool, r') \<leftarrow> build r; Some (\<lparr>lt_key = key, lt_pool = pool, lt_threshold = threshold\<rparr>, r') }"
  let ?P = "\<lambda>t f. lt_key f = fst t \<and> length (lt_pool f) = longTailPoolSize"
  have "yields (?f t s) (\<lambda>(f, _). ?P t f)" if "t \<in> set (long_tail_table G)" for t s
  proof -
    obtain key build threshold where t: "t = (key, build, threshold)" by (cases t)
    then have "fills_pool build" using long_tail_table_fills [of G] that by auto
    then show ?thesis by (simp add: t fills_pool_def case_prod_unfold)
  qed
  then have "yields (each_go ?f (long_tail_table G) s) (\<lambda>(fs, _). list_all2 ?P (long_tail_table G) fs)" for s
    by (intro each_go_yields) blast
  then show ?thesis
    unfolding LongTailAttrs_def yields_bind
    by (rule yields_mono)
      (auto simp: long_tail_ok_def list_all2_conv_all_nth in_set_conv_nth intro!: yields_mono [OF schedule_yields] nth_equalityI)
qed

text \<open>What emitting the rare fields may do to the attributes of a record.\<close>

definition long_tail_effect :: "long_tail_field list \<Rightarrow> gen_attrs \<Rightarrow> gen_attrs \<Rightarrow> bool" where
  "long_tail_effect flds a a' \<longleftrightarrow>
     (\<forall>k. map_of a' k = map_of a k \<or>
        (\<exists>f \<in> set flds. k = lt_key f \<and> (\<exists>s \<in> set (lt_pool f). map_of a' k = Some (AStr s))))"

lemma emit_entries_yields:
  assumes "\<forall>f \<in> set flds. length (lt_pool f) = longTailPoolSize" and "\<forall>e \<in> set es. entry_ok (int (length flds)) e"
  shows "yields (emit_entries flds es a) (long_tail_effect flds a)"
  using assms(2)
proof (induction es arbitrary: a)
  case (Cons e es)
  have e: "entry_ok (int (length flds)) e" using Cons.prems by simp
  have "yields (emit_entries flds es (put_go (lt_key f) (AStr s) a)) (long_tail_effect flds a)"
    if "f \<in> set flds" "s \<in> set (lt_pool f)" for f s
  proof (rule yields_mono [OF Cons.IH])
    show "\<forall>e \<in> set es. entry_ok (int (length flds)) e" using Cons.prems by simp
    fix a' assume "long_tail_effect flds (put_go (lt_key f) (AStr s) a) a'"
    with that show "long_tail_effect flds a a'"
      unfolding long_tail_effect_def by (metis fun_upd_apply map_of_put_go)
  qed
  then show ?case
    using e assms(1) by (auto simp: entry_ok_def intro!: nth_go_yields)
qed (simp add: long_tail_effect_def)

lemma slot_range: "0 \<le> v AND longTailScheduleMask \<and> v AND longTailScheduleMask < int longTailScheduleSize"
proof -
  have "longTailScheduleMask = mask 16" by (simp add: longTailScheduleMask_def longTailScheduleSize_def mask_eq_exp_minus_1)
  then have "v AND longTailScheduleMask = v mod 2 ^ 16" by (simp only: take_bit_eq_mod [symmetric] take_bit_eq_mask)
  then show ?thesis by (simp add: longTailScheduleSize_def)
qed

lemma emit_yields:
  "long_tail_ok lt \<Longrightarrow> yields (EmitLongTail lt a r)
     (\<lambda>(a', r'). r' = snd (int63_go r) \<and> long_tail_effect (lt_fields lt) a a')"
  using slot_range
  by (auto simp: EmitLongTail_def split_beta Let_def long_tail_ok_def
      intro!: nth_go_yields yields_mono [OF emit_entries_yields])

text \<open>
  C35. The set of rare fields can be built from any state of the generator and has one field
  for each of the 62 entries of the table, with distinct keys. Emitting it never panics, draws
  exactly one number, and changes an attribute only to a pool value of a field of that key.
\<close>

theorem long_tail_emits:
  "\<exists>lt r1. LongTailAttrs G r = Some (lt, r1) \<and> length (lt_fields lt) = 62 \<and> distinct (map lt_key (lt_fields lt)) \<and>
     (\<forall>a r2. \<exists>a'. EmitLongTail lt a r2 = Some (a', snd (int63_go r2)) \<and> long_tail_effect (lt_fields lt) a a')"
proof -
  obtain lt r1 where l: "LongTailAttrs G r = Some (lt, r1)" "long_tail_ok lt"
    and k: "map lt_key (lt_fields lt) = map fst (long_tail_table G)"
    using long_tail_yields [of G r] by (auto simp: yields_ex)
  have "length (lt_fields lt) = length (long_tail_table G)" using k map_eq_imp_length_eq by blast
  moreover have "\<exists>a'. EmitLongTail lt a r2 = Some (a', snd (int63_go r2)) \<and> long_tail_effect (lt_fields lt) a a'" for a r2
    using emit_yields [OF l(2), of a r2] by (auto simp: yields_ex)
  ultimately show ?thesis using l(1) k long_tail_table_keys [of G] by (intro exI [of _ lt] exI [of _ r1]) simp
qed

end
