(* ===== verification/LogGen.thy ===== *)
theory LogGen
  imports LongTail
begin

text \<open>
  The generation of a record (\<open>internal/loggen/loggen.go\<close>): severities, message templates
  and profiles, the reference path \<open>GenerateLogRecord\<close>, and the path of the receiver:
  \<open>PrepareProfile\<close>, \<open>GenerateFromPreparedInto\<close> with its reused buffers, and the formatter
  \<open>sprintfSimple\<close>. An \<open>ArgGenerator\<close> is a function of the generator's state and the
  context that may panic.
\<close>

subsection \<open>Severities\<close>

text \<open>\<open>plog.SeverityNumber\<close>: the six constants the source names, and any other number.\<close>

datatype severity = SevTrace | SevDebug | SevInfo | SevWarn | SevError | SevFatal | SevNumber int

definition severities :: "severity list" where
  "severities = [SevTrace, SevDebug, SevInfo, SevWarn, SevError, SevFatal]"

definition ParseSeverity :: "golib \<Rightarrow> string \<Rightarrow> severity" where
  "ParseSeverity G s =
     (let u = to_upper G s
      in if u = ''TRACE'' then SevTrace
         else if u = ''DEBUG'' then SevDebug
         else if u = ''INFO'' then SevInfo
         else if u = ''WARN'' then SevWarn
         else if u = ''ERROR'' then SevError
         else if u = ''FATAL'' then SevFatal
         else SevError)"

type_synonym weights = "int \<times> int \<times> int \<times> int \<times> int \<times> int"

definition DefaultSeverityWeights :: weights where
  "DefaultSeverityWeights = (0, 3, 85, 93, 100, 100)"

fun pick_weight :: "int \<Rightarrow> int list \<Rightarrow> severity list \<Rightarrow> severity" where
  "pick_weight n (w # ws) (s # ss) = (if n < w then s else pick_weight n ws ss)"
| "pick_weight n _ _ = SevInfo"

definition pickSeverityFromWeights :: "weights \<Rightarrow> rng \<Rightarrow> (severity \<times> rng) option" where
  "pickSeverityFromWeights w r =
     do { (n, r') \<leftarrow> intn 100 r; Some (pick_weight n (weights_list w) severities, r') }"

subsection \<open>Templates and profiles\<close>

record gen_context =
  ctx_timestamp :: gotime

type_synonym arg_gen = "rng \<Rightarrow> gen_context \<Rightarrow> (any \<times> rng) option"

record attr_gen =
  attr_key :: string
  attr_fn :: arg_gen

record rare_attr_gen =
  rare_key :: string
  rare_probability :: f64
  rare_fn :: arg_gen

record msg_template =
  msg_severity :: severity
  msg_format :: string
  msg_args :: "arg_gen list"
  msg_attrs :: "attr_gen list"
  attr_from_arg :: "(string, int) gomap"
  msg_rare :: "rare_attr_gen list"

record app_profile =
  app_name :: string
  app_scope :: string
  app_messages :: "msg_template list"
  app_weights :: weights
  app_trace :: bool
  app_long_tail :: "long_tail_set option"

record prepared_profile =
  pp_profile :: app_profile
  pp_by_severity :: "(severity, msg_template list) gomap"
  pp_long_tail :: "long_tail_set option"

text \<open>The messages of a severity, none when the map lacks the key.\<close>

definition sev_msgs :: "(severity, msg_template list) gomap \<Rightarrow> severity \<Rightarrow> msg_template list" where
  "sev_msgs m s = (case map_of m s of None \<Rightarrow> [] | Some ms \<Rightarrow> ms)"

definition PrepareProfile :: "app_profile \<Rightarrow> prepared_profile" where
  "PrepareProfile p =
     \<lparr>pp_profile = p,
      pp_by_severity =
        fold (\<lambda>m bs. put_go (msg_severity m) (sev_msgs bs (msg_severity m) @ [m]) bs) (app_messages p) [],
      pp_long_tail = app_long_tail p\<rparr>"

definition HasTraceContext :: "prepared_profile \<Rightarrow> bool" where
  "HasTraceContext pp = app_trace (pp_profile pp)"

definition GetScopeName :: "prepared_profile \<Rightarrow> string" where
  "GetScopeName pp = (if app_scope (pp_profile pp) \<noteq> [] then app_scope (pp_profile pp) else ''log-generator'')"

definition MaxArgs :: "prepared_profile \<Rightarrow> int" where
  "MaxArgs pp = fold (\<lambda>m a. if a < int (length (msg_args m)) then int (length (msg_args m)) else a)
     (app_messages (pp_profile pp)) 0"

definition OverrideSeverityWeights :: "weights \<Rightarrow> prepared_profile \<Rightarrow> prepared_profile" where
  "OverrideSeverityWeights w pp = pp\<lparr>pp_profile := (pp_profile pp)\<lparr>app_weights := w\<rparr>\<rparr>"

subsection \<open>The source's formatter\<close>

fun appendAnyStr :: "golib \<Rightarrow> string \<Rightarrow> any \<Rightarrow> string" where
  "appendAnyStr G buf (AStr s) = buf @ s"
| "appendAnyStr G buf (ARoute body tpl) = buf @ body"
| "appendAnyStr G buf (AInt n) = buf @ itoa n"
| "appendAnyStr G buf v = buf @ sprint G v"

fun appendAnyInt :: "golib \<Rightarrow> string \<Rightarrow> any \<Rightarrow> string" where
  "appendAnyInt G buf (AInt n) = buf @ itoa n"
| "appendAnyInt G buf (AInt64 n) = buf @ itoa n"
| "appendAnyInt G buf (AStr s) = buf @ s"
| "appendAnyInt G buf v = buf @ sprint G v"

fun appendAnyHex :: "golib \<Rightarrow> string \<Rightarrow> any \<Rightarrow> string" where
  "appendAnyHex G buf (AInt n) = buf @ fmt_int 16 n"
| "appendAnyHex G buf (AInt64 n) = buf @ fmt_int 16 n"
| "appendAnyHex G buf (AUint64 w) = buf @ fmt_nat 16 (unat w)"
| "appendAnyHex G buf v = buf @ sprint G v"

fun anyStr :: "golib \<Rightarrow> any \<Rightarrow> string" where
  "anyStr G (AStr s) = s"
| "anyStr G (ARoute body tpl) = body"
| "anyStr G v = sprint G v"

text \<open>The loop over the format, from the current character, with \<open>buf\<close> and \<open>argIdx\<close>.\<close>

fun sprintf_loop :: "golib \<Rightarrow> any list \<Rightarrow> string \<Rightarrow> string \<Rightarrow> int \<Rightarrow> string option" where
  "sprintf_loop G args [] buf k = Some buf"
| "sprintf_loop G args [c] buf k = Some (buf @ [c])"
| "sprintf_loop G args (c # v # cs) buf k =
     (if c \<noteq> CHR ''%'' then sprintf_loop G args (v # cs) (buf @ [c]) k
      else if v = CHR ''s'' then do { a \<leftarrow> nth_go args k; sprintf_loop G args cs (appendAnyStr G buf a) (k + 1) }
      else if v = CHR ''d'' then do { a \<leftarrow> nth_go args k; sprintf_loop G args cs (appendAnyInt G buf a) (k + 1) }
      else if v = CHR ''x'' then do { a \<leftarrow> nth_go args k; sprintf_loop G args cs (appendAnyHex G buf a) (k + 1) }
      else if v = CHR ''q'' then do { a \<leftarrow> nth_go args k; sprintf_loop G args cs (buf @ quote_go G (anyStr G a)) (k + 1) }
      else if v = CHR ''v'' then do { a \<leftarrow> nth_go args k; sprintf_loop G args cs (appendAnyStr G buf a) (k + 1) }
      else if v = CHR ''%'' then sprintf_loop G args cs (buf @ [CHR ''%'']) k
      else sprintf_loop G args cs (buf @ [CHR ''%'', v]) k)"

text \<open>The buffer is truncated first; the result is its contents and the buffer for the next call.\<close>

definition sprintfSimple :: "golib \<Rightarrow> string \<Rightarrow> string \<Rightarrow> any list \<Rightarrow> (string \<times> string) option" where
  "sprintfSimple G buf format args = do { b \<leftarrow> sprintf_loop G args format (take 0 buf) 0; Some (b, b) }"

subsection \<open>Generating a record\<close>

fun RouteTemplate :: "any \<Rightarrow> string option" where
  "RouteTemplate (ARoute body tpl) = Some tpl"
| "RouteTemplate v = None"

definition filterMessagesBySeverity :: "msg_template list \<Rightarrow> severity \<Rightarrow> msg_template list" where
  "filterMessagesBySeverity msgs s = filter (\<lambda>m. msg_severity m = s) msgs"

text \<open>\<open>for i, gen := range tmpl.Args { args[i] = gen(rng, ctx) }\<close>\<close>

fun fill_args :: "arg_gen list \<Rightarrow> gen_context \<Rightarrow> nat \<Rightarrow> any list \<Rightarrow> rng \<Rightarrow> (any list \<times> rng) option" where
  "fill_args [] ctx i args r = Some (args, r)"
| "fill_args (g # gs) ctx i args r =
     do { (v, r') \<leftarrow> g r ctx;
          if i < length args then fill_args gs ctx (Suc i) (args[i := v]) r' else None }"

fun set_from_args :: "(string, int) gomap \<Rightarrow> any list \<Rightarrow> gen_attrs \<Rightarrow> gen_attrs" where
  "set_from_args [] args a = a"
| "set_from_args ((k, idx) # m) args a =
     set_from_args m args
       (case nth_go args idx of None \<Rightarrow> a
        | Some v \<Rightarrow> (case RouteTemplate v of Some tpl \<Rightarrow> put_go k (AStr tpl) a | None \<Rightarrow> put_go k v a))"

fun set_attrs :: "attr_gen list \<Rightarrow> gen_context \<Rightarrow> gen_attrs \<Rightarrow> rng \<Rightarrow> (gen_attrs \<times> rng) option" where
  "set_attrs [] ctx a r = Some (a, r)"
| "set_attrs (ag # ags) ctx a r =
     (if map_of a (attr_key ag) \<noteq> None then set_attrs ags ctx a r
      else do { (v, r') \<leftarrow> attr_fn ag r ctx;
                set_attrs ags ctx (if v \<noteq> ANil then put_go (attr_key ag) v a else a) r' })"

fun set_rare :: "rare_attr_gen list \<Rightarrow> gen_context \<Rightarrow> gen_attrs \<Rightarrow> rng \<Rightarrow> (gen_attrs \<times> rng) option" where
  "set_rare [] ctx a r = Some (a, r)"
| "set_rare (ra # ras) ctx a r =
     do { (v, r1) \<leftarrow> rare_fn ra r ctx;
          let (x, r2) = float64_go r1;
          set_rare ras ctx (if flt x (rare_probability ra) then put_go (rare_key ra) v a else a) r2 }"

definition has_attrs :: "msg_template \<Rightarrow> bool" where
  "has_attrs t \<longleftrightarrow> attr_from_arg t \<noteq> [] \<or> msg_attrs t \<noteq> [] \<or> msg_rare t \<noteq> []"

definition GenerateLogRecord ::
    "golib \<Rightarrow> app_profile \<Rightarrow> gotime \<Rightarrow> rng \<Rightarrow> (string \<times> severity \<times> gen_attrs option \<times> rng) option" where
  "GenerateLogRecord G p ts r =
     (let ctx = \<lparr>ctx_timestamp = ts\<rparr>
      in do { (sev, r1) \<leftarrow> pickSeverityFromWeights (app_weights p) r;
              let ms0 = filterMessagesBySeverity (app_messages p) sev;
              let ms1 = (if ms0 = [] then take 1 (filter (\<lambda>m. msg_severity m = SevInfo) (app_messages p)) else ms0);
              let ms = (if ms1 = [] then take 1 (app_messages p) else ms1);
              if ms = [] then Some (''no messages configured'', SevInfo, None, r1)
              else do {
                (t, r2) \<leftarrow> pick ms r1;
                (args, r3) \<leftarrow> fill_args (msg_args t) ctx 0 (replicate (length (msg_args t)) ANil) r2;
                let body = Sprintf G (msg_format t) args;
                if has_attrs t then do {
                  (a1, r4) \<leftarrow> set_attrs (msg_attrs t) ctx (set_from_args (attr_from_arg t) args []) r3;
                  (a2, r5) \<leftarrow> set_rare (msg_rare t) ctx a1 r4;
                  Some (body, msg_severity t, Some a2, r5) }
                else Some (body, msg_severity t, None, r3) } })"

text \<open>
  The receiver's path. \<open>args\<close> is a prefix of \<open>argsBuf\<close> where that is long enough, so
  that filling it writes to the caller's buffer; the attribute map is emptied first. The
  result is the body, the severity, the attributes, the two buffers and the generator.
\<close>

definition GenerateFromPreparedInto ::
    "golib \<Rightarrow> prepared_profile \<Rightarrow> gotime \<Rightarrow> gen_attrs \<Rightarrow> any list \<Rightarrow> string \<Rightarrow> rng \<Rightarrow>
      (string \<times> severity \<times> gen_attrs \<times> any list \<times> string \<times> rng) option" where
  "GenerateFromPreparedInto G pp ts attrs_out args_buf body_buf r =
     (let cleared = fold AList.delete (keys_go attrs_out) attrs_out; ctx = \<lparr>ctx_timestamp = ts\<rparr>
      in do { (sev, r1) \<leftarrow> pickSeverityFromWeights (app_weights (pp_profile pp)) r;
              let ms0 = sev_msgs (pp_by_severity pp) sev;
              let ms1 = (if ms0 = [] then sev_msgs (pp_by_severity pp) SevInfo else ms0);
              let ms = (if ms1 = [] then take 1 (app_messages (pp_profile pp)) else ms1);
              if ms = [] then Some (''no messages configured'', SevInfo, cleared, args_buf, body_buf, r1)
              else do {
                (t, r2) \<leftarrow> pick ms r1;
                let n = length (msg_args t);
                let shared = n \<le> length args_buf;
                let args0 = (if shared then take n args_buf else replicate n ANil);
                (args, r3) \<leftarrow> fill_args (msg_args t) ctx 0 args0 r2;
                let args_buf' = (if shared then args @ drop n args_buf else args_buf);
                (body, body_buf') \<leftarrow> sprintfSimple G body_buf (msg_format t) args;
                if has_attrs t \<or> pp_long_tail pp \<noteq> None then do {
                  (a1, r4) \<leftarrow> set_attrs (msg_attrs t) ctx (set_from_args (attr_from_arg t) args cleared) r3;
                  (a2, r5) \<leftarrow> set_rare (msg_rare t) ctx a1 r4;
                  (a3, r6) \<leftarrow> (case pp_long_tail pp of None \<Rightarrow> Some (a2, r5) | Some lt \<Rightarrow> EmitLongTail lt a2 r5);
                  Some (body, msg_severity t, a3, args_buf', body_buf', r6) }
                else Some (body, msg_severity t, cleared, args_buf', body_buf', r3) } })"

subsection \<open>The formatter\<close>

text \<open>The verbs that take an operand, what each appends, and their number in a format.\<close>

definition verb_chars :: "char set" where
  "verb_chars = {CHR ''s'', CHR ''d'', CHR ''x'', CHR ''q'', CHR ''v''}"

definition verb_append :: "golib \<Rightarrow> char \<Rightarrow> string \<Rightarrow> any \<Rightarrow> string" where
  "verb_append G v buf a =
     (if v = CHR ''d'' then appendAnyInt G buf a
      else if v = CHR ''x'' then appendAnyHex G buf a
      else if v = CHR ''q'' then buf @ quote_go G (anyStr G a)
      else appendAnyStr G buf a)"

fun verbs :: "string \<Rightarrow> nat" where
  "verbs [] = 0"
| "verbs [c] = 0"
| "verbs (c # v # cs) =
     (if c \<noteq> CHR ''%'' then verbs (v # cs) else if v \<in> verb_chars then Suc (verbs cs) else verbs cs)"

lemma loop_verb:
  "v \<in> verb_chars \<Longrightarrow> sprintf_loop G args (CHR ''%'' # v # cs) buf k =
     do { a \<leftarrow> nth_go args k; sprintf_loop G args cs (verb_append G v buf a) (k + 1) }"
  by (auto simp: verb_chars_def verb_append_def)

lemma loop_other:
  "v \<notin> verb_chars \<Longrightarrow> sprintf_loop G args (CHR ''%'' # v # cs) buf k =
     sprintf_loop G args cs (buf @ (if v = CHR ''%'' then [v] else [CHR ''%'', v])) k"
  by (simp add: verb_chars_def)

lemma loop_char: "c \<noteq> CHR ''%'' \<Longrightarrow> sprintf_loop G args (c # cs) buf k = sprintf_loop G args cs (buf @ [c]) k"
  by (cases cs) simp_all

lemmas loop_cases = loop_verb loop_other loop_char

declare sprintf_loop.simps(3) [simp del]

lemma sprintf_loop_panics:
  "0 \<le> k \<Longrightarrow> sprintf_loop G args f buf k = None \<longleftrightarrow> verbs f \<noteq> 0 \<and> int (length args) < k + int (verbs f)"
proof (induction f arbitrary: buf k rule: verbs.induct)
  case (3 c v cs)
  consider "c \<noteq> CHR ''%''" | "c = CHR ''%''" "v \<in> verb_chars" | "c = CHR ''%''" "v \<notin> verb_chars" by blast
  then show ?case
  proof cases
    case 1
    with "3.IH"(1) "3.prems" show ?thesis by (simp add: loop_char)
  next
    case 2
    have "nth_go args k = None \<longleftrightarrow> int (length args) \<le> k" using "3.prems" by (auto simp: nth_go_def)
    then show ?thesis
      using 2 "3.IH"(2) [of "k + 1"] "3.prems" by (cases "nth_go args k") (auto simp: loop_verb simp del: not_None_eq)
  next
    case 3
    with "3.IH"(3) "3.prems" show ?thesis by (simp add: loop_other)
  qed
qed simp_all

text \<open>
  C29. The receiver's formatter panics exactly when the format has more verbs than there are
  operands, whatever the operands' types are.
\<close>

theorem sprintf_panics_iff: "sprintfSimple G buf f args = None \<longleftrightarrow> length args < verbs f"
proof -
  have "sprintfSimple G buf f args = None \<longleftrightarrow> sprintf_loop G args f [] 0 = None"
    by (cases "sprintf_loop G args f [] 0") (simp_all add: sprintfSimple_def)
  then show ?thesis using sprintf_loop_panics [of 0 G args f "[]"] by auto
qed

lemma fmt_int_uint: "fmt_int b (uint w) = fmt_nat b (unat w)"
  by (simp add: fmt_int_def)

lemma append_sprint: "appendAnyStr G buf a = buf @ sprint G a" "anyStr G a = sprint G a"
  by (cases a; simp)+

lemma verb_text_append:
  assumes "verb_text G v a = Some t" shows "v \<in> verb_chars \<and> verb_append G v buf a = buf @ t"
proof (cases "v = CHR ''v''")
  case True
  with assms show ?thesis by (simp add: verb_text_def verb_chars_def verb_append_def append_sprint)
next
  case False
  with assms show ?thesis
    by (cases a) (auto simp: verb_text_def verb_chars_def verb_append_def fmt_int_uint append_sprint split: if_splits)
qed

lemma plain_loop:
  "sprintf_plain G f as = Some s \<Longrightarrow> 0 \<le> k \<Longrightarrow> drop (nat k) args = as \<Longrightarrow> sprintf_loop G args f buf k = Some (buf @ s)"
proof (induction G f as arbitrary: buf k s rule: sprintf_plain.induct)
  case (3 G c v cs as)
  consider "c \<noteq> CHR ''%''" | "c = CHR ''%''" "v = CHR ''%''" | "c = CHR ''%''" "v \<noteq> CHR ''%''" by blast
  then show ?case
  proof cases
    case 1
    with 3 show ?thesis by (auto simp: loop_char)
  next
    case 2
    with 3 show ?thesis by (auto simp: loop_other verb_chars_def)
  next
    case cv: 3
    then obtain a as' t s' where a: "as = a # as'" and t: "verb_text G v a = Some t"
      and s: "sprintf_plain G cs as' = Some s'" "s = t @ s'"
      using "3.prems"(1) by (auto split: list.splits bind_splits)
    have "nat k < length args" using "3.prems"(3) a by (metis drop_all linorder_not_less list.distinct(1))
    then have n: "nth_go args k = Some a" using "3.prems"(2,3) a nth_via_drop by (fastforce simp: nth_go_def)
    have "nat (k + 1) = Suc (nat k)" using "3.prems"(2) by simp
    then have d: "drop (nat (k + 1)) args = as'" using "3.prems"(3) a by (simp add: drop_Suc tl_drop [symmetric])
    have "sprintf_loop G args cs (buf @ t) (k + 1) = Some ((buf @ t) @ s')"
      using cv a t s d "3.prems"(2) by (intro "3.IH"(3)) simp_all
    with n verb_text_append [OF t] cv(1) s(2) show ?thesis by (simp add: loop_verb)
  qed
qed (auto split: if_splits)

text \<open>
  C30. Wherever \<open>fmt.Sprintf\<close> formats the operands without complaint, one per verb, the
  receiver's formatter produces the same text, whatever the reused buffer held.
\<close>

theorem sprintf_simple_equals:
  assumes "sprintf_plain G f args \<noteq> None"
  shows "sprintfSimple G buf f args = Some (Sprintf G f args, Sprintf G f args)"
  using assms plain_loop [of G f args _ 0 args "[]"] by (auto simp: sprintfSimple_def Sprintf_def)

lemma sprintf_simple_equals_witness:
  "sprintfSimple sample_lib ''old'' ''%s:%d 0x%x 100%%'' [AStr ''pod'', AInt 80, AInt 255] =
     Some (''pod:80 0xff 100%'', ''pod:80 0xff 100%'')"
proof -
  have "sprintf_plain sample_lib ''%s:%d 0x%x 100%%'' [AStr ''pod'', AInt 80, AInt 255] = Some ''pod:80 0xff 100%''"
    by (simp add: verb_text_def fmt_int_def fmt_nat.simps)
  with sprintf_simple_equals [of sample_lib "''%s:%d 0x%x 100%%''" "[AStr ''pod'', AInt 80, AInt 255]" "''old''"]
  show ?thesis by (simp add: Sprintf_def)
qed

subsection \<open>Reused buffers\<close>

definition gen_args :: "arg_gen list \<Rightarrow> gen_context \<Rightarrow> rng \<Rightarrow> (any list \<times> rng) option" where
  "gen_args gs ctx = each_go (\<lambda>g r. g r ctx) gs"

lemma fill_args_eq:
  "length args = i + length gs \<Longrightarrow>
   fill_args gs ctx i args r = map_option (\<lambda>(vs, r'). (take i args @ vs, r')) (gen_args gs ctx r)"
proof (induction gs arbitrary: i args r)
  case (Cons g gs)
  then have i: "i < length args" by simp
  have "take (Suc i) (args[i := v]) = take i args @ [v]" for v
    using i by (simp add: take_Suc_conv_app_nth)
  then show ?case
    using Cons i by (cases "g r ctx") (auto simp: gen_args_def split: bind_splits)
qed (simp add: gen_args_def)

lemma fill_args_0: "length args = length gs \<Longrightarrow> fill_args gs ctx 0 args r = gen_args gs ctx r"
  by (cases "gen_args gs ctx r") (auto simp: fill_args_eq)

lemma cleared_map [simp]: "fold AList.delete (keys_go m) m = []"
proof -
  have sub: "set (keys_go (fold AList.delete ks m)) \<subseteq> set (keys_go m) - set ks" for ks
  proof (induction ks arbitrary: m)
    case (Cons k ks)
    from Cons [of "AList.delete k m"] show ?case by (auto simp: delete_keys)
  qed auto
  from sub [of "keys_go m"] show ?thesis by simp
qed

text \<open>The draws of a record for the chosen template, without buffers.\<close>

definition template_record ::
    "golib \<Rightarrow> msg_template \<Rightarrow> long_tail_set option \<Rightarrow> gen_context \<Rightarrow> rng \<Rightarrow> (string \<times> severity \<times> gen_attrs \<times> any list \<times> rng) option" where
  "template_record G t lt ctx r =
     do { (args, r1) \<leftarrow> gen_args (msg_args t) ctx r;
          (body, _) \<leftarrow> sprintfSimple G [] (msg_format t) args;
          if has_attrs t \<or> lt \<noteq> None then do {
            (a1, r2) \<leftarrow> set_attrs (msg_attrs t) ctx (set_from_args (attr_from_arg t) args []) r1;
            (a2, r3) \<leftarrow> set_rare (msg_rare t) ctx a1 r2;
            (a3, r4) \<leftarrow> (case lt of None \<Rightarrow> Some (a2, r3) | Some l \<Rightarrow> EmitLongTail l a2 r3);
            Some (body, msg_severity t, a3, args, r4) }
          else Some (body, msg_severity t, [], args, r1) }"

definition candidates :: "prepared_profile \<Rightarrow> severity \<Rightarrow> msg_template list" where
  "candidates pp sev =
     (let ms0 = sev_msgs (pp_by_severity pp) sev;
          ms1 = (if ms0 = [] then sev_msgs (pp_by_severity pp) SevInfo else ms0)
      in if ms1 = [] then take 1 (app_messages (pp_profile pp)) else ms1)"

lemma sprintf_buf: "sprintfSimple G buf f args = sprintfSimple G [] f args"
  by (simp add: sprintfSimple_def)

lemma sprintf_same: "sprintfSimple G buf f args = Some (x, y) \<Longrightarrow> x = y"
  by (auto simp: sprintfSimple_def split: bind_splits)

definition store_args :: "any list \<Rightarrow> any list \<Rightarrow> any list" where
  "store_args args buf = (if length args \<le> length buf then args @ drop (length args) buf else buf)"

lemma gen_args_length: "gen_args gs ctx r = Some (vs, r') \<Longrightarrow> length vs = length gs"
  by (induction gs arbitrary: r vs) (auto simp: gen_args_def split: bind_splits)

lemma generate_eq:
  "GenerateFromPreparedInto G pp ts ao ab bb r =
     do { (sev, r1) \<leftarrow> pickSeverityFromWeights (app_weights (pp_profile pp)) r;
          if candidates pp sev = [] then Some (''no messages configured'', SevInfo, [], ab, bb, r1)
          else do { (t, r2) \<leftarrow> pick (candidates pp sev) r1;
                    (body, s, a, args, r3) \<leftarrow> template_record G t (pp_long_tail pp) \<lparr>ctx_timestamp = ts\<rparr> r2;
                    Some (body, s, a, store_args args ab, body, r3) } }"
proof -
  let ?ctx = "\<lparr>ctx_timestamp = ts\<rparr>"
  have fill: "fill_args (msg_args t) ?ctx 0
      (if length (msg_args t) \<le> length ab then take (length (msg_args t)) ab else replicate (length (msg_args t)) ANil) r2 =
      gen_args (msg_args t) ?ctx r2" for t r2
    by (rule fill_args_0) simp
  have store: "(if length (msg_args t) \<le> length ab then args @ drop (length (msg_args t)) ab else ab) = store_args args ab"
    if "gen_args (msg_args t) ?ctx r2 = Some (args, r3)" for t r2 args r3
    using gen_args_length [OF that] by (simp add: store_args_def)
  show ?thesis
  proof (cases "pickSeverityFromWeights (app_weights (pp_profile pp)) r")
    case (Some q)
    obtain sev r1 where q: "q = (sev, r1)" by (cases q)
    note unf = GenerateFromPreparedInto_def Let_def fill cleared_map candidates_def [unfolded Let_def, symmetric]
    show ?thesis
    proof (cases "pick (candidates pp sev) r1")
      case p: (Some p)
      obtain t r2 where t: "p = (t, r2)" by (cases p)
      show ?thesis
      proof (cases "gen_args (msg_args t) ?ctx r2")
        case g: (Some g)
        obtain args r3 where a: "g = (args, r3)" by (cases g)
        note st = store [OF g [unfolded a]]
        show ?thesis
        proof (cases "sprintfSimple G [] (msg_format t) args")
          case f: (Some f)
          then have "fst f = snd f" using sprintf_same [of G "[]" "msg_format t" args "fst f" "snd f"] by simp
          then obtain body where b: "f = (body, body)" by (cases f) auto
          show ?thesis
            unfolding unf using Some q p t g a f b st
            by (auto simp: template_record_def sprintf_buf [of G bb] unf split: bind_splits)
        qed (use Some q p t g a in \<open>simp add: unf template_record_def sprintf_buf [of G bb]\<close>)
      qed (use Some q p t in \<open>simp add: unf template_record_def\<close>)
    qed (use Some q in \<open>simp add: unf\<close>)
  qed (simp add: GenerateFromPreparedInto_def)
qed

definition drop_buffers :: "string \<times> severity \<times> gen_attrs \<times> any list \<times> string \<times> rng \<Rightarrow> string \<times> severity \<times> gen_attrs \<times> rng" where
  "drop_buffers = (\<lambda>(body, s, a, ab, bb, r). (body, s, a, r))"

text \<open>
  C31. Reusing the buffers leaks nothing from one record to the next: body, severity,
  attributes and the draws do not depend on what the attribute map, the operand buffer and the
  body buffer hold, nor on the size of the operand buffer.
\<close>

theorem buffers_do_not_leak:
  "map_option drop_buffers (GenerateFromPreparedInto G pp ts ao ab bb r) =
   map_option drop_buffers (GenerateFromPreparedInto G pp ts [] [] [] r)"
proof (cases "pickSeverityFromWeights (app_weights (pp_profile pp)) r")
  case (Some q)
  obtain sev r1 where q: "q = (sev, r1)" by (cases q)
  show ?thesis
  proof (cases "pick (candidates pp sev) r1")
    case p: (Some p)
    obtain t r2 where t: "p = (t, r2)" by (cases p)
    show ?thesis
      by (cases "template_record G t (pp_long_tail pp) \<lparr>ctx_timestamp = ts\<rparr> r2")
        (auto simp: generate_eq Some q p t drop_buffers_def)
  qed (simp add: generate_eq Some q drop_buffers_def)
qed (simp add: generate_eq)

subsection \<open>The prepared path and the reference path\<close>

lemma sev_msgs_put: "sev_msgs (put_go k v m) s = (if s = k then v else sev_msgs m s)"
  by (simp add: sev_msgs_def map_of_put_go)

lemma sev_msgs_prepare: "sev_msgs (pp_by_severity (PrepareProfile p)) s = filterMessagesBySeverity (app_messages p) s"
proof -
  have "sev_msgs (fold (\<lambda>m bs. put_go (msg_severity m) (sev_msgs bs (msg_severity m) @ [m]) bs) ms bs) s =
      sev_msgs bs s @ filter (\<lambda>m. msg_severity m = s) ms" for ms bs
    by (induction ms arbitrary: bs) (simp_all add: sev_msgs_put)
  from this [of "app_messages p" "[]"] show ?thesis
    by (simp add: PrepareProfile_def filterMessagesBySeverity_def) (simp add: sev_msgs_def)
qed

lemma prepare_simps [simp]:
  "pp_profile (PrepareProfile p) = p" "pp_long_tail (PrepareProfile p) = app_long_tail p"
  by (simp_all add: PrepareProfile_def)

text \<open>Every template's operands are ones that \<open>fmt.Sprintf\<close> formats without complaint.\<close>

definition plain_template :: "golib \<Rightarrow> msg_template \<Rightarrow> bool" where
  "plain_template G t \<longleftrightarrow>
     (\<forall>ctx r args r'. gen_args (msg_args t) ctx r = Some (args, r') \<longrightarrow> sprintf_plain G (msg_format t) args \<noteq> None)"

lemma plain_body:
  "plain_template G t \<Longrightarrow> gen_args (msg_args t) ctx r = Some (args, r') \<Longrightarrow>
   sprintfSimple G [] (msg_format t) args = Some (Sprintf G (msg_format t) args, Sprintf G (msg_format t) args)"
  using plain_loop [of G "msg_format t" args _ 0 args "[]"]
  by (fastforce simp: plain_template_def sprintfSimple_def Sprintf_def)

definition no_attrs_map :: "string \<times> severity \<times> gen_attrs option \<times> rng \<Rightarrow> string \<times> severity \<times> gen_attrs \<times> rng" where
  "no_attrs_map = (\<lambda>(body, s, a, r). (body, s, case a of None \<Rightarrow> [] | Some m \<Rightarrow> m, r))"

lemma generate_reference:
  "GenerateLogRecord G p ts r =
     do { (sev, r1) \<leftarrow> pickSeverityFromWeights (app_weights p) r;
          let ms0 = filterMessagesBySeverity (app_messages p) sev;
          let ms1 = (if ms0 = [] then take 1 (filterMessagesBySeverity (app_messages p) SevInfo) else ms0);
          let ms = (if ms1 = [] then take 1 (app_messages p) else ms1);
          if ms = [] then Some (''no messages configured'', SevInfo, None, r1)
          else do {
            (t, r2) \<leftarrow> pick ms r1;
            (args, r3) \<leftarrow> gen_args (msg_args t) \<lparr>ctx_timestamp = ts\<rparr> r2;
            if has_attrs t then do {
              (a1, r4) \<leftarrow> set_attrs (msg_attrs t) \<lparr>ctx_timestamp = ts\<rparr> (set_from_args (attr_from_arg t) args []) r3;
              (a2, r5) \<leftarrow> set_rare (msg_rare t) \<lparr>ctx_timestamp = ts\<rparr> a1 r4;
              Some (Sprintf G (msg_format t) args, msg_severity t, Some a2, r5) }
            else Some (Sprintf G (msg_format t) args, msg_severity t, None, r3) } }"
proof -
  have f: "fill_args gs ctx 0 (replicate (length gs) ANil) r = gen_args gs ctx r" for gs ctx r
    by (simp add: fill_args_0)
  show ?thesis
    unfolding GenerateLogRecord_def Let_def filterMessagesBySeverity_def [of _ SevInfo, symmetric] f ..
qed

text \<open>
  A static check of a format against its operands' generators: texts for \<open>%s\<close> and \<open>%q\<close>,
  integers for \<open>%d\<close> and \<open>%x\<close>, anything for \<open>%v\<close>, and one operand for each verb.
\<close>

fun is_text :: "any \<Rightarrow> bool" where
  "is_text (AStr s) = True"
| "is_text (ARoute body tpl) = True"
| "is_text v = False"

fun is_number :: "any \<Rightarrow> bool" where
  "is_number (AInt n) = True"
| "is_number (AInt64 n) = True"
| "is_number (AUint64 w) = True"
| "is_number v = False"

definition delivers :: "(any \<Rightarrow> bool) \<Rightarrow> arg_gen \<Rightarrow> bool" where
  "delivers P g \<longleftrightarrow> (\<forall>r ctx. pred_option (\<lambda>(v, _). P v) (g r ctx))"

definition verb_fits :: "char \<Rightarrow> arg_gen \<Rightarrow> bool" where
  "verb_fits v g \<longleftrightarrow>
     (if v = CHR ''v'' then True
      else if v = CHR ''s'' \<or> v = CHR ''q'' then delivers is_text g
      else if v = CHR ''d'' \<or> v = CHR ''x'' then delivers is_number g else False)"

fun fits_args :: "string \<Rightarrow> arg_gen list \<Rightarrow> bool" where
  "fits_args [] gs = (gs = [])"
| "fits_args [c] gs = (c \<noteq> CHR ''%'' \<and> gs = [])"
| "fits_args (c # v # cs) gs =
     (if c \<noteq> CHR ''%'' then fits_args (v # cs) gs
      else if v = CHR ''%'' then fits_args cs gs
      else (case gs of [] \<Rightarrow> False | g # gs' \<Rightarrow> verb_fits v g \<and> fits_args cs gs'))"

lemma delivers_Some: "delivers P g \<Longrightarrow> g r ctx = Some (v, r') \<Longrightarrow> P v"
  by (auto simp: delivers_def dest!: spec [of _ r] spec [of _ ctx])

lemma verb_text_value:
  "is_text a \<Longrightarrow> v = CHR ''s'' \<or> v = CHR ''q'' \<Longrightarrow> verb_text G v a \<noteq> None"
  "is_number a \<Longrightarrow> v = CHR ''d'' \<or> v = CHR ''x'' \<Longrightarrow> verb_text G v a \<noteq> None"
  by (cases a; auto simp: verb_text_def)+

lemma verb_fits_text:
  assumes "verb_fits v g" and "g r ctx = Some (a, r')"
  shows "verb_text G v a \<noteq> None"
proof -
  consider "v = CHR ''v''" | "v = CHR ''s'' \<or> v = CHR ''q''" "delivers is_text g"
    | "v = CHR ''d'' \<or> v = CHR ''x''" "delivers is_number g"
    using assms(1) unfolding verb_fits_def by meson
  then show ?thesis
  proof cases
    case 2
    with delivers_Some assms(2) have "is_text a" by blast
    with 2(1) show ?thesis by (rule verb_text_value(1) [rotated])
  next
    case 3
    with delivers_Some assms(2) have "is_number a" by blast
    with 3(1) show ?thesis by (rule verb_text_value(2) [rotated])
  qed (simp add: verb_text_def)
qed

lemma verb_fits_char: "verb_fits v g \<Longrightarrow> v \<in> verb_chars"
  by (auto simp: verb_fits_def verb_chars_def split: if_splits)

lemma fits_args_verbs: "fits_args f gs \<Longrightarrow> verbs f = length gs"
  by (induction f gs rule: fits_args.induct)
    (auto dest: verb_fits_char simp: verb_chars_def split: if_splits list.splits)

lemma fits_args_plain:
  "fits_args f gs \<Longrightarrow> gen_args gs ctx r = Some (args, r') \<Longrightarrow> sprintf_plain G f args \<noteq> None"
proof (induction f gs arbitrary: r args rule: fits_args.induct)
  case (3 c v cs gs)
  consider "c \<noteq> CHR ''%''" | "c = CHR ''%''" "v = CHR ''%''" | "c = CHR ''%''" "v \<noteq> CHR ''%''" by blast
  then show ?case
  proof cases
    case 1
    with 3 show ?thesis by auto
  next
    case 2
    with 3 show ?thesis by auto
  next
    case cv: 3
    then obtain g gs' where g: "gs = g # gs'" "verb_fits v g" "fits_args cs gs'"
      using "3.prems"(1) by (auto split: list.splits)
    then obtain a r1 as where a: "g r ctx = Some (a, r1)" "gen_args gs' ctx r1 = Some (as, r')" "args = a # as"
      using "3.prems"(2) by (auto simp: gen_args_def split: bind_splits)
    have "sprintf_plain G cs as \<noteq> None" using "3.IH"(3) [OF _ _ g(1,3) a(2)] cv by blast
    then show ?thesis using cv verb_fits_text [OF g(2) a(1), of G] by (auto simp: a(3))
  qed
qed (auto simp: gen_args_def)

lemma fits_template_plain: "fits_args (msg_format t) (msg_args t) \<Longrightarrow> plain_template G t"
  using fits_args_plain by (auto simp: plain_template_def)

text \<open>The record of the reference path, with the rare fields emitted into its attributes.\<close>

definition emit_rare_fields ::
    "long_tail_set option \<Rightarrow> string \<times> severity \<times> gen_attrs \<times> rng \<Rightarrow> (string \<times> severity \<times> gen_attrs \<times> rng) option" where
  "emit_rare_fields lt rec =
     (case rec of (body, s, a, r) \<Rightarrow>
        (case lt of None \<Rightarrow> Some rec
         | Some l \<Rightarrow> do { (a', r') \<leftarrow> EmitLongTail l a r; Some (body, s, a', r') }))"

text \<open>
  The two paths fall back differently when the severity drawn has no message: the reference path
  takes the first INFO message, the receiver's path draws among them.
\<close>

definition same_fallback :: "app_profile \<Rightarrow> bool" where
  "same_fallback p \<longleftrightarrow> length (filterMessagesBySeverity (app_messages p) SevInfo) \<le> 1 \<or>
     (\<forall>n \<in> set [0..<100]. filterMessagesBySeverity (app_messages p)
        (pick_weight (int n) (weights_list (app_weights p)) severities) \<noteq> [])"

lemma prepared_path:
  assumes "app_messages p \<noteq> []" and "\<forall>t \<in> set (app_messages p). plain_template G t" and "same_fallback p"
  shows "map_option drop_buffers (GenerateFromPreparedInto G (PrepareProfile p) ts ao ab bb r) =
    do { rec \<leftarrow> map_option no_attrs_map (GenerateLogRecord G p ts r); emit_rare_fields (app_long_tail p) rec }"
proof (cases "pickSeverityFromWeights (app_weights p) r")
  case (Some q)
  obtain sev r1 where q: "q = (sev, r1)" by (cases q)
  let ?ms = "candidates (PrepareProfile p) sev"
  let ?fi = "filterMessagesBySeverity (app_messages p) SevInfo"
  obtain n where n: "sev = pick_weight n (weights_list (app_weights p)) severities" "0 \<le> n" "n < 100"
    using Some intn_yields [of 100 "\<lambda>(n, _). 0 \<le> n \<and> n < 100" r] q
    by (auto simp: pickSeverityFromWeights_def split: bind_splits)
  have "nat n < 100" "int (nat n) = n" using n by auto
  then have "filterMessagesBySeverity (app_messages p) sev = [] \<Longrightarrow> take 1 ?fi = ?fi"
    using assms(3) n(1) unfolding same_fallback_def by (metis atLeastLessThan_iff set_upt take_all zero_le)
  then have ref: "(let ms0 = filterMessagesBySeverity (app_messages p) sev;
          ms1 = (if ms0 = [] then take 1 ?fi else ms0)
      in if ms1 = [] then take 1 (app_messages p) else ms1) = ?ms"
    by (auto simp: candidates_def Let_def sev_msgs_prepare)
  have sub: "set ?ms \<subseteq> set (app_messages p)"
    by (auto simp: candidates_def Let_def sev_msgs_prepare filterMessagesBySeverity_def dest: in_set_takeD)
  have ne: "?ms \<noteq> []" using assms(1) by (auto simp: candidates_def Let_def take_eq_Nil2)
  show ?thesis
  proof (cases "pick ?ms r1")
    case p: (Some pp)
    obtain t r2 where t: "pp = (t, r2)" by (cases pp)
    with p sub have "plain_template G t" using assms(2) pick_Some by fastforce
    note plain = plain_body [OF this]
    show ?thesis
    proof (cases "gen_args (msg_args t) \<lparr>ctx_timestamp = ts\<rparr> r2")
      case g: (Some g)
      obtain args r3 where a: "g = (args, r3)" by (cases g)
      have none: "set_attrs (msg_attrs t) ctx (set_from_args (attr_from_arg t) args []) r = Some ([], r)"
        "set_rare (msg_rare t) ctx a r = Some (a, r)" if "\<not> has_attrs t" for ctx r a
        using that by (simp_all add: has_attrs_def)
      show ?thesis
        using ref [unfolded Let_def] plain [OF g [unfolded a]] none ne
        by (cases "has_attrs t"; cases "app_long_tail p")
          (auto simp: generate_eq generate_reference Some q p t g a template_record_def drop_buffers_def
            no_attrs_map_def emit_rare_fields_def Let_def split: bind_splits)
    qed (use ref [unfolded Let_def] ne in
        \<open>simp add: generate_eq generate_reference Some q p t template_record_def Let_def\<close>)
  qed (use ref [unfolded Let_def] ne in \<open>simp add: generate_eq generate_reference Some q Let_def\<close>)
qed (simp add: generate_eq generate_reference)

definition sample_template :: msg_template where
  "sample_template =
     \<lparr>msg_severity = SevInfo, msg_format = ''hello %s'', msg_args = [\<lambda>r ctx. Some (AStr ''pod'', r)],
      msg_attrs = [\<lparr>attr_key = ''k'', attr_fn = \<lambda>r ctx. Some (AInt 3, r)\<rparr>], attr_from_arg = [(''name'', 0)],
      msg_rare = []\<rparr>"

definition sample_profile :: app_profile where
  "sample_profile =
     \<lparr>app_name = ''sample'', app_scope = [], app_messages = [sample_template],
      app_weights = DefaultSeverityWeights, app_trace = False, app_long_tail = None\<rparr>"

subsection \<open>Severities are drawn in the configured shares\<close>

lemma pick_weight_range:
  assumes "weights_ok (weights_list w)" and "i < 6"
  shows "{n. 0 \<le> n \<and> n < 100 \<and> pick_weight n (weights_list w) severities = severities ! i} =
    {(if i = 0 then 0 else weights_list w ! (i - 1))..<weights_list w ! i}"
proof -
  obtain a b c d e f where w: "w = (a, b, c, d, e, f)" by (cases w)
  have o: "0 \<le> a" "a \<le> b" "b \<le> c" "c \<le> d" "d \<le> e" "e \<le> f" "f = 100"
    using assms(1) by (auto simp: w weights_ok_def)
  consider "i = 0" | "i = 1" | "i = 2" | "i = 3" | "i = 4" | "i = 5" using assms(2) by force
  then show ?thesis by cases (use o in \<open>auto simp: w severities_def nth_Cons' numeral_2_eq_2\<close>)
qed

lemma weights_bounds:
  assumes "weights_ok (weights_list w)" and "i < 6"
  shows "0 \<le> (if i = 0 then 0 else weights_list w ! (i - 1))"
    and "(if i = 0 then 0 else weights_list w ! (i - 1)) \<le> weights_list w ! i" and "weights_list w ! i \<le> 100"
proof -
  obtain a b c d e f where w: "w = (a, b, c, d, e, f)" by (cases w)
  have o: "0 \<le> a" "a \<le> b" "b \<le> c" "c \<le> d" "d \<le> e" "e \<le> f" "f = 100"
    using assms(1) by (auto simp: w weights_ok_def)
  consider "i = 0" | "i = 1" | "i = 2" | "i = 3" | "i = 4" | "i = 5" using assms(2) by force
  then have "0 \<le> (if i = 0 then 0 else weights_list w ! (i - 1)) \<and>
      (if i = 0 then 0 else weights_list w ! (i - 1)) \<le> weights_list w ! i \<and> weights_list w ! i \<le> 100"
    by cases (use o in \<open>simp_all add: w\<close>)
  then show "0 \<le> (if i = 0 then 0 else weights_list w ! (i - 1))"
    and "(if i = 0 then 0 else weights_list w ! (i - 1)) \<le> weights_list w ! i" and "weights_list w ! i \<le> 100"
    by blast+
qed

text \<open>
  \<open>Intn(100)\<close> takes the upper 31 bits but the sign of a value of the source, rejects the
  values from 2147483600 on, and takes the remainder by 100 of the others: of the accepted
  values of the source each remainder has the same number.
\<close>

lemma quot_rem: "0 \<le> m \<Longrightarrow> m < k \<Longrightarrow> (q * k + m) div k = q \<and> (q * k + m) mod k = m" for m k q :: int
  by simp

lemma card_int31:
  assumes "V \<subseteq> {0..<2147483648}"
  shows "card {u. int31_of u \<in> V} = 8589934592 * card V"
proof -
  define f :: "int \<times> int \<times> int \<Rightarrow> 64 word" where
    "f = (\<lambda>(b, v, l). word_of_int (b * 9223372036854775808 + v * 4294967296 + l))"
  let ?A = "{0..<2} \<times> V \<times> {0..<4294967296} :: (int \<times> int \<times> int) set"
  have u: "uint (f (b, v, l)) = b * 9223372036854775808 + v * 4294967296 + l" if "(b, v, l) \<in> ?A" for b v l
  proof -
    have r: "0 \<le> b" "b < 2" "0 \<le> v" "v < 2147483648" "0 \<le> l" "l < 4294967296" using that assms by auto
    have "0 \<le> b * 9223372036854775808 + v * 4294967296 + l \<and>
        b * 9223372036854775808 + v * 4294967296 + l < 18446744073709551616" using r by linarith
    then show ?thesis unfolding f_def prod.case uint_word_of_int by simp
  qed
  have parts: "int31_of (f (b, v, l)) = v \<and> uint (f (b, v, l)) div 9223372036854775808 = b \<and> uint (f (b, v, l)) mod 4294967296 = l"
    if "(b, v, l) \<in> ?A" for b v l
  proof -
    have r: "0 \<le> v" "v < 2147483648" "0 \<le> l" "l < 4294967296" using that assms by auto
    have "0 \<le> v * 4294967296 + l" "v * 4294967296 + l < 9223372036854775808" using r by linarith+
    from quot_rem [OF this, of b] quot_rem [OF r(3,4), of v] quot_rem [OF r(3,4), of "b * 2147483648 + v"]
    show ?thesis unfolding int31_of_def int63_of_def u [OF that] by (simp add: algebra_simps)
  qed
  have inj: "inj_on f ?A"
  proof (rule inj_onI)
    fix x y assume xy: "x \<in> ?A" "y \<in> ?A" "f x = f y"
    obtain b v l b' v' l' where e: "x = (b, v, l)" "y = (b', v', l')" by (metis prod_cases3)
    show "x = y"
      using parts [OF xy(1) [unfolded e]] parts [OF xy(2) [unfolded e]] unfolding xy(3) [unfolded e] e by simp
  qed
  have "{u. int31_of u \<in> V} = f ` ?A"
  proof (intro equalityI subsetI)
    fix u assume v: "u \<in> {u. int31_of u \<in> V}"
    let ?x = "(uint u div 9223372036854775808, int31_of u, uint u mod 4294967296)"
    have "uint u < 18446744073709551616" using uint_lt2p [of u] by simp
    then have b: "0 \<le> uint u div 9223372036854775808 \<and> uint u div 9223372036854775808 < 2"
      using div_mult_mod_eq [of "uint u" 9223372036854775808] uint_ge_0 [of u]
        pos_mod_bound [of 9223372036854775808 "uint u"] pos_mod_sign [of 9223372036854775808 "uint u"] by linarith
    have p: "int31_of u = uint u mod 9223372036854775808 div 4294967296" by (simp add: int31_of_def int63_of_def)
    have m: "uint u mod 9223372036854775808 mod 4294967296 = uint u mod 4294967296"
      by (rule mod_mod_cancel) simp
    have "uint u div 9223372036854775808 * 9223372036854775808 + int31_of u * 4294967296 + uint u mod 4294967296 = uint u"
      unfolding p using div_mult_mod_eq [of "uint u" 9223372036854775808]
        div_mult_mod_eq [of "uint u mod 9223372036854775808" 4294967296] m by linarith
    then have "f ?x = u" unfolding f_def prod.case by (metis word_of_int_uint)
    moreover have "?x \<in> ?A" using b v by simp
    ultimately show "u \<in> f ` ?A" by (metis image_eqI)
  next
    fix u assume "u \<in> f ` ?A"
    then obtain b v l where "u = f (b, v, l)" "(b, v, l) \<in> ?A" by blast
    then show "u \<in> {u. int31_of u \<in> V}" using parts by simp
  qed
  then show ?thesis using inj by (simp add: card_image card_cartesian_product)
qed

lemma card_remainders:
  assumes "0 \<le> a" "a \<le> b" "b \<le> 100"
  shows "card {v :: int. 0 \<le> v \<and> v < 2147483600 \<and> v mod 100 \<in> {a..<b}} = 21474836 * nat (b - a)"
proof -
  let ?f = "\<lambda>(q, n). 100 * q + n :: int"
  let ?A = "{0..<21474836} \<times> {a..<b}"
  have inv: "(100 * q + n) div 100 = q \<and> (100 * q + n) mod 100 = n" if "n \<in> {a..<b}" for q n :: int
    using that assms by auto
  have "inj_on ?f ?A"
  proof (rule inj_onI)
    fix x y assume xy: "x \<in> ?A" "y \<in> ?A" "?f x = ?f y"
    then show "x = y" using inv [of "snd x" "fst x"] inv [of "snd y" "fst y"] by (cases x; cases y) simp
  qed
  moreover have "{v. 0 \<le> v \<and> v < 2147483600 \<and> v mod 100 \<in> {a..<b}} = ?f ` ?A"
  proof (intro equalityI subsetI)
    fix v :: int assume v: "v \<in> {v. 0 \<le> v \<and> v < 2147483600 \<and> v mod 100 \<in> {a..<b}}"
    then have "(v div 100, v mod 100) \<in> ?A" by auto
    moreover have "v = ?f (v div 100, v mod 100)" by simp
    ultimately show "v \<in> ?f ` ?A" by blast
  next
    fix v assume "v \<in> ?f ` ?A"
    then obtain q n where "v = 100 * q + n" "0 \<le> q" "q < 21474836" "a \<le> n" "n < b" by auto
    moreover have "(100 * q + n) mod 100 = n" using inv [of n q] calculation by simp
    ultimately show "v \<in> {v. 0 \<le> v \<and> v < 2147483600 \<and> v mod 100 \<in> {a..<b}}" using assms by auto
  qed
  ultimately show ?thesis by (simp add: card_image card_cartesian_product)
qed

lemma intn_100:
  "intn 100 (r\<lparr>tape := u # ws\<rparr>) =
     (if int31_of u < 2147483600 then Some (int31_of u mod 100, r\<lparr>tape := ws\<rparr>) else intn 100 (r\<lparr>tape := ws\<rparr>))"
proof -
  have "\<not> (100 :: int) AND 99 = 0" by code_simp
  then show ?thesis by (auto simp: intn_def int31n_def uniform_def Let_def split_beta)
qed

text \<open>
  C21. With valid cumulative weights, a severity is drawn in exactly its configured share. A value
  of the source whose upper 31 bits are 2147483600 or more is rejected, and the draw goes on with the
  next one. Of all the 64-bit values that are accepted, the fraction that selects the severity is
  the difference of its weight and the one before it, in percent; in particular a severity with
  no share is never selected.
\<close>

theorem severity_shares:
  assumes "validate_severity_weights (Some w) = None" and "i < 6"
  shows "(\<forall>u ws. pickSeverityFromWeights w (r\<lparr>tape := u # ws\<rparr>) =
      (if int31_of u < 2147483600 then map_option (\<lambda>(s, _). (s, r\<lparr>tape := ws\<rparr>)) (pickSeverityFromWeights w (r\<lparr>tape := [u]\<rparr>))
       else pickSeverityFromWeights w (r\<lparr>tape := ws\<rparr>))) \<and>
    100 * int (card {u. int31_of u < 2147483600 \<and> pickSeverityFromWeights w (r\<lparr>tape := [u]\<rparr>) = Some (severities ! i, r\<lparr>tape := []\<rparr>)}) =
      (weights_list w ! i - (if i = 0 then 0 else weights_list w ! (i - 1))) * int (card {u. int31_of u < 2147483600})"
proof -
  have ok: "weights_ok (weights_list w)" using assms(1) by (simp add: validate_severity_iff)
  define a b where "a = (if i = 0 then 0 else weights_list w ! (i - 1))" and "b = weights_list w ! i"
  have ab: "0 \<le> a" "a \<le> b" "b \<le> 100" using weights_bounds [OF ok assms(2)] by (simp_all add: a_def b_def)
  have pick: "pickSeverityFromWeights w (r\<lparr>tape := u # ws\<rparr>) =
      (if int31_of u < 2147483600 then Some (pick_weight (int31_of u mod 100) (weights_list w) severities, r\<lparr>tape := ws\<rparr>)
       else pickSeverityFromWeights w (r\<lparr>tape := ws\<rparr>))" for u ws
    by (simp add: pickSeverityFromWeights_def intn_100)
  let ?V = "{v. 0 \<le> v \<and> v < 2147483600 \<and> v mod 100 \<in> {a..<b}}"
  have "pick_weight n (weights_list w) severities = severities ! i \<longleftrightarrow> n \<in> {a..<b}" if "0 \<le> n" "n < 100" for n
    using pick_weight_range [OF ok assms(2)] that unfolding a_def b_def by blast
  then have "{u. int31_of u < 2147483600 \<and> pickSeverityFromWeights w (r\<lparr>tape := [u]\<rparr>) = Some (severities ! i, r\<lparr>tape := []\<rparr>)} =
      {u. int31_of u \<in> ?V}"
    using int31_of_range by (auto simp: pick)
  moreover have "card {u. int31_of u \<in> ?V} = 8589934592 * (21474836 * nat (b - a))"
    using card_int31 [of ?V] card_remainders [OF ab] by fastforce
  moreover have "{u. int31_of u < 2147483600} = {u. int31_of u \<in> {0..<2147483600}}" using int31_of_range by auto
  then have "card {u. int31_of u < 2147483600} = 8589934592 * 2147483600"
    using card_int31 [of "{0..<2147483600}"] by simp
  ultimately have "100 * int (card {u. int31_of u < 2147483600 \<and> pickSeverityFromWeights w (r\<lparr>tape := [u]\<rparr>) = Some (severities ! i, r\<lparr>tape := []\<rparr>)}) =
      (b - a) * int (card {u. int31_of u < 2147483600})"
    using ab by simp
  then show ?thesis unfolding a_def b_def by (simp add: pick)
qed

lemma severity_shares_witness:
  "100 * int (card {u. int31_of u < 2147483600 \<and> pickSeverityFromWeights DefaultSeverityWeights ((new_rng [])\<lparr>tape := [u]\<rparr>) =
      Some (SevInfo, new_rng [])}) = 82 * int (card {u. int31_of u < 2147483600})"
proof -
  have "validate_severity_weights (Some DefaultSeverityWeights) = None"
    by (simp add: validate_severity_weights_def DefaultSeverityWeights_def)
  from severity_shares [OF this, of 2 "new_rng []", THEN conjunct2] show ?thesis
    by (simp add: DefaultSeverityWeights_def severities_def new_rng_def)
qed

subsection \<open>Well-formed templates never panic\<close>

definition total_gen :: "arg_gen \<Rightarrow> bool" where
  "total_gen g \<longleftrightarrow> (\<forall>r ctx. yields (g r ctx) (\<lambda>_. True))"

definition template_ok :: "msg_template \<Rightarrow> bool" where
  "template_ok t \<longleftrightarrow>
     (\<forall>g \<in> set (msg_args t). total_gen g) \<and> (\<forall>ag \<in> set (msg_attrs t). total_gen (attr_fn ag)) \<and>
     (\<forall>ra \<in> set (msg_rare t). total_gen (rare_fn ra)) \<and> verbs (msg_format t) \<le> length (msg_args t)"

definition profile_ok :: "app_profile \<Rightarrow> bool" where
  "profile_ok p \<longleftrightarrow> (\<forall>t \<in> set (app_messages p). template_ok t) \<and> pred_option long_tail_ok (app_long_tail p)"

text \<open>The prepared profile of a well-formed one, with any weights.\<close>

definition prepared_ok :: "prepared_profile \<Rightarrow> bool" where
  "prepared_ok pp \<longleftrightarrow>
     (\<forall>s. set (sev_msgs (pp_by_severity pp) s) \<subseteq> set (app_messages (pp_profile pp))) \<and>
     (\<forall>t \<in> set (app_messages (pp_profile pp)). template_ok t) \<and> pred_option long_tail_ok (pp_long_tail pp)"

lemma prepare_ok [intro]: "profile_ok p \<Longrightarrow> prepared_ok (PrepareProfile p)"
  by (auto simp: prepared_ok_def profile_ok_def sev_msgs_prepare filterMessagesBySeverity_def)

lemma override_ok [intro]: "prepared_ok pp \<Longrightarrow> prepared_ok (OverrideSeverityWeights w pp)"
  by (simp add: prepared_ok_def OverrideSeverityWeights_def)

lemma gen_args_yields:
  "\<forall>g \<in> set gs. total_gen g \<Longrightarrow> yields (gen_args gs ctx r) (\<lambda>(vs, _). length vs = length gs)"
proof (induction gs arbitrary: r)
  case (Cons g gs)
  then have "yields (g r ctx) (\<lambda>_. True)" by (simp add: total_gen_def)
  then show ?case
    using Cons by (auto simp: gen_args_def intro: yields_mono elim!: yields_mono)
qed (simp add: gen_args_def)

lemma set_attrs_yields:
  "\<forall>ag \<in> set ags. total_gen (attr_fn ag) \<Longrightarrow> yields (set_attrs ags ctx a r) (\<lambda>_. True)"
proof (induction ags arbitrary: a r)
  case (Cons ag ags)
  then have "yields (attr_fn ag r ctx) (\<lambda>_. True)" by (simp add: total_gen_def)
  with Cons show ?case by (auto elim!: yields_mono)
qed simp

lemma set_rare_yields:
  "\<forall>ra \<in> set ras. total_gen (rare_fn ra) \<Longrightarrow> yields (set_rare ras ctx a r) (\<lambda>_. True)"
proof (induction ras arbitrary: a r)
  case (Cons ra ras)
  then have "yields (rare_fn ra r ctx) (\<lambda>_. True)" by (simp add: total_gen_def)
  with Cons show ?case by (auto simp: split_beta Let_def elim!: yields_mono)
qed simp

lemma template_record_yields:
  assumes t: "template_ok t" and lt: "pred_option long_tail_ok lt"
  shows "yields (template_record G t lt ctx r) (\<lambda>(_, s, _). s = msg_severity t)"
proof -
  have f: "\<exists>b. sprintfSimple G [] (msg_format t) args = Some (b, b)" if "length args = length (msg_args t)" for args
    using that t sprintf_loop_panics [of 0 G args "msg_format t" "[]"]
    by (auto simp: template_ok_def sprintfSimple_def)
  have a: "yields (set_attrs (msg_attrs t) ctx a r) (\<lambda>_. True)" and ra: "yields (set_rare (msg_rare t) ctx a r) (\<lambda>_. True)"
    for a r using t by (auto simp: template_ok_def intro: set_attrs_yields set_rare_yields)
  have l: "yields (case lt of None \<Rightarrow> Some (a, r) | Some l \<Rightarrow> EmitLongTail l a r) (\<lambda>_. True)" for a r
    using lt emit_yields [of _ a r] by (cases lt) (auto intro: yields_mono)
  have g: "yields (gen_args (msg_args t) ctx r) (\<lambda>(vs, _). length vs = length (msg_args t))"
    using t by (intro gen_args_yields) (simp add: template_ok_def)
  from g obtain args r1 where ga: "gen_args (msg_args t) ctx r = Some (args, r1)" "length args = length (msg_args t)"
    by (auto simp: yields_ex)
  obtain b where "sprintfSimple G [] (msg_format t) args = Some (b, b)" using f [OF ga(2)] by blast
  then show ?thesis
    by (auto simp: template_record_def ga intro!: yields_mono [OF a] yields_mono [OF ra] yields_mono [OF l])
qed

lemma generate_yields:
  assumes "prepared_ok pp" and "app_messages (pp_profile pp) \<noteq> []"
  shows "yields (GenerateFromPreparedInto G pp ts ao ab bb r)
    (\<lambda>(_, s, _). s \<in> msg_severity ` set (app_messages (pp_profile pp)))"
proof -
  have c: "candidates pp sev \<noteq> []" "set (candidates pp sev) \<subseteq> set (app_messages (pp_profile pp))" for sev
    using assms by (auto simp: candidates_def Let_def prepared_ok_def take_eq_Nil2 dest: in_set_takeD)
  have t: "yields (template_record G t (pp_long_tail pp) ctx r') (\<lambda>(_, s, _). s = msg_severity t)"
    if "t \<in> set (candidates pp sev)" for t sev ctx r'
    using assms(1) c(2) [of sev] that by (intro template_record_yields) (auto simp: prepared_ok_def)
  have s: "yields (pickSeverityFromWeights (app_weights (pp_profile pp)) r) (\<lambda>_. True)"
    by (auto simp: pickSeverityFromWeights_def intro!: intn_yields)
  show ?thesis
    unfolding generate_eq yields_bind
    by (rule yields_mono [OF s]) (use c t in \<open>fastforce intro!: pick_yields elim!: yields_mono\<close>)
qed

text \<open>
  C8. A profile whose templates have enough operands for their formats, and whose operand and
  attribute generators never panic, generates a record from every state of the generator; its
  severity is that of one of the profile's messages.
\<close>

theorem generation_never_panics:
  assumes "profile_ok p" and "app_messages p \<noteq> []"
  shows "\<exists>body s a ab' bb' r'. GenerateFromPreparedInto G (OverrideSeverityWeights w (PrepareProfile p)) ts ao ab bb r =
      Some (body, s, a, ab', bb', r') \<and> s \<in> msg_severity ` set (app_messages p)"
proof -
  let ?pp = "OverrideSeverityWeights w (PrepareProfile p)"
  have m: "app_messages (pp_profile ?pp) = app_messages p" by (simp add: OverrideSeverityWeights_def)
  have "prepared_ok ?pp" using assms(1) by blast
  then have "yields (GenerateFromPreparedInto G ?pp ts ao ab bb r)
      (\<lambda>(_, s, _). s \<in> msg_severity ` set (app_messages p))"
    using generate_yields [of ?pp G ts ao ab bb r] assms(2) unfolding m by blast
  then show ?thesis unfolding yields_ex split_paired_Ex by blast
qed

lemma generation_never_panics_witness:
  "\<exists>body s a ab' bb' r'. GenerateFromPreparedInto sample_lib
      (OverrideSeverityWeights (0, 0, 0, 0, 0, 100) (PrepareProfile sample_profile)) zero_time [] [] [] (new_rng [7]) =
      Some (body, s, a, ab', bb', r') \<and> s = SevInfo"
  using generation_never_panics [of sample_profile sample_lib "(0, 0, 0, 0, 0, 100)" zero_time "[]" "[]" "[]" "new_rng [7]"]
  by (auto simp: profile_ok_def sample_profile_def sample_template_def template_ok_def total_gen_def verb_chars_def)

end
