(* ===== verification/ArgGens.thy ===== *)
theory ArgGens
  imports LogGen
begin

text \<open>
  The operand and attribute generators of \<open>internal/loggen/loggen.go\<close>. A generator that the
  source builds from a seed (\<open>ZipfianIP\<close>) is a function of the generator's state whose
  result is the new state and the closure over the values it drew. The collection
  \<open>gen_total\<close> holds, for each of them, that it never panics; \<open>gen_kind\<close> that it delivers texts,
  or numbers.
\<close>

named_theorems gen_total "generators that never panic"
named_theorems gen_kind "generators that deliver texts, or numbers"

record ip_pool_config =
  pool_cidrs :: "string list"
  pool_size :: int
  pool_skew :: f64

subsection \<open>Constant and uniform generators\<close>

definition Static :: "string \<Rightarrow> arg_gen" where
  "Static s = (\<lambda>r ctx. Some (AStr s, r))"

definition HTTPStatus :: "int \<Rightarrow> arg_gen" where
  "HTTPStatus status = (\<lambda>r ctx. Some (AInt status, r))"

definition Timestamp :: "golib \<Rightarrow> string \<Rightarrow> arg_gen" where
  "Timestamp G layout = (\<lambda>r ctx. Some (AStr (fmt_time_fn G layout (ctx_timestamp ctx)), r))"

definition RandomPath :: "string list \<Rightarrow> arg_gen" where
  "RandomPath paths = (\<lambda>r ctx. do { (s, r') \<leftarrow> pick paths r; Some (AStr s, r') })"

definition RandomFrom :: "string list \<Rightarrow> arg_gen" where
  "RandomFrom choices = (\<lambda>r ctx. do { (s, r') \<leftarrow> pick choices r; Some (AStr s, r') })"

definition RandomFromInt :: "int list \<Rightarrow> arg_gen" where
  "RandomFromInt choices = (\<lambda>r ctx. do { (n, r') \<leftarrow> pick choices r; Some (AInt n, r') })"

definition RandomPathWithSuffix :: "golib \<Rightarrow> string list \<Rightarrow> arg_gen \<Rightarrow> arg_gen" where
  "RandomPathWithSuffix G bases suffix_gen = (\<lambda>r ctx.
     do { (base, r1) \<leftarrow> pick bases r;
          (suffix, r2) \<leftarrow> suffix_gen r1 ctx;
          Some (AStr (base @ Sprintf G ''%v'' [suffix]), r2) })"

definition RandomInt :: "int \<Rightarrow> int \<Rightarrow> arg_gen" where
  "RandomInt lo hi = (\<lambda>r ctx. do { (n, r') \<leftarrow> intn (w64 (w64 (hi - lo) + 1)) r; Some (AInt (w64 (n + lo)), r') })"

definition RandomDuration :: "int \<Rightarrow> int \<Rightarrow> arg_gen" where
  "RandomDuration min_ms max_ms = (\<lambda>r ctx.
     do { (n, r') \<leftarrow> intn (w64 (w64 (max_ms - min_ms) + 1)) r; Some (AInt (w64 (n + min_ms)), r') })"

definition RandomID :: "int \<Rightarrow> arg_gen" where
  "RandomID n = (\<lambda>r ctx. do { (s, r') \<leftarrow> randomHexString n r; Some (AStr s, r') })"

definition user_agents :: "string list" where
  "user_agents =
     [''Mozilla/5.0 (Windows NT 10.0; Win64; x64) AppleWebKit/537.36 Chrome/120.0.0.0 Safari/537.36'',
      ''Mozilla/5.0 (Macintosh; Intel Mac OS X 10_15_7) AppleWebKit/537.36 Chrome/120.0.0.0 Safari/537.36'',
      ''Mozilla/5.0 (X11; Linux x86_64) AppleWebKit/537.36 Chrome/120.0.0.0 Safari/537.36'',
      ''curl/8.4.0'', ''kube-probe/1.28'', ''Prometheus/2.45.0'', ''Googlebot/2.1'', ''PostmanRuntime/7.32.3'']"

definition RandomUserAgent :: arg_gen where
  "RandomUserAgent = (\<lambda>r ctx. do { (s, r') \<leftarrow> pick user_agents r; Some (AStr s, r') })"

subsection \<open>Routes\<close>

text \<open>The type assertion on the identifier panics when it is not a string.\<close>

definition RouteWithRandomID :: "string list \<Rightarrow> arg_gen" where
  "RouteWithRandomID templates = (\<lambda>r ctx.
     do { (tpl, r1) \<leftarrow> pick templates r;
          (v, r2) \<leftarrow> RandomID 8 r1 ctx;
          ident \<leftarrow> (case v of AStr s \<Rightarrow> Some s | _ \<Rightarrow> None);
          Some (ARoute (replace_all tpl ''{id}'' ident) tpl, r2) })"

subsection \<open>Weighted generators\<close>

text \<open>\<open>for _, w := range weights { n -= w.weight; if n < 0 { return w.status } }\<close>\<close>

fun weighted_loop :: "int \<Rightarrow> ('a \<times> int) list \<Rightarrow> 'a option" where
  "weighted_loop n [] = None"
| "weighted_loop n ((v, w) # ws) = (if n - w < 0 then Some v else weighted_loop (n - w) ws)"

definition weight_total :: "('a \<times> int) list \<Rightarrow> int" where
  "weight_total ws = sum_list (map snd ws)"

definition status_weights :: "(int \<times> int) list" where
  "status_weights = [(200, 70), (201, 8), (301, 3), (304, 4), (400, 2), (404, 5), (500, 3), (502, 2), (503, 3)]"

definition RandomHTTPStatus :: arg_gen where
  "RandomHTTPStatus = (\<lambda>r ctx.
     do { (n, r') \<leftarrow> intn (weight_total status_weights) r;
          Some (AInt (case weighted_loop n status_weights of Some s \<Rightarrow> s | None \<Rightarrow> 200), r') })"

definition RandomBytes :: arg_gen where
  "RandomBytes = (\<lambda>r ctx.
     do { (n, r1) \<leftarrow> intn 100 r;
          if n < 10 then Some (AInt 0, r1)
          else if n < 25 then do { (k, r2) \<leftarrow> intn 100 r1; Some (AInt (k + 10), r2) }
          else if n < 60 then do { (k, r2) \<leftarrow> intn 2000 r1; Some (AInt (k + 100), r2) }
          else do { (k, r2) \<leftarrow> intn 50000 r1; Some (AInt (k + 2000), r2) } })"

definition LogNormalInt :: "golib \<Rightarrow> f64 \<Rightarrow> f64 \<Rightarrow> arg_gen" where
  "LogNormalInt G median sigma = (\<lambda>r ctx.
     let (z, r') = norm_fn G r; v = fmul median (exp_fn G (fmul sigma z))
     in Some (AInt (if flt v (Fin 0) then 0 else to_i64 (fround v)), r'))"

subsection \<open>Combinators\<close>

definition OptionalAttr :: "f64 \<Rightarrow> arg_gen \<Rightarrow> arg_gen" where
  "OptionalAttr probability gen = (\<lambda>r ctx.
     do { (v, r1) \<leftarrow> gen r ctx;
          let (x, r2) = float64_go r1;
          Some (if flt x probability then v else ANil, r2) })"

definition SliceAttr :: "arg_gen \<Rightarrow> int \<Rightarrow> int \<Rightarrow> arg_gen" where
  "SliceAttr elem_gen min_len max_len = (\<lambda>r ctx.
     do { (k, r1) \<leftarrow> intn (w64 (w64 (max_len - min_len) + 1)) r;
          let n = w64 (min_len + k);
          if n < 0 then None
          else do { (out, r2) \<leftarrow> repeat_go (nat n) (\<lambda>r. elem_gen r ctx) r1; Some (ASlice out, r2) } })"

subsection \<open>Identifiers\<close>

definition RandomUUID :: arg_gen where
  "RandomUUID = (\<lambda>r ctx.
     let (b0, r') = read_go 16 r;
         b1 = b0[6 := (b0 ! 6 AND 0x0f) OR 0x40];
         b = b1[8 := (b1 ! 8 AND 0x3f) OR 0x80];
         part = (\<lambda>i j. hex_encode (take (j - i) (drop i b)))
     in Some (AStr (part 0 4 @ ''-'' @ part 4 6 @ ''-'' @ part 6 8 @ ''-'' @ part 8 10 @ ''-'' @ part 10 16), r'))"

subsection \<open>Addresses in Zipfian shares\<close>

definition zipfSelectionSize :: nat where
  "zipfSelectionSize = 4096"

text \<open>\<open>rand.NewZipf\<close> is nil, and drawing from it panics, unless \<open>s > 1\<close> and \<open>v >= 1\<close>.\<close>

definition zipf_draw :: "golib \<Rightarrow> f64 \<Rightarrow> f64 \<Rightarrow> 64 word \<Rightarrow> rng \<Rightarrow> (64 word \<times> rng) option" where
  "zipf_draw G s v imax r = (if fle s (Fin 1) \<or> flt v (Fin 1) then None else Some (zipf_fn G s v imax r))"

definition ZipfianIP :: "golib \<Rightarrow> int \<Rightarrow> rng \<Rightarrow> ip_pool_config option \<Rightarrow> (arg_gen \<times> rng) option" where
  "ZipfianIP G size0 r cfg =
     (let cidrs = (case cfg of Some c \<Rightarrow> if pool_cidrs c \<noteq> [] then pool_cidrs c else [''10.0.0.0/8'']
                   | None \<Rightarrow> [''10.0.0.0/8'']);
          skew = (case cfg of Some c \<Rightarrow> if flt (Fin 1) (pool_skew c) then pool_skew c else rnd (3 / 2)
                  | None \<Rightarrow> rnd (3 / 2));
          size1 = (case cfg of Some c \<Rightarrow> if 0 < pool_size c then pool_size c else size0 | None \<Rightarrow> size0);
          size = (if size1 < 1 then 500 else size1)
      in do { (pool, r1) \<leftarrow> buildIPPool G r cidrs size;
              (selection, r2) \<leftarrow>
                repeat_go zipfSelectionSize
                  (\<lambda>r. do { (u, r') \<leftarrow> zipf_draw G skew (Fin 1) (word_of_int (size - 1)) r;
                            s \<leftarrow> nth_go pool (uint u);
                            Some (s, r') }) r1;
              Some (\<lambda>r ctx. do { (i, r') \<leftarrow> intn (int zipfSelectionSize) r;
                                 s \<leftarrow> nth_go selection i;
                                 Some (AStr s, r') }, r2) })"

subsection \<open>Generators that never panic\<close>

lemma total_genI: "(\<And>r ctx. yields (g r ctx) (\<lambda>_. True)) \<Longrightarrow> total_gen g"
  by (simp add: total_gen_def)

lemma total_genD: "total_gen g \<Longrightarrow> yields (g r ctx) (\<lambda>_. True)"
  by (simp add: total_gen_def)

lemma constant_total [gen_total]: "total_gen (Static s)" "total_gen (HTTPStatus n)" "total_gen (Timestamp G l)"
  by (simp_all add: total_gen_def Static_def HTTPStatus_def Timestamp_def)

lemma choice_total [gen_total]:
  "ss \<noteq> [] \<Longrightarrow> total_gen (RandomPath ss)" "ss \<noteq> [] \<Longrightarrow> total_gen (RandomFrom ss)"
  "ns \<noteq> [] \<Longrightarrow> total_gen (RandomFromInt ns)"
  by (auto simp: RandomPath_def RandomFrom_def RandomFromInt_def intro!: total_genI pick_yields)

lemma span_w64: "i64 lo \<Longrightarrow> lo \<le> hi \<Longrightarrow> hi - lo < 2 ^ 63 - 1 \<Longrightarrow> w64 (w64 (hi - lo) + 1) = hi - lo + 1"
  by (simp add: w64_id)

lemma range_total [gen_total]:
  "lo \<le> hi \<Longrightarrow> 0 \<le> lo \<Longrightarrow> hi < 2 ^ 62 \<Longrightarrow> total_gen (RandomInt lo hi)"
  "lo \<le> hi \<Longrightarrow> 0 \<le> lo \<Longrightarrow> hi < 2 ^ 62 \<Longrightarrow> total_gen (RandomDuration lo hi)"
  by (auto simp: RandomInt_def RandomDuration_def w64_id intro!: total_genI intn_yields)

lemma id_total [gen_total]: "0 \<le> n \<Longrightarrow> total_gen (RandomID n)"
  by (auto simp: RandomID_def intro!: total_genI hex_string_yields)

lemma agent_total [gen_total]: "total_gen RandomUserAgent"
  by (auto simp: RandomUserAgent_def user_agents_def intro!: total_genI pick_yields)

lemma route_total [gen_total]: "ts \<noteq> [] \<Longrightarrow> total_gen (RouteWithRandomID ts)"
  by (auto simp: RouteWithRandomID_def RandomID_def intro!: total_genI pick_yields hex_string_yields)

lemma status_total [gen_total]: "total_gen RandomHTTPStatus"
  by (auto simp: RandomHTTPStatus_def weight_total_def status_weights_def intro!: total_genI intn_yields)

lemma bytes_total [gen_total]: "total_gen RandomBytes"
  by (auto simp: RandomBytes_def intro!: total_genI intn_yields)

lemma log_normal_total [gen_total]: "total_gen (LogNormalInt G m s)"
  by (auto simp: LogNormalInt_def split_beta Let_def intro!: total_genI)

lemma uuid_total [gen_total]: "total_gen RandomUUID"
  by (auto simp: RandomUUID_def split_beta Let_def intro!: total_genI)

lemma optional_total [gen_total]: "total_gen g \<Longrightarrow> total_gen (OptionalAttr p g)"
  unfolding OptionalAttr_def
  by (rule total_genI) (auto simp: split_beta Let_def intro!: yields_mono [OF total_genD])

lemma suffix_total [gen_total]: "bs \<noteq> [] \<Longrightarrow> total_gen g \<Longrightarrow> total_gen (RandomPathWithSuffix G bs g)"
  unfolding RandomPathWithSuffix_def
  by (rule total_genI) (auto intro!: pick_yields yields_mono [OF total_genD])

lemma slice_total [gen_total]:
  "total_gen g \<Longrightarrow> 0 \<le> lo \<Longrightarrow> lo \<le> hi \<Longrightarrow> hi < 2 ^ 62 \<Longrightarrow> total_gen (SliceAttr g lo hi)"
  unfolding SliceAttr_def
  by (rule total_genI)
    (auto simp: w64_id intro!: intn_yields yields_mono [OF repeat_go_total] dest: total_genD)

subsection \<open>Generators of texts and of numbers\<close>

lemma deliversI: "(\<And>r ctx v r'. g r ctx = Some (v, r') \<Longrightarrow> P v) \<Longrightarrow> delivers P g"
  unfolding delivers_def by (fastforce simp: option.pred_set)

lemma text_gens [gen_kind]:
  "delivers is_text (Static s)" "delivers is_text (Timestamp G l)" "delivers is_text (RandomPath ss)"
  "delivers is_text (RandomFrom ss)" "delivers is_text (RandomID n)" "delivers is_text RandomUserAgent"
  "delivers is_text (RouteWithRandomID ss)" "delivers is_text RandomUUID" "delivers is_text (RandomPathWithSuffix G ss g)"
  by (rule deliversI, auto simp: Static_def Timestamp_def RandomPath_def RandomFrom_def RandomID_def RandomUserAgent_def
      RouteWithRandomID_def RandomUUID_def RandomPathWithSuffix_def Let_def split: bind_splits prod.splits any.splits)+

lemma number_gens [gen_kind]:
  "delivers is_number (HTTPStatus n)" "delivers is_number (RandomFromInt ns)" "delivers is_number (RandomInt lo hi)"
  "delivers is_number (RandomDuration lo hi)" "delivers is_number RandomHTTPStatus" "delivers is_number RandomBytes"
  "delivers is_number (LogNormalInt G m s)"
  by (rule deliversI, auto simp: HTTPStatus_def RandomFromInt_def RandomInt_def RandomDuration_def RandomHTTPStatus_def
      RandomBytes_def LogNormalInt_def Let_def split: bind_splits prod.splits if_splits)+

text \<open>A generator of texts that never panics.\<close>

definition text_total :: "arg_gen \<Rightarrow> bool" where
  "text_total g \<longleftrightarrow> total_gen g \<and> delivers is_text g"

lemma text_totalD:
  "text_total g \<Longrightarrow> total_gen g" "text_total g \<Longrightarrow> delivers is_text g"
  by (simp_all add: text_total_def)

lemma text_total_Static: "text_total (Static s)"
  by (simp add: text_total_def constant_total text_gens)

subsection \<open>The shape of a UUID\<close>

lemma uuid_version: "drop_bit 4 ((x AND 0x0f) OR 0x40 :: 8 word) = 4"
  by (simp add: drop_bit_or drop_bit_and)

lemma uuid_variant: "drop_bit 4 ((x AND 0x3f) OR 0x80 :: 8 word) \<in> {8, 9, 10, 11}"
proof -
  have "uint (drop_bit 4 x AND 3) \<le> 3" "0 \<le> uint (drop_bit 4 x AND 3)"
    by (simp_all add: uint_and AND_upper2)
  then consider "uint (drop_bit 4 x AND 3) = 0" | "uint (drop_bit 4 x AND 3) = 1"
    | "uint (drop_bit 4 x AND 3) = 2" | "uint (drop_bit 4 x AND 3) = 3" by linarith
  then have "drop_bit 4 x AND 3 \<in> {0, 1, 2, 3}"
    by cases (metis insertI1 insertI2 word_of_int_uint word_of_int_0 word_of_int_1 word_of_int_numeral)+
  moreover have "drop_bit 4 ((x AND 0x3f) OR 0x80) = (drop_bit 4 x AND 3) OR 8"
    by (simp add: drop_bit_or drop_bit_and)
  ultimately show ?thesis by auto
qed

definition hex_digits :: "char set" where
  "hex_digits = set ''0123456789abcdef''"

lemma digit_char_hex: "d < 16 \<Longrightarrow> digit_char d \<in> hex_digits"
proof -
  have "hex_digits = set (map digit_char [0..<16])" unfolding hex_digits_def by code_simp
  then show "d < 16 \<Longrightarrow> digit_char d \<in> hex_digits" by auto
qed

lemma hex_encode_digits: "set (hex_encode bs) \<subseteq> hex_digits"
proof -
  have "unat b < 256" for b :: "8 word" by (rule order_less_le_trans [OF unsigned_less]) simp
  then have "unat b div 16 < 16" for b :: "8 word" by (simp add: div_less_iff_less_mult)
  then show ?thesis by (auto simp: hex_encode_def intro!: digit_char_hex)
qed

text \<open>The groups of a UUID of version 4.\<close>

definition uuid_v4 :: "string \<Rightarrow> bool" where
  "uuid_v4 s \<longleftrightarrow> (\<exists>p q u v w. s = p @ ''-'' @ q @ ''-'' @ u @ ''-'' @ v @ ''-'' @ w \<and>
     map length [p, q, u, v, w] = [8, 4, 4, 4, 12] \<and> set (p @ q @ u @ v @ w) \<subseteq> hex_digits \<and>
     hd u = CHR ''4'' \<and> hd v \<in> {CHR ''8'', CHR ''9'', CHR ''a'', CHR ''b''})"

lemma uuid_v4I:
  "map length [p, q, u, v, w] = [8, 4, 4, 4, 12] \<Longrightarrow> set (p @ q @ u @ v @ w) \<subseteq> hex_digits \<Longrightarrow>
   hd u = CHR ''4'' \<Longrightarrow> hd v \<in> {CHR ''8'', CHR ''9'', CHR ''a'', CHR ''b''} \<Longrightarrow>
   uuid_v4 (p @ ''-'' @ q @ ''-'' @ u @ ''-'' @ v @ ''-'' @ w)"
  unfolding uuid_v4_def
  by (rule exI [of _ p], rule exI [of _ q], rule exI [of _ u], rule exI [of _ v], rule exI [of _ w]) (intro conjI refl)

lemma hex_encode_hd: "hex_encode (b # bs) = digit_char (unat (drop_bit 4 b)) # digit_char (unat b mod 16) # hex_encode bs"
  by (simp add: hex_encode_def unat_drop_bit_eq drop_bit_eq_div unat_div_distrib)

text \<open>
  A generated UUID has the layout of version 4: 36 characters, dashes at the four places,
  hexadecimal digits elsewhere, the version digit 4 and one of the four variant digits; it
  takes exactly 16 bytes from the generator.
\<close>

theorem uuid_is_v4: "\<exists>s. RandomUUID r ctx = Some (AStr s, snd (read_go 16 r)) \<and> uuid_v4 s"
proof -
  define b0 where "b0 = fst (read_go 16 r)"
  define b1 where "b1 = b0[6 := (b0 ! 6 AND 0x0f) OR 0x40]"
  define b where "b = b1[8 := (b1 ! 8 AND 0x3f) OR 0x80]"
  have l: "length b = 16" "length b0 = 16" by (simp_all add: b_def b1_def b0_def read_go_length)
  then have 6: "b ! 6 = (b0 ! 6 AND 0x0f) OR 0x40" and 8: "b ! 8 = (b1 ! 8 AND 0x3f) OR 0x80"
    by (simp_all add: b_def b1_def)
  let ?part = "\<lambda>i j. hex_encode (take (j - i) (drop i b))"
  have hd: "hd (hex_encode (take 2 (drop i b))) = digit_char (unat (drop_bit 4 (b ! i)))" if "i < 16" for i
    using that l by (simp add: Cons_nth_drop_Suc [symmetric] hex_encode_hd)
  have "hd (?part 6 8) = CHR ''4''"
    using hd [of 6] uuid_version [of "b0 ! 6"] by (simp add: 6)
  moreover have "hd (?part 8 10) \<in> {CHR ''8'', CHR ''9'', CHR ''a'', CHR ''b''}"
    using hd [of 8] uuid_variant [of "b1 ! 8"] by (auto simp: 8)
  moreover have "map length [?part 0 4, ?part 4 6, ?part 6 8, ?part 8 10, ?part 10 16] = [8, 4, 4, 4, 12]"
    using l by simp
  moreover have "set (?part 0 4 @ ?part 4 6 @ ?part 6 8 @ ?part 8 10 @ ?part 10 16) \<subseteq> hex_digits"
    using hex_encode_digits by simp
  ultimately have "uuid_v4 (?part 0 4 @ ''-'' @ ?part 4 6 @ ''-'' @ ?part 6 8 @ ''-'' @ ?part 8 10 @ ''-'' @ ?part 10 16)"
    by (intro uuid_v4I)
  then show ?thesis
    unfolding RandomUUID_def split_beta Let_def b_def b1_def b0_def by blast
qed

subsection \<open>Zipfian selection stays in the pool\<close>

lemma zipf_draw_range:
  assumes "zipf_ok G" "flt (Fin 1) skew" "1 \<le> n" "n < 2 ^ 63"
  shows "yields (zipf_draw G skew (Fin 1) (word_of_int (n - 1)) r) (\<lambda>(u, _). uint u < n)"
proof -
  have "fst (zipf_fn G skew (Fin 1) (word_of_int (n - 1)) r) \<le> word_of_int (n - 1)"
    using assms(1) by (simp add: zipf_ok_def)
  moreover have "uint (word_of_int m :: 64 word) = m" if "0 \<le> m" "m < 2 ^ 63" for m
    using that by (simp add: uint_word_of_int)
  then have "uint (word_of_int (n - 1) :: 64 word) = n - 1" using assms(3,4) by (simp del: of_int_diff of_int_1)
  ultimately have "uint (fst (zipf_fn G skew (Fin 1) (word_of_int (n - 1)) r)) \<le> n - 1"
    by (simp add: word_le_def)
  moreover have "\<not> fle skew (Fin 1)" using assms(2) by (cases skew) simp_all
  ultimately show ?thesis by (simp add: zipf_draw_def split_beta)
qed

lemma zipf_draw_yields:
  assumes "zipf_ok G" "flt (Fin 1) skew" "1 \<le> n" "n < 2 ^ 63" "int (length pool) = n"
  shows "yields (do { (u, r') \<leftarrow> zipf_draw G skew (Fin 1) (word_of_int (n - 1)) r; s \<leftarrow> nth_go pool (uint u); Some (s, r') })
    (\<lambda>(s, _). s \<in> set pool)"
  unfolding yields_bind
  by (rule yields_mono [OF zipf_draw_range [OF assms(1-4)]]) (use assms(5) in \<open>auto intro!: nth_go_yields\<close>)

text \<open>A closure over a pool: it never panics, and delivers texts of the pool.\<close>

definition draws_from :: "string list \<Rightarrow> arg_gen \<Rightarrow> bool" where
  "draws_from pool g \<longleftrightarrow> (\<forall>r ctx. yields (g r ctx) (\<lambda>(v, _). \<exists>s \<in> set pool. v = AStr s))"

lemma draws_from_total: "draws_from pool g \<Longrightarrow> total_gen g"
  unfolding draws_from_def by (rule total_genI) (blast intro: yields_mono)

lemma draws_from_text: "draws_from pool g \<Longrightarrow> text_total g"
  unfolding text_total_def
proof (intro conjI deliversI)
  assume g: "draws_from pool g"
  then show "total_gen g" by (rule draws_from_total)
  show "is_text v" if "g r ctx = Some (v, r')" for r ctx v r'
    using g [unfolded draws_from_def, rule_format, of r ctx] that by auto
qed

lemma draws_from_select:
  assumes "length sel = n" "0 < n" "set sel \<subseteq> set pool"
  shows "draws_from pool (\<lambda>r ctx. do { (i, r') \<leftarrow> intn (int n) r; s \<leftarrow> nth_go sel i; Some (AStr s, r') })"
  using assms by (auto simp: draws_from_def intro!: intn_yields nth_go_yields)

text \<open>The networks in force: those configured, or 10.0.0.0/8.\<close>

definition networks :: "ip_pool_config option \<Rightarrow> string list" where
  "networks cfg = (case cfg of Some c \<Rightarrow> if pool_cidrs c \<noteq> [] then pool_cidrs c else [''10.0.0.0/8'']
     | None \<Rightarrow> [''10.0.0.0/8''])"

definition in_networks :: "golib \<Rightarrow> string list \<Rightarrow> string \<Rightarrow> bool" where
  "in_networks G cidrs s \<longleftrightarrow> (\<exists>rg \<in> set (cidr_ranges G cidrs). \<exists>a. s = ip_string a \<and> in_range rg a)"

lemma three_halves: "flt (Fin 1) (rnd (3 / 2))"
proof -
  have "rnd_pos (of_int 3 * 2 powi (- 1)) = of_int 3 * 2 powi (- 1)" by (rule rnd_pos_exact) simp_all
  then have "rnd_rat (3 / 2) = 3 / 2" by (simp add: rnd_rat_def)
  moreover have "(3 / 2 :: rat) < fbound"
    unfolding fbound_def by (rule less_le_trans [of _ "2 ^ 1"]) (simp, rule power_increasing, simp_all)
  then have "\<not> fbound \<le> 3 / 2" and "\<not> 3 / 2 \<le> - fbound" by linarith+
  ultimately show ?thesis by (simp add: rnd_def)
qed

lemma zipfian_yields:
  assumes G: "zipf_ok G" and cidrs: "\<forall>c \<in> set (networks cfg). host_cidr G c"
    and i: "i64 n0" "pred_option (\<lambda>c. i64 (pool_size c)) cfg"
  shows "yields (ZipfianIP G n0 r cfg) (\<lambda>(g, _). \<exists>pool. draws_from pool g \<and> (\<forall>s \<in> set pool. in_networks G (networks cfg) s))"
proof -
  define skew where "skew = (case cfg of Some c \<Rightarrow> if flt (Fin 1) (pool_skew c) then pool_skew c else rnd (3 / 2)
    | None \<Rightarrow> rnd (3 / 2))"
  define n where "n = (let n1 = (case cfg of Some c \<Rightarrow> if 0 < pool_size c then pool_size c else n0 | None \<Rightarrow> n0)
    in if n1 < 1 then 500 else n1)"
  have skew: "flt (Fin 1) skew" using three_halves by (simp add: skew_def split: option.splits)
  have n: "1 \<le> n" "n < 2 ^ 63" using i by (auto simp: n_def Let_def i64_def split: option.splits)
  define draw where "draw pool = (\<lambda>r. do { (u, r') \<leftarrow> zipf_draw G skew (Fin 1) (word_of_int (n - 1)) r;
    s \<leftarrow> nth_go pool (uint u); Some (s, r') })" for pool :: "string list"
  define closure where "closure sel = (\<lambda>r (ctx :: gen_context). do { (i, r') \<leftarrow> intn (int zipfSelectionSize) r;
    s \<leftarrow> nth_go sel i; Some (AStr s, r') })" for sel :: "string list"
  have z: "ZipfianIP G n0 r cfg =
      do { (pool, r1) \<leftarrow> buildIPPool G r (networks cfg) n;
           (sel, r2) \<leftarrow> repeat_go zipfSelectionSize (draw pool) r1;
           Some (closure sel, r2) }"
    unfolding ZipfianIP_def Let_def networks_def skew_def n_def draw_def closure_def ..
  have d: "yields (repeat_go zipfSelectionSize (draw pool) r1)
      (\<lambda>(sel, _). length sel = zipfSelectionSize \<and> (\<forall>s \<in> set sel. s \<in> set pool))" if "int (length pool) = n" for pool r1
    by (rule repeat_go_yields) (unfold draw_def, rule zipf_draw_yields [OF G skew n that])
  have c: "draws_from pool (closure sel)" if "length sel = zipfSelectionSize" "set sel \<subseteq> set pool" for sel pool
    unfolding closure_def using that by (intro draws_from_select) (auto simp: zipfSelectionSize_def)
  have p: "yields (buildIPPool G r (networks cfg) n)
      (\<lambda>(pool, _). length pool = nat n \<and> (\<forall>s \<in> set pool. in_networks G (networks cfg) s))"
    using n build_pool_yields [OF _ host_cidr_ranges [OF cidrs]] by (simp add: in_networks_def)
  show ?thesis
    unfolding z yields_bind
  proof (rule yields_mono [OF p])
    fix x :: "string list \<times> rng" assume x: "case x of (pool, _) \<Rightarrow> length pool = nat n \<and> (\<forall>s \<in> set pool. in_networks G (networks cfg) s)"
    obtain pool r1 where e: "x = (pool, r1)" by (cases x)
    have "int (length pool) = n" and i: "\<forall>s \<in> set pool. in_networks G (networks cfg) s" using x n by (auto simp: e)
    note dp = d [OF this(1), of r1]
    show "yields (case x of (pool, r1) \<Rightarrow> do { (sel, r2) \<leftarrow> repeat_go zipfSelectionSize (draw pool) r1; Some (closure sel, r2) })
        (\<lambda>(g, _). \<exists>pool. draws_from pool g \<and> (\<forall>s \<in> set pool. in_networks G (networks cfg) s))"
      using i c [of _ pool] by (auto simp: e intro!: yields_mono [OF dp] exI [of _ pool])
  qed
qed

text \<open>
  C34. The generator of client addresses can be built from any networks in dotted notation with
  prefixes of at most 31 bits, it never panics, and every address it delivers lies in one of the
  networks. The Zipfian index is within the pool because the variates are at most the bound
  that \<open>NewZipf\<close> is given.
\<close>

theorem zipfian_ip_in_networks:
  assumes "zipf_ok G" and "\<forall>c \<in> set (networks cfg). host_cidr G c"
    and "i64 n0" and "pred_option (\<lambda>c. i64 (pool_size c)) cfg"
  shows "\<exists>g r'. ZipfianIP G n0 r cfg = Some (g, r') \<and>
    (\<forall>r ctx. \<exists>s r'. g r ctx = Some (AStr s, r') \<and> in_networks G (networks cfg) s)"
proof -
  obtain g r' pool where g: "ZipfianIP G n0 r cfg = Some (g, r')" "draws_from pool g"
    "\<forall>s \<in> set pool. in_networks G (networks cfg) s"
    using zipfian_yields [OF assms, of r] by (auto simp: yields_ex)
  have "\<exists>s r'. g r ctx = Some (AStr s, r') \<and> in_networks G (networks cfg) s" for r ctx
    using g(2,3) by (fastforce simp: draws_from_def yields_ex)
  with g(1) show ?thesis by blast
qed

lemma zipfian_ip_in_networks_witness:
  "\<exists>g r'. ZipfianIP sample_lib 5000 (new_rng [3]) None = Some (g, r') \<and>
     (\<forall>r ctx. \<exists>s r'. g r ctx = Some (AStr s, r') \<and> in_networks sample_lib (networks None) s)"
  by (rule zipfian_ip_in_networks) (simp_all add: sample_lib_ok networks_def host_cidr_10 i64_def)

end
