(* ===== verification/Builder.thy ===== *)
theory Builder
  imports LongTail
begin

text \<open>
  Building a text with a \<open>strings.Builder\<close> (\<open>internal/loggen/traces.go\<close>,
  \<open>crosscutting.go\<close>). A statement that writes is a function of the builder's contents and
  the generator's state; \<open>write_all\<close> runs statements one after the other. The loop
  \<open>for b.Len() < targetLen { ... }\<close> is the partial function \<open>fill_until\<close>: it may not end,
  and then has no value.

  \<open>adds lo hi w\<close> says that the statement \<open>w\<close> never panics and appends between \<open>lo\<close> and
  \<open>hi\<close> bytes. The collection \<open>adds_intro\<close> has a rule for every primitive statement and for
  sequences. The locale \<open>line_builder\<close> is the interface between the loops and their
  bodies: a body that appends at least one byte makes its loop end, with a text that is at
  least as long as the target and exceeds it by at most one round.
\<close>

named_theorems adds_intro "how much a statement appends"

type_synonym writer = "string \<Rightarrow> rng \<Rightarrow> (string \<times> rng) option"

subsection \<open>Statements\<close>

definition write_str :: "string \<Rightarrow> writer" where
  "write_str s b r = Some (b @ s, r)"

text \<open>\<open>b.WriteString(xs[r.Intn(len(xs))])\<close>\<close>

definition write_pick :: "string list \<Rightarrow> writer" where
  "write_pick xs b r = do { (s, r') \<leftarrow> pick xs r; Some (b @ s, r') }"

text \<open>\<open>b.WriteString(strconv.Itoa(r.Intn(n) + k))\<close>\<close>

definition write_int :: "int \<Rightarrow> int \<Rightarrow> writer" where
  "write_int n k b r = do { (i, r') \<leftarrow> intn n r; Some (b @ itoa (i + k), r') }"

text \<open>\<open>b.WriteString(strconv.FormatInt(int64(r.Intn(n) + k), 16))\<close>\<close>

definition write_int_hex :: "int \<Rightarrow> int \<Rightarrow> writer" where
  "write_int_hex n k b r = do { (i, r') \<leftarrow> intn n r; Some (b @ fmt_int 16 (i + k), r') }"

text \<open>\<open>b.WriteString(strconv.FormatUint(r.Uint64() & m, 16))\<close>\<close>

definition write_hex :: "64 word \<Rightarrow> writer" where
  "write_hex m b r = (let (w, r') = uint64_go r in Some (b @ fmt_nat 16 (unat (w AND m)), r'))"

text \<open>\<open>for i := range id { id[i] = hexChars[r.Intn(16)] }; b.Write(id)\<close>\<close>

definition write_id :: "int \<Rightarrow> writer" where
  "write_id n b r = do { (s, r') \<leftarrow> randomHexString n r; Some (b @ s, r') }"

text \<open>\<open>b.Grow(n)\<close> panics for a negative \<open>n\<close>.\<close>

definition grow :: "int \<Rightarrow> writer" where
  "grow n b r = (if n < 0 then None else Some (b, r))"

text \<open>\<open>if b.Len() > n { b.WriteByte(',') }\<close>\<close>

definition comma_after :: "int \<Rightarrow> writer" where
  "comma_after n b r = Some (if n < int (length b) then b @ '','' else b, r)"

fun write_all :: "writer list \<Rightarrow> writer" where
  "write_all [] b r = Some (b, r)"
| "write_all (w # ws) b r = do { (b', r') \<leftarrow> w b r; write_all ws b' r' }"

subsection \<open>Loops\<close>

partial_function (option) fill_until :: "int \<Rightarrow> writer \<Rightarrow> string \<Rightarrow> rng \<Rightarrow> (string \<times> rng) option" where
  "fill_until target body b r =
     (if int (length b) < target then do { (b', r') \<leftarrow> body b r; fill_until target body b' r' }
      else Some (b, r))"

text \<open>\<open>for i := ...; i < frames && b.Len() < targetLen; i++ { ... }\<close>, with \<open>n\<close> rounds to go.\<close>

primrec fill_frames :: "nat \<Rightarrow> int \<Rightarrow> int \<Rightarrow> (int \<Rightarrow> writer) \<Rightarrow> string \<Rightarrow> rng \<Rightarrow> (string \<times> rng) option" where
  "fill_frames 0 i target body b r = Some (b, r)"
| "fill_frames (Suc n) i target body b r =
     (if int (length b) < target
      then do { (b', r') \<leftarrow> body i b r; fill_frames n (i + 1) target body b' r' }
      else Some (b, r))"

subsection \<open>How much is appended\<close>

definition adds :: "nat \<Rightarrow> nat \<Rightarrow> writer \<Rightarrow> bool" where
  "adds lo hi w \<longleftrightarrow> (\<forall>b r. yields (w b r) (\<lambda>(b', _). \<exists>s. b' = b @ s \<and> lo \<le> length s \<and> length s \<le> hi))"

lemma adds_weaken: "adds lo hi w \<Longrightarrow> lo' \<le> lo \<Longrightarrow> hi \<le> hi' \<Longrightarrow> adds lo' hi' w"
  unfolding adds_def by (fastforce elim!: yields_mono)

lemma adds_write [adds_intro]: "adds (length s) (length s) (write_str s)"
  by (simp add: adds_def write_str_def)

lemma adds_grow [adds_intro]: "0 \<le> n \<Longrightarrow> adds 0 0 (grow n)"
  by (simp add: adds_def grow_def)

lemma adds_pick [adds_intro]:
  "xs \<noteq> [] \<Longrightarrow> adds (Min (set (map length xs))) (Max (set (map length xs))) (write_pick xs)"
  by (auto simp: adds_def write_pick_def intro!: pick_yields)

lemma fmt_nat_length_pos: "1 \<le> length (fmt_nat b n)"
  by (subst fmt_nat.simps) simp

lemma fmt_nat_length_mono: "2 \<le> b \<Longrightarrow> m \<le> n \<Longrightarrow> length (fmt_nat b m) \<le> length (fmt_nat b n)"
proof (induction n arbitrary: m rule: less_induct)
  case (less n)
  show ?case
  proof (cases "m < b")
    case True
    then show ?thesis using fmt_nat_length_pos [of b n] by (subst fmt_nat.simps) simp
  next
    case False
    then have "length (fmt_nat b (m div b)) \<le> length (fmt_nat b (n div b))"
      using less.prems by (intro less.IH div_le_mono) (auto intro: div_less_dividend)
    with False less.prems show ?thesis by (subst (1 2) fmt_nat.simps) simp
  qed
qed

lemma fmt_int_length:
  "2 \<le> b \<Longrightarrow> 0 \<le> i \<Longrightarrow> i \<le> j \<Longrightarrow> 1 \<le> length (fmt_int b i) \<and> length (fmt_int b i) \<le> length (fmt_int b j)"
  using fmt_nat_length_mono [of b "nat i" "nat j"] fmt_nat_length_pos [of b "nat i"] by (simp add: fmt_int_def)

lemma fmt_int_length_pos: "Suc 0 \<le> length (fmt_int b i)"
  using fmt_nat_length_pos [of b] by (simp add: fmt_int_def)

lemma adds_int [adds_intro]: "0 < n \<Longrightarrow> 0 \<le> k \<Longrightarrow> adds 1 (length (itoa (n + k - 1))) (write_int n k)"
  using fmt_int_length [of 10] fmt_int_length_pos by (auto simp: adds_def write_int_def intro!: intn_yields)

lemma adds_int_hex [adds_intro]:
  "0 < n \<Longrightarrow> 0 \<le> k \<Longrightarrow> adds 1 (length (fmt_int 16 (n + k - 1))) (write_int_hex n k)"
  using fmt_int_length [of 16] fmt_int_length_pos by (auto simp: adds_def write_int_hex_def intro!: intn_yields)

lemma adds_hex [adds_intro]: "adds 1 (length (fmt_nat 16 (unat m))) (write_hex m)"
proof -
  have "unat (w AND m) \<le> unat m" for w :: "64 word"
    by (metis AND_upper2 uint_and uint_lt_0 linorder_not_less nat_mono unat_eq_nat_uint)
  from fmt_nat_length_mono [OF _ this] show ?thesis
    using fmt_nat_length_pos by (auto simp: adds_def write_hex_def split_beta)
qed

lemma adds_id [adds_intro]: "0 \<le> n \<Longrightarrow> adds (nat n) (nat n) (write_id n)"
  by (auto simp: adds_def write_id_def intro!: hex_string_yields)

lemma adds_comma [adds_intro]: "adds 0 1 (comma_after n)"
  by (simp add: adds_def comma_after_def)

lemma adds_Nil [adds_intro]: "adds 0 0 (write_all [])"
  by (simp add: adds_def)

lemma adds_Cons [adds_intro]:
  assumes "adds lo hi w" "adds lo' hi' (write_all ws)"
  shows "adds (lo + lo') (hi + hi') (write_all (w # ws))"
  unfolding adds_def
proof (intro allI)
  fix b r
  show "yields (write_all (w # ws) b r) (\<lambda>(b', _). \<exists>s. b' = b @ s \<and> lo + lo' \<le> length s \<and> length s \<le> hi + hi')"
    using assms unfolding adds_def write_all.simps yields_bind
    by (auto intro!: yields_mono [OF assms(1) [unfolded adds_def, rule_format]]
        yields_mono [OF assms(2) [unfolded adds_def, rule_format]])
qed

text \<open>Statements that depend on a draw made before them, and using what is known of a statement.\<close>

lemma adds_pick_then:
  assumes "\<And>x. x \<in> set xs \<Longrightarrow> adds lo hi (w x)" and "xs \<noteq> []"
  shows "adds lo hi (\<lambda>b r. do { (x, r') \<leftarrow> pick xs r; w x b r' })"
  using assms unfolding adds_def by (auto intro!: pick_yields)

lemma adds_intn_then:
  assumes "\<And>i. 0 \<le> i \<Longrightarrow> i < n \<Longrightarrow> adds lo hi (w i)" and "0 < n"
  shows "adds lo hi (\<lambda>b r. do { (i, r') \<leftarrow> intn n r; w i b r' })"
  using assms unfolding adds_def by (auto intro!: intn_yields)

lemma adds_yields:
  assumes "adds lo hi w" and "\<And>s r'. lo \<le> length s \<Longrightarrow> length s \<le> hi \<Longrightarrow> Q (b @ s, r')"
  shows "yields (w b r) Q"
  using assms unfolding adds_def by (fastforce elim!: yields_mono)

subsection \<open>Loops end\<close>

locale line_builder =
  fixes body :: writer and lo hi :: nat
  assumes grows: "adds lo hi body" and progress: "0 < lo"
begin

lemma round: "yields (body b r) (\<lambda>(b', _). \<exists>s. b' = b @ s \<and> length b < length b' \<and> length s \<le> hi)"
  using grows progress unfolding adds_def by (fastforce elim!: yields_mono)

lemma fill_until_total:
  "yields (fill_until target body b r) (\<lambda>(b', _). (\<exists>s. b' = b @ s) \<and> target \<le> int (length b') \<and>
     (int (length b) < target \<longrightarrow> int (length b') < target + int hi) \<and> (target \<le> int (length b) \<longrightarrow> b' = b))"
proof (induction "nat (target - int (length b))" arbitrary: b r rule: less_induct)
  case less
  show ?case
  proof (cases "int (length b) < target")
    case False
    then show ?thesis by (simp add: fill_until.simps)
  next
    case True
    have "yields (fill_until target body b' r')
        (\<lambda>(b'', _). (\<exists>s. b'' = b @ s) \<and> target \<le> int (length b'') \<and> int (length b'') < target + int hi)"
      if b': "b' = b @ s" "length b < length b'" "length s \<le> hi" for b' r' s
    proof (rule yields_mono [OF less])
      show "nat (target - int (length b')) < nat (target - int (length b))" using b'(2) True by simp
    qed (use b' True in auto)
    with True show ?thesis
      by (subst fill_until.simps) (auto intro!: yields_mono [OF round])
  qed
qed

lemma fill_until_yields:
  assumes "\<And>s r'. target \<le> int (length (b @ s)) \<Longrightarrow> int (length (b @ s)) \<le> max (target + int hi) (int (length b)) \<Longrightarrow> Q (b @ s, r')"
  shows "yields (fill_until target body b r) Q"
  by (rule yields_mono [OF fill_until_total]) (use assms in \<open>force simp: not_less\<close>)

end

lemma fill_frames_total:
  "(\<And>j. i \<le> j \<Longrightarrow> j < i + int n \<Longrightarrow> adds lo hi (body j)) \<Longrightarrow>
   yields (fill_frames n i target body b r) (\<lambda>(b', _). (\<exists>s. b' = b @ s) \<and>
     int (length b') \<le> max (target + int hi) (int (length b)))"
proof (induction n arbitrary: i b r)
  case (Suc n)
  have "yields (fill_frames n (i + 1) target body (b @ s) r')
      (\<lambda>(b'', _). (\<exists>s. b'' = b @ s) \<and> int (length b'') \<le> max (target + int hi) (int (length b)))"
    if "int (length b) < target" "length s \<le> hi" for s r'
    by (rule yields_mono [OF Suc.IH]) (use that Suc.prems in auto)
  then show ?case
    by (auto intro!: adds_yields [OF Suc.prems])
qed simp

lemma fill_frames_yields:
  assumes "\<And>j. 0 \<le> j \<Longrightarrow> j < int n \<Longrightarrow> adds lo hi (body j)"
    and "\<And>s r'. int (length (b @ s)) \<le> max (target + int hi) (int (length b)) \<Longrightarrow> Q (b @ s, r')"
  shows "yields (fill_frames n 0 target body b r) Q"
  by (rule yields_mono [OF fill_frames_total [of 0]]) (use assms in force)+

subsection \<open>Items separated by commas\<close>

fun join_commas :: "string list \<Rightarrow> string" where
  "join_commas [] = []"
| "join_commas [s] = s"
| "join_commas (s # ss) = s @ '','' @ join_commas ss"

lemma join_commas_snoc: "ss \<noteq> [] \<Longrightarrow> join_commas (ss @ [s]) = join_commas ss @ '','' @ s"
  by (induction ss rule: join_commas.induct) simp_all

text \<open>
  A loop writes a comma before an item when the text is already longer than \<open>limit\<close>. This
  separates the items exactly when the text before the first one is not longer than \<open>limit\<close>
  and with one item it is.
\<close>

definition writes_item :: "writer \<Rightarrow> string \<Rightarrow> bool" where
  "writes_item item s \<longleftrightarrow> (\<exists>b r r'. item b r = Some (b @ s, r'))"

definition item_round :: "nat \<Rightarrow> writer \<Rightarrow> writer" where
  "item_round limit item b r = do { (b', r') \<leftarrow> comma_after (int limit) b r; item b' r' }"

lemma item_round_adds: "adds lo hi item \<Longrightarrow> adds lo (Suc hi) (item_round limit item)"
  unfolding adds_def item_round_def comma_after_def by (fastforce elim!: yields_mono)

locale separated_items =
  fixes item :: writer and lo hi limit :: nat
  assumes item_adds: "adds lo hi item" and item_progress: "0 < lo"
begin

lemma item_yields: "yields (item b r) (\<lambda>(b', _). \<exists>s. b' = b @ s \<and> writes_item item s \<and> lo \<le> length s)"
proof -
  obtain s r' where "item b r = Some (b @ s, r')" "lo \<le> length s"
    using item_adds unfolding adds_def by (fastforce simp: yields_ex)
  then show ?thesis by (auto simp: writes_item_def)
qed

lemma items_from:
  "length head \<le> limit \<Longrightarrow> limit < length head + lo \<Longrightarrow> b = head @ join_commas items \<Longrightarrow>
   items = [] \<or> limit < length b \<Longrightarrow> \<forall>s \<in> set items. writes_item item s \<Longrightarrow>
   yields (fill_until target (item_round limit item) b r) (\<lambda>(b', _). \<exists>items'. b' = head @ join_commas (items @ items') \<and>
     (\<forall>s \<in> set items'. writes_item item s))"
proof (induction "nat (target - int (length b))" arbitrary: b items r rule: less_induct)
  case less
  show ?case
  proof (cases "int (length b) < target")
    case False
    then show ?thesis using less.prems by (auto simp: fill_until.simps intro!: exI [of _ "[]"])
  next
    case True
    define c where "c = (if limit < length b then b @ '','' else b)"
    have step: "yields (fill_until target (item_round limit item) (c @ s) r') (\<lambda>(b', _). \<exists>items'. b' = head @ join_commas (items @ items') \<and>
        (\<forall>s \<in> set items'. writes_item item s))" if s: "writes_item item s" "lo \<le> length s" for s r'
    proof -
      have l: "limit < length head \<longleftrightarrow> False" using less.prems(1) by simp
      have c: "c @ s = head @ join_commas (items @ [s])"
        using less.prems(3,4) l by (cases "items = []") (auto simp: c_def join_commas_snoc)
      have g: "length b < length (c @ s)" using s(2) item_progress by (auto simp: c_def)
      have "limit < length (c @ s)"
        using less.prems(2-4) s(2) by (auto simp: c_def)
      then have "yields (fill_until target (item_round limit item) (c @ s) r') (\<lambda>(b', _).
          \<exists>items'. b' = head @ join_commas ((items @ [s]) @ items') \<and> (\<forall>s \<in> set items'. writes_item item s))"
        using less.prems(1,2,5) c g True s(1) by (intro less.hyps) auto
      then show ?thesis
      proof (rule yields_mono)
        fix x assume "case x of (b', _) \<Rightarrow> \<exists>items'. b' = head @ join_commas ((items @ [s]) @ items') \<and>
          (\<forall>s \<in> set items'. writes_item item s)"
        then obtain items' where "fst x = head @ join_commas (items @ (s # items'))" "\<forall>s \<in> set items'. writes_item item s"
          by (cases x) auto
        then show "case x of (b', _) \<Rightarrow> \<exists>items'. b' = head @ join_commas (items @ items') \<and>
            (\<forall>s \<in> set items'. writes_item item s)"
          using s(1) by (cases x) (auto intro!: exI [of _ "s # items'"])
      qed
    qed
    show ?thesis
      using True step by (subst fill_until.simps)
        (auto simp: item_round_def comma_after_def c_def intro!: yields_mono [OF item_yields] split: if_splits)
  qed
qed

lemma separated:
  assumes "length head \<le> limit" and "limit < length head + lo"
  shows "yields (fill_until target (item_round limit item) head r) (\<lambda>(b', _). \<exists>items. b' = head @ join_commas items \<and> (\<forall>s \<in> set items. writes_item item s))"
  using items_from [of head head "[]"] assms by simp

end

end
