(* ===== verification/Traces.thy ===== *)
theory Traces
  imports Builder ArgGens
begin

text \<open>
  The texts of several lines (\<open>internal/loggen/traces.go\<close>): stack traces, crash reports, error
  output and payloads, each built up to a target length, and the generators that choose from a
  pool of 100 of them.
\<close>

definition tab :: string where
  "tab = [CHR 0x09]"

subsection \<open>Tables\<close>

definition goStackPackages :: "string list" where
  "goStackPackages = [''main'', ''net/http'', ''runtime'', ''encoding/json'', ''database/sql'',
     ''github.com/gin-gonic/gin'', ''go.opentelemetry.io/otel'', ''internal/handler'',
     ''server'', ''db'', ''cache'', ''worker'', ''grpc/client'']"

definition goStackFiles :: "string list" where
  "goStackFiles = [''handler.go'', ''server.go'', ''main.go'', ''query.go'', ''connection.go'',
     ''client.go'', ''processor.go'', ''middleware.go'', ''router.go'', ''context.go'']"

definition goStackFuncs :: "string list" where
  "goStackFuncs = [''(*Handler).ServeHTTP'', ''(*Server).ListenAndServe'', ''main.main'',
     ''(*DB).Query'', ''(*Conn).Exec'', ''(*Client).Call'', ''(*Processor).Run'',
     ''(*Middleware).Handle'', ''(*Router).ServeHTTP'', ''(*Context).Next'']"

definition javaStackPackages :: "string list" where
  "javaStackPackages = [''com.example.service'', ''com.example.controller'', ''org.springframework'',
     ''java.util'', ''java.lang'', ''io.netty'', ''org.hibernate'', ''com.fasterxml.jackson'']"

definition javaStackClasses :: "string list" where
  "javaStackClasses = [''UserService'', ''OrderController'', ''RestTemplate'', ''HttpClient'',
     ''TransactionManager'', ''EntityManager'', ''ObjectMapper'', ''HandlerAdapter'']"

definition javaStackMethods :: "string list" where
  "javaStackMethods = [''getUser'', ''handle'', ''execute'', ''process'', ''invoke'', ''doFilter'',
     ''findById'', ''save'', ''serialize'', ''deserialize'']"

definition javaStackFiles :: "string list" where
  "javaStackFiles = [''userservice'', ''ordercontroller'', ''resttemplate'', ''httpclient'',
     ''transactionmanager'', ''entitymanager'', ''objectmapper'', ''handleradapter'']"

definition nginxErrorMsgs :: "string list" where
  \<open>nginxErrorMsgs =
     [''upstream prematurely closed connection while reading response header'',
      ''recv() failed (104: Connection reset by peer) while reading upstream'',
      ''send() failed (111: Connection refused) while sending to upstream'',
      ''SSL_do_handshake() failed (SSL: error:0A0C0103:SSL routines::internal error)'',
      ''open() "/var/cache/nginx/proxy/7/00/0000000007" failed (13: Permission denied)'']\<close>

definition mysqlDBNames :: "string list" where
  "mysqlDBNames = [''orders'', ''users'', ''products'', ''analytics'', ''auth'', ''main'']"

definition mysqlUsers :: "string list" where
  "mysqlUsers = [''app_user'', ''replicator'', ''admin'', ''root'', ''migration'']"

definition mysqlTables :: "string list" where
  "mysqlTables = [''users'', ''orders'', ''products'', ''sessions'', ''audit_log'']"

definition mysqlColumns :: "string list" where
  "mysqlColumns = [''id'', ''user_id'', ''email'', ''status'', ''created_at'']"

definition redisVersions :: "string list" where
  "redisVersions = [''7.2.4'', ''7.0.12'', ''6.2.6'']"

definition tracePoolSize :: nat where
  "tracePoolSize = 100"

subsection \<open>Go and Java stack traces\<close>

definition go_frame :: writer where
  "go_frame b r =
     do { (pkg, r1) \<leftarrow> pick goStackPackages r;
          write_all [write_str pkg, write_str ''.'', write_pick goStackFuncs, write_str ''(0x'', write_hex (of_nat 0xffffffff),
            write_str ('')\<newline>'' @ tab @ ''/app/''), write_str pkg, write_str ''/'', write_pick goStackFiles,
            write_str '':'', write_int 200 1, write_str '' +0x'', write_int_hex 0x2000 0x100, write_str ''\<newline>''] b r1 }"

definition go_head :: writer where
  "go_head = write_all [write_str ''goroutine '', write_int 100 1, write_str '' [running]:\<newline>'']"

definition buildGoStackTrace :: "int \<Rightarrow> rng \<Rightarrow> (string \<times> rng) option" where
  "buildGoStackTrace target_len r =
     do { (b0, r0) \<leftarrow> grow (w64 (target_len + 512)) [] r;
          (b, r1) \<leftarrow> go_head b0 r0;
          (k, r2) \<leftarrow> intn 80 r1;
          fill_frames (nat (8 + k)) 0 target_len (\<lambda>i. go_frame) b r2 }"

definition java_frame :: writer where
  "java_frame = write_all [write_str (tab @ ''at ''), write_pick javaStackPackages, write_str ''.'', write_pick javaStackClasses,
     write_str ''.'', write_pick javaStackMethods, write_str ''('', write_pick javaStackFiles, write_str ''.java:'',
     write_int 200 1, write_str '')\<newline>'']"

definition java_head :: writer where
  "java_head = write_all
     [write_pick [''RuntimeException'', ''NullPointerException'', ''IOException'', ''SQLException''], write_str '': '',
      write_pick [''Connection timeout'', ''null pointer'', ''connection refused'', ''deadline exceeded''],
      write_str ''\<newline>'']"

definition buildJavaStackTrace :: "int \<Rightarrow> rng \<Rightarrow> (string \<times> rng) option" where
  "buildJavaStackTrace target_len r =
     do { (b0, r0) \<leftarrow> grow (w64 (target_len + 512)) [] r;
          (b, r1) \<leftarrow> java_head b0 r0;
          (k, r2) \<leftarrow> intn 80 r1;
          fill_frames (nat (10 + k)) 0 target_len (\<lambda>i. java_frame) b r2 }"

subsection \<open>MySQL\<close>

definition mysql_trx_round :: writer where
  "mysql_trx_round = write_all [write_str ''---TRANSACTION '', write_int 90000 10000, write_str '', ACTIVE '', write_int 10 0,
     write_str '' sec\<newline>mysql tables in use 1, locked 1\<newline>'', write_int 3 1, write_str '' lock struct(s)\<newline>'']"

definition mysql_crash_head :: "string \<Rightarrow> string \<Rightarrow> string \<Rightarrow> writer" where
  "mysql_crash_head trx1 trx2 table = write_all
    [write_str ''*** (1) TRANSACTION:\<newline>TRANSACTION '', write_str trx1, write_str '', ACTIVE '',
    write_int 30 1, write_str '' sec starting index read\<newline>mysql tables in use 1, locked 1\<newline>LOCK WAIT '',
    write_int 5 1, write_str '' lock struct(s), heap size '', write_int 2000 500, write_str '', '', write_int 100 1,
    write_str '' row lock(s)\<newline>MySQL thread id '', write_int 99999 1, write_str '', OS thread handle 0x'',
    write_hex (of_nat 0xffffffff), write_str '', query id '', write_int 999999 1, write_str ''\<newline>UPDATE '',
    write_str table,
    write_str '' SET status = %s WHERE id = %s\<newline>*** (2) WAITING FOR THIS LOCK TO BE GRANTED:\<newline>RECORD LOCKS space id '',
    write_int 100 1, write_str '' page no '', write_int 100 1, write_str '' n bits '', write_int 64 8,
    write_str '' index PRIMARY of table `'', write_pick mysqlDBNames, write_str ''`.`'', write_str table,
    write_str ''`\<newline>*** (2) TRANSACTION:\<newline>TRANSACTION '', write_str trx2, write_str '', ACTIVE '',
    write_int 20 1, write_str '' sec fetching rows\<newline>*** WE ROLL BACK TRANSACTION (1)\<newline>'']"

definition buildMySQLCrashTrace :: "int \<Rightarrow> rng \<Rightarrow> (string \<times> rng) option" where
  "buildMySQLCrashTrace target_len r =
     do { (b0, r0) \<leftarrow> grow (w64 (target_len + 512)) [] r;
          (t1, r1) \<leftarrow> intn 90000 r0;
          (t2, r2) \<leftarrow> intn 90000 r1;
          (table, r3) \<leftarrow> pick mysqlTables r2;
          (b, r4) \<leftarrow> mysql_crash_head (itoa (t1 + 10000)) (itoa (t2 + 10000)) table b0 r3;
          fill_until target_len mysql_trx_round b r4 }"

definition explain_rule :: string where
  "explain_rule = ''+----+-------------+-------+------+---------------+------+---------+------+------+----------+\<newline>''"

definition explain_row :: "string \<Rightarrow> writer" where
  "explain_row table = write_all [write_str ''| '', write_int 5 1, write_str '' | SIMPLE       | '', write_str table,
     write_str ''   | ALL  | NULL          | NULL | NULL    | NULL | '', write_int 100000 100, write_str ''   |          |\<newline>'']"

definition explain_head :: "string \<Rightarrow> writer" where
  "explain_head table = write_all
     [write_str ''EXPLAIN SELECT * FROM '', write_str table,
      write_str ('' WHERE id = %s\<newline>'' @ explain_rule @
        ''| id | select_type | table | type | possible_keys | key  | key_len | ref  | rows | Extra    |\<newline>'' @
        explain_rule)]"

definition buildSQLExplainPlan :: "int \<Rightarrow> rng \<Rightarrow> (string \<times> rng) option" where
  "buildSQLExplainPlan target_len r =
     do { (b0, r0) \<leftarrow> grow (w64 (target_len + 256)) [] r;
          (table, r1) \<leftarrow> pick mysqlTables r0;
          (b1, r2) \<leftarrow> explain_head table b0 r1;
          (b2, r3) \<leftarrow> fill_until target_len (explain_row table) b1 r2;
          write_str explain_rule b2 r3 }"

subsection \<open>nginx\<close>

definition nginx_line :: "string \<Rightarrow> string \<Rightarrow> int \<Rightarrow> writer" where
  "nginx_line pid tid conn_base = write_all
     [write_str ''2024/01/15 12:00:00 [error] '', write_str pid, write_str ''#'', write_str tid, write_str '': *'',
      write_int 100 conn_base, write_str '' '', write_pick nginxErrorMsgs, write_str ''\<newline>'']"

definition buildNginxErrorDetails :: "int \<Rightarrow> rng \<Rightarrow> (string \<times> rng) option" where
  "buildNginxErrorDetails target_len r =
     do { (b0, r0) \<leftarrow> grow (w64 (target_len + 512)) [] r;
          (p, r1) \<leftarrow> intn 99999 r0;
          (t, r2) \<leftarrow> intn 2 r1;
          (c, r3) \<leftarrow> intn 89999 r2;
          fill_until target_len (nginx_line (itoa (p + 1)) (itoa t) (c + 10000)) b0 r3 }"

subsection \<open>JSON payloads\<close>

definition json_object :: writer where
  \<open>json_object = write_all [write_str ''{"id":"'', write_id 8, write_str ''","name":"product-'', write_int 10000 0,
     write_str ''","price":'', write_int 500 10, write_str ''}'']\<close>

definition buildLargeJSONPayload :: "int \<Rightarrow> rng \<Rightarrow> (string \<times> rng) option" where
  \<open>buildLargeJSONPayload target_len r =
     do { (b0, r0) \<leftarrow> write_all [grow (w64 (target_len + 256)), write_str ''{"items":['' ] [] r;
          (b1, r1) \<leftarrow> fill_until target_len (item_round 20 json_object) b0 r0;
          write_str '']}'' b1 r1 }\<close>

subsection \<open>Redis\<close>

definition redis_entry :: writer where
  \<open>redis_entry = write_all
     [write_int 100 1, write_str '') 1) (integer) '', write_int 999 0, write_str ''\<newline>   2) (integer) '', write_int 999999 0,
      write_str ''\<newline>   3) (integer) '', write_int 50000 0, write_str ''\<newline>   4) 1) "'',
      write_pick [''GET'', ''SET'', ''HGETALL'', ''LRANGE'', ''SMEMBERS'', ''ZRANGE''], write_str ''"\<newline>      2) "'',
      write_id 12, write_str ''"\<newline>'']\<close>

definition buildRedisSlowlogOutput :: "int \<Rightarrow> rng \<Rightarrow> (string \<times> rng) option" where
  "buildRedisSlowlogOutput target_len r =
     do { (b, r1) \<leftarrow> grow (w64 (target_len + 256)) [] r; fill_until target_len redis_entry b r1 }"

definition redis_frame :: "int \<Rightarrow> writer" where
  "redis_frame i = write_all [write_str ''#'', write_str (itoa i), write_str '' 0x'', write_hex (of_nat 0xffffffff),
     write_str '' in ?? () from /usr/lib/redis/redis-server\<newline>'']"

definition redis_thread :: writer where
  "redis_thread = write_all [write_str ''Thread '', write_int 20 0, write_str '': 0x'', write_hex (of_nat 0xffffffff),
     write_str ''\<newline>'']"

definition redis_crash_head :: "string \<Rightarrow> writer" where
  "redis_crash_head pid = write_all
     [write_str ''=== REDIS BUG REPORT START: Cut & paste starting from here ===\<newline>Redis version: '',
      write_pick redisVersions, write_str ''\<newline>Redis pid:'', write_str pid,
      write_str ''\<newline>OS:Linux 5.15.0 x86_64\<newline>Uptime: 0.0 sec\<newline>Fatal signal: 11 (SIGSEGV) at 0x'',
      write_hex (of_nat 0xffffffff), write_str '', pid '', write_str pid, write_str '', tid '',
      write_int 99999 1, write_str ''\<newline>Backtrace:\<newline>'']"

definition redis_crash_end :: string where
  "redis_crash_end = ''=== REDIS BUG REPORT END. PLEASE INCLUDE EVERYTHING ABOVE ===\<newline>''"

definition buildRedisCrashReport :: "int \<Rightarrow> rng \<Rightarrow> (string \<times> rng) option" where
  "buildRedisCrashReport target_len r =
     do { (b0, r0) \<leftarrow> grow (w64 (target_len + 512)) [] r;
          (p, r1) \<leftarrow> intn 99999 r0;
          (b1, r2) \<leftarrow> redis_crash_head (itoa (p + 1)) b0 r1;
          (k, r3) \<leftarrow> intn 25 r2;
          (b2, r4) \<leftarrow> fill_frames (nat (15 + k)) 0 target_len redis_frame b1 r3;
          (b3, r5) \<leftarrow> write_str redis_crash_end b2 r4;
          fill_until target_len redis_thread b3 r5 }"

subsection \<open>Generators over a pool of texts\<close>

text \<open>The common body of the constructors below, for the builder of one text.\<close>

definition text_pool :: "(int \<Rightarrow> rng \<Rightarrow> (string \<times> rng) option) \<Rightarrow> int \<Rightarrow> int \<Rightarrow> rng \<Rightarrow> (arg_gen \<times> rng) option" where
  "text_pool build min_bytes max_bytes r =
     do { (pool, r1) \<leftarrow> repeat_go tracePoolSize
            (\<lambda>r. do { (k, r') \<leftarrow> intn (w64 (w64 (max_bytes - min_bytes) + 1)) r; build (w64 (k + min_bytes)) r' }) r;
          Some (\<lambda>r ctx. do { (s, r') \<leftarrow> pick pool r; Some (AStr s, r') }, r1) }"

definition GoStackTrace :: "int \<Rightarrow> int \<Rightarrow> rng \<Rightarrow> (arg_gen \<times> rng) option" where
  "GoStackTrace = text_pool buildGoStackTrace"

definition JavaStackTrace :: "int \<Rightarrow> int \<Rightarrow> rng \<Rightarrow> (arg_gen \<times> rng) option" where
  "JavaStackTrace = text_pool buildJavaStackTrace"

definition MySQLCrashTrace :: "int \<Rightarrow> int \<Rightarrow> rng \<Rightarrow> (arg_gen \<times> rng) option" where
  "MySQLCrashTrace = text_pool buildMySQLCrashTrace"

definition NginxErrorDetails :: "int \<Rightarrow> int \<Rightarrow> rng \<Rightarrow> (arg_gen \<times> rng) option" where
  "NginxErrorDetails = text_pool buildNginxErrorDetails"

definition LargeJSONPayload :: "int \<Rightarrow> int \<Rightarrow> rng \<Rightarrow> (arg_gen \<times> rng) option" where
  "LargeJSONPayload = text_pool buildLargeJSONPayload"

definition SQLExplainPlan :: "int \<Rightarrow> int \<Rightarrow> rng \<Rightarrow> (arg_gen \<times> rng) option" where
  "SQLExplainPlan = text_pool buildSQLExplainPlan"

definition RedisSlowlogOutput :: "int \<Rightarrow> int \<Rightarrow> rng \<Rightarrow> (arg_gen \<times> rng) option" where
  "RedisSlowlogOutput = text_pool buildRedisSlowlogOutput"

definition RedisCrashReport :: "int \<Rightarrow> int \<Rightarrow> rng \<Rightarrow> (arg_gen \<times> rng) option" where
  "RedisCrashReport = text_pool buildRedisCrashReport"

subsection \<open>The rounds of the loops\<close>

lemmas trace_tables = goStackPackages_def goStackFiles_def goStackFuncs_def javaStackPackages_def javaStackClasses_def
  javaStackMethods_def javaStackFiles_def nginxErrorMsgs_def mysqlDBNames_def mysqlTables_def redisVersions_def tab_def

lemmas digits_eval = fmt_int_def fmt_nat.simps

lemma mysql_trx_adds: "adds 80 84 mysql_trx_round"
  unfolding mysql_trx_round_def
  by (rule adds_weaken, (rule adds_intro | (simp; fail))+) (simp_all add: digits_eval)

lemma java_frame_adds: "adds 48 87 java_frame"
  unfolding java_frame_def trace_tables
  by (rule adds_weaken, (rule adds_intro | (simp; fail))+) (simp_all add: digits_eval)

lemma go_frame_rest: "adds (38 + 2 * length pkg) (71 + 2 * length pkg)
    (write_all [write_str pkg, write_str ''.'', write_pick goStackFuncs, write_str ''(0x'', write_hex (of_nat 0xffffffff),
      write_str ('')\<newline>'' @ tab @ ''/app/''), write_str pkg, write_str ''/'', write_pick goStackFiles,
      write_str '':'', write_int 200 1, write_str '' +0x'', write_int_hex 0x2000 0x100, write_str ''\<newline>''])"
  unfolding trace_tables
  by (rule adds_weaken, (rule adds_intro | (simp; fail))+) (simp_all add: digits_eval)

lemma go_frame_adds: "adds 42 119 go_frame"
  unfolding go_frame_def
proof (rule adds_pick_then)
  fix pkg assume "pkg \<in> set goStackPackages"
  then have "2 \<le> length pkg" "length pkg \<le> 24" by (auto simp: goStackPackages_def)
  then show "adds 42 119 (write_all [write_str pkg, write_str ''.'', write_pick goStackFuncs, write_str ''(0x'',
        write_hex (of_nat 0xffffffff), write_str ('')\<newline>'' @ tab @ ''/app/''), write_str pkg, write_str ''/'',
        write_pick goStackFiles, write_str '':'', write_int 200 1, write_str '' +0x'', write_int_hex 0x2000 0x100,
        write_str ''\<newline>''])"
    by (intro adds_weaken [OF go_frame_rest]) simp_all
qed (simp add: goStackPackages_def)

lemma explain_row_adds: "length table \<le> 9 \<Longrightarrow> adds 90 104 (explain_row table)"
  unfolding explain_row_def
  by (rule adds_weaken, (rule adds_intro | (simp; fail))+) (simp_all add: digits_eval)

lemma nginx_line_adds:
  assumes "1 \<le> length pid" "length pid \<le> 5" "1 \<le> length tid" "length tid \<le> 1" "0 \<le> c" "c < 99999"
  shows "adds 99 125 (nginx_line pid tid c)"
proof -
  have "length (itoa (100 + c - 1)) \<le> 6"
    using assms fmt_int_length [of 10 "100 + c - 1" 100097] by (simp add: digits_eval)
  then show ?thesis
    using assms unfolding nginx_line_def trace_tables
    by (intro adds_weaken [OF adds_Cons [OF adds_write adds_Cons [OF adds_write adds_Cons [OF adds_write adds_Cons [OF adds_write
        adds_Cons [OF adds_write adds_Cons [OF adds_int adds_Cons [OF adds_write adds_Cons [OF adds_pick
        adds_Cons [OF adds_write adds_Nil]]]]]]]]]]) simp_all
qed

lemma json_object_adds: "adds 46 51 json_object"
  unfolding json_object_def
  by (rule adds_weaken, (rule adds_intro | (simp; fail))+) (simp_all add: digits_eval)

lemma redis_entry_adds: "adds 93 111 redis_entry"
  unfolding redis_entry_def
  by (rule adds_weaken, (rule adds_intro | (simp; fail))+) (simp_all add: digits_eval)

lemma redis_thread_adds: "adds 14 22 redis_thread"
  unfolding redis_thread_def
  by (rule adds_weaken, (rule adds_intro | (simp; fail))+) (simp_all add: digits_eval)

interpretation json_lines: line_builder "item_round 20 json_object" 46 52
  using item_round_adds [OF json_object_adds, of 20] by unfold_locales simp_all

interpretation mysql_trx: line_builder mysql_trx_round 80 84
  by unfold_locales (simp_all add: mysql_trx_adds)

interpretation redis_log: line_builder redis_entry 93 111
  by unfold_locales (simp_all add: redis_entry_adds)

interpretation redis_threads: line_builder redis_thread 14 22
  by unfold_locales (simp_all add: redis_thread_adds)

interpretation json_items: separated_items json_object 46 51 20
  by unfold_locales (simp_all add: json_object_adds)

subsection \<open>The headers\<close>

lemma itoa_length: "0 \<le> i \<Longrightarrow> i \<le> j \<Longrightarrow> length (itoa j) = n \<Longrightarrow> 1 \<le> length (itoa i) \<and> length (itoa i) \<le> n"
  using fmt_int_length [of 10 i j] by simp

lemma mysql_crash_head_adds:
  "length trx1 \<le> 5 \<Longrightarrow> length trx2 \<le> 5 \<Longrightarrow> length table \<le> 9 \<Longrightarrow> adds 460 522 (mysql_crash_head trx1 trx2 table)"
  unfolding mysql_crash_head_def trace_tables
  by (rule adds_weaken, (rule adds_intro | (simp; fail))+) (simp_all add: digits_eval)

lemma explain_head_adds: "length table \<le> 9 \<Longrightarrow> adds 315 328 (explain_head table)"
  unfolding explain_head_def explain_rule_def
  by (rule adds_weaken, (rule adds_intro | (simp; fail))+)

lemma redis_crash_head_adds: "length pid \<le> 5 \<Longrightarrow> adds 190 214 (redis_crash_head pid)"
  unfolding redis_crash_head_def trace_tables
  by (rule adds_weaken, (rule adds_intro | (simp; fail))+) (simp_all add: digits_eval)

lemma redis_frame_adds:
  assumes "0 \<le> i" "i < 40" shows "adds 47 57 (redis_frame i)"
proof -
  have "length (itoa i) \<le> 2" using itoa_length [of i 39 2] assms by (simp add: digits_eval)
  moreover have "adds (47 + length (itoa i)) (55 + length (itoa i)) (redis_frame i)"
    unfolding redis_frame_def
    by (rule adds_weaken, (rule adds_intro | (simp; fail))+) (simp_all add: fmt_nat.simps)
  ultimately show ?thesis by (auto elim: adds_weaken)
qed

lemma go_head_adds: "adds 23 25 go_head"
  unfolding go_head_def
  by (rule adds_weaken, (rule adds_intro | (simp; fail))+) (simp_all add: digits_eval)

lemma java_head_adds: "adds 26 41 java_head"
  unfolding java_head_def
  by (rule adds_weaken, (rule adds_intro | (simp; fail))+)

lemma grow_adds: "- 256 \<le> t \<Longrightarrow> t \<le> 2 ^ 62 \<Longrightarrow> k \<in> {256, 512} \<Longrightarrow> adds 0 0 (grow (w64 (t + k)))"
  by (auto intro!: adds_grow simp: w64_id)

subsection \<open>The builders return\<close>

lemma table_lengths: "table \<in> set mysqlTables \<Longrightarrow> length table \<le> 9"
  by (auto simp: mysqlTables_def)

lemma explain_lines: "length table \<le> 9 \<Longrightarrow> line_builder (explain_row table) 90 104"
  by unfold_locales (simp_all add: explain_row_adds)

lemma nginx_lines:
  assumes "0 \<le> p" "p < 99999" "0 \<le> t" "t < 2" "0 \<le> c" "c < 89999"
  shows "line_builder (nginx_line (itoa (p + 1)) (itoa t) (c + 10000)) 99 125"
proof unfold_locales
  have "1 \<le> length (itoa (p + 1)) \<and> length (itoa (p + 1)) \<le> 5"
    by (rule itoa_length [of _ 99999]) (use assms in \<open>simp_all add: digits_eval\<close>)
  moreover have "1 \<le> length (itoa t) \<and> length (itoa t) \<le> 1"
    by (rule itoa_length [of _ 9]) (use assms in \<open>simp_all add: digits_eval\<close>)
  ultimately show "adds 99 125 (nginx_line (itoa (p + 1)) (itoa t) (c + 10000))"
    using assms by (intro nginx_line_adds) auto
qed simp

definition build_size :: "(int \<Rightarrow> rng \<Rightarrow> (string \<times> rng) option) \<Rightarrow> int \<Rightarrow> (int \<Rightarrow> int) \<Rightarrow> (int \<Rightarrow> int) \<Rightarrow> bool" where
  "build_size build lo least most \<longleftrightarrow> (\<forall>t r. lo \<le> t \<longrightarrow> t \<le> 2 ^ 62 \<longrightarrow>
     yields (build t r) (\<lambda>(s, _). least t \<le> int (length s) \<and> int (length s) \<le> most t))"

lemma build_sizeI:
  assumes "\<And>t r. lo \<le> t \<Longrightarrow> t \<le> 2 ^ 62 \<Longrightarrow> yields (build t r) (\<lambda>(s, _). least t \<le> int (length s) \<and> int (length s) \<le> most t)"
  shows "build_size build lo least most"
  using assms by (simp add: build_size_def)

lemma itoa_5 [simp]:
  "0 \<le> i \<Longrightarrow> i < 90000 \<Longrightarrow> length (itoa (i + 10000)) \<le> 5"
  "0 \<le> i \<Longrightarrow> i < 99999 \<Longrightarrow> length (itoa (i + 1)) \<le> 5"
  using itoa_length [of "i + 10000" 99999 5] itoa_length [of "i + 1" 99999 5] by (simp_all add: digits_eval)

lemma build_sizeD:
  "build_size build lo least most \<Longrightarrow> lo \<le> t \<Longrightarrow> t \<le> 2 ^ 62 \<Longrightarrow>
   yields (build t r) (\<lambda>(s, _). least t \<le> int (length s) \<and> int (length s) \<le> most t)"
  by (simp add: build_size_def)

lemma mysql_crash_size: "build_size buildMySQLCrashTrace (- 256) (\<lambda>t. t) (\<lambda>t. max (t + 84) 522)"
  by (rule build_sizeI, unfold buildMySQLCrashTrace_def yields_bind)
    (auto intro!: adds_yields [OF grow_adds] adds_yields [OF mysql_crash_head_adds] intn_yields pick_yields
      mysql_trx.fill_until_yields table_lengths simp: mysqlTables_def)

lemma explain_size: "build_size buildSQLExplainPlan (- 256) (\<lambda>t. t + 94) (\<lambda>t. max (t + 198) 422)"
  by (rule build_sizeI, unfold buildSQLExplainPlan_def yields_bind)
    (auto intro!: adds_yields [OF grow_adds] adds_yields [OF explain_head_adds] intn_yields pick_yields
      line_builder.fill_until_yields [OF explain_lines] table_lengths simp: mysqlTables_def explain_rule_def write_str_def)

lemma nginx_size: "build_size buildNginxErrorDetails (- 256) (\<lambda>t. t) (\<lambda>t. max (t + 125) 0)"
  by (rule build_sizeI, unfold buildNginxErrorDetails_def yields_bind)
    (auto intro!: adds_yields [OF grow_adds] intn_yields pick_yields line_builder.fill_until_yields [OF nginx_lines])

lemma slowlog_size: "build_size buildRedisSlowlogOutput (- 256) (\<lambda>t. t) (\<lambda>t. max (t + 111) 0)"
  by (rule build_sizeI, unfold buildRedisSlowlogOutput_def yields_bind)
    (auto intro!: adds_yields [OF grow_adds] redis_log.fill_until_yields)

lemma redis_crash_size: "build_size buildRedisCrashReport (- 256) (\<lambda>t. t) (\<lambda>t. max (t + 119) 276)"
  by (rule build_sizeI, unfold buildRedisCrashReport_def yields_bind)
    (auto intro!: adds_yields [OF grow_adds] adds_yields [OF redis_crash_head_adds] intn_yields
      fill_frames_yields [OF redis_frame_adds] redis_threads.fill_until_yields simp: write_str_def redis_crash_end_def)

lemma go_trace_size: "build_size buildGoStackTrace (- 256) (\<lambda>t. 23) (\<lambda>t. max (t + 119) 25)"
  by (rule build_sizeI, unfold buildGoStackTrace_def yields_bind)
    (auto intro!: adds_yields [OF grow_adds] adds_yields [OF go_head_adds] intn_yields
      fill_frames_yields [OF go_frame_adds])

lemma java_trace_size: "build_size buildJavaStackTrace (- 256) (\<lambda>t. 26) (\<lambda>t. max (t + 87) 41)"
  by (rule build_sizeI, unfold buildJavaStackTrace_def yields_bind)
    (auto intro!: adds_yields [OF grow_adds] adds_yields [OF java_head_adds] intn_yields
      fill_frames_yields [OF java_frame_adds])

lemma json_payload_size: "build_size buildLargeJSONPayload (- 256) (\<lambda>t. t + 2) (\<lambda>t. max (t + 54) 12)"
  by (rule build_sizeI, unfold buildLargeJSONPayload_def yields_bind write_all.simps)
    (auto intro!: adds_yields [OF grow_adds] json_lines.fill_until_yields simp: write_str_def)

text \<open>
  C36. Each of the six builders whose loop runs until the text is long enough returns for every
  requested length and every state of the generator: its texts are at least as long as
  requested, and longer by at most one round of the loop and the closing line, or as long as
  the fixed header when that exceeds the request. The two builders of stack traces stop at the
  number of frames drawn, so only the upper bound holds for them.
\<close>

theorem builders_reach_target:
  assumes "- 256 \<le> t" and "t \<le> 2 ^ 62"
  shows "yields (buildMySQLCrashTrace t r) (\<lambda>(s, _). t \<le> int (length s) \<and> int (length s) \<le> max (t + 84) 522) \<and>
    yields (buildSQLExplainPlan t r) (\<lambda>(s, _). t + 94 \<le> int (length s) \<and> int (length s) \<le> max (t + 198) 422) \<and>
    yields (buildNginxErrorDetails t r) (\<lambda>(s, _). t \<le> int (length s) \<and> int (length s) \<le> max (t + 125) 0) \<and>
    yields (buildLargeJSONPayload t r) (\<lambda>(s, _). t + 2 \<le> int (length s) \<and> int (length s) \<le> max (t + 54) 12) \<and>
    yields (buildRedisSlowlogOutput t r) (\<lambda>(s, _). t \<le> int (length s) \<and> int (length s) \<le> max (t + 111) 0) \<and>
    yields (buildRedisCrashReport t r) (\<lambda>(s, _). t \<le> int (length s) \<and> int (length s) \<le> max (t + 119) 276) \<and>
    yields (buildGoStackTrace t r) (\<lambda>(s, _). int (length s) \<le> max (t + 119) 25) \<and>
    yields (buildJavaStackTrace t r) (\<lambda>(s, _). int (length s) \<le> max (t + 87) 41)"
proof (intro conjI)
  show "yields (buildGoStackTrace t r) (\<lambda>(s, _). int (length s) \<le> max (t + 119) 25)"
    by (rule yields_mono [OF build_sizeD [OF go_trace_size assms]]) auto
  show "yields (buildJavaStackTrace t r) (\<lambda>(s, _). int (length s) \<le> max (t + 87) 41)"
    by (rule yields_mono [OF build_sizeD [OF java_trace_size assms]]) auto
qed (rule build_sizeD [OF mysql_crash_size assms] build_sizeD [OF explain_size assms]
    build_sizeD [OF nginx_size assms] build_sizeD [OF json_payload_size assms]
    build_sizeD [OF slowlog_size assms] build_sizeD [OF redis_crash_size assms])+

lemma builders_reach_target_witness:
  "yields (buildMySQLCrashTrace 2000 (new_rng [7])) (\<lambda>(s, _). 2000 \<le> length s \<and> length s \<le> 2084)"
  by (rule yields_mono [OF builders_reach_target [of 2000 "new_rng [7]", THEN conjunct1]]) auto

subsection \<open>The items of the JSON payload\<close>

definition json_object_of :: "string \<Rightarrow> int \<Rightarrow> int \<Rightarrow> string" where
  \<open>json_object_of ident n price = ''{"id":"'' @ ident @ ''","name":"product-'' @ itoa n @ ''","price":'' @ itoa price @ ''}'' \<close>

definition json_object_text :: "string \<Rightarrow> bool" where
  "json_object_text s \<longleftrightarrow> (\<exists>ident n price. s = json_object_of ident n price \<and> length ident = 8 \<and>
     set ident \<subseteq> hex_digits \<and> 0 \<le> n \<and> n < 10000 \<and> 10 \<le> price \<and> price < 510)"

lemma hexChars_digits: "set hexChars = hex_digits"
  by (simp add: hexChars_def hex_digits_def)

lemma json_object_textI:
  "length ident = 8 \<Longrightarrow> set ident \<subseteq> hex_digits \<Longrightarrow> 0 \<le> n \<Longrightarrow> n < 10000 \<Longrightarrow> 0 \<le> p \<Longrightarrow> p < 500 \<Longrightarrow>
   json_object_text (json_object_of ident n (p + 10))"
  unfolding json_object_text_def by force

lemma json_object_yields: "yields (json_object b r) (\<lambda>(b', _). \<exists>s. b' = b @ s \<and> json_object_text s)"
  unfolding json_object_def write_all.simps write_id_def write_int_def write_str_def yields_bind
  by (auto intro!: hex_string_yields intn_yields json_object_textI [unfolded json_object_of_def, simplified]
    simp: hexChars_digits)

lemma json_item_text: "writes_item json_object s \<Longrightarrow> json_object_text s"
  unfolding writes_item_def
  by (elim exE, drule yieldsD [OF json_object_yields]) auto

text \<open>
  C37. The payload is one JSON object whose array \<open>items\<close> holds objects separated by single
  commas, none before the first: the loop writes a comma when the text is longer than 20
  bytes, which tells the first object from the others because the header is not longer than
  that and with one object it is. Each object has an identifier of 8 hexadecimal digits, a
  product number below 10000 and a price from 10 to 509.
\<close>

theorem json_payload_items:
  assumes "- 256 \<le> t" and "t \<le> 2 ^ 62"
  shows \<open>\<exists>r' items. buildLargeJSONPayload t r = Some (''{"items":['' @ join_commas items @ '']}'', r') \<and>
    (\<forall>i \<in> set items. json_object_text i)\<close>
proof -
  have \<open>yields (fill_until t (item_round 20 json_object) ''{"items":['' r0)
      (\<lambda>(b, _). \<exists>items. b = ''{"items":['' @ join_commas items \<and> (\<forall>s \<in> set items. writes_item json_object s))\<close> for r0
    by (rule json_items.separated) simp_all
  then have fill: \<open>yields (fill_until t (item_round 20 json_object) ''{"items":['' r0) (\<lambda>(b, r1). \<exists>r' items.
      write_str '']}'' b r1 = Some (''{"items":['' @ join_commas items @ '']}'', r') \<and> (\<forall>i \<in> set items. json_object_text i))\<close> for r0
    by (rule yields_mono) (force simp: write_str_def json_item_text)
  obtain r0 where "grow (w64 (t + 256)) [] r = Some ([], r0)"
    using adds_yields [OF grow_adds [OF assms], of 256 "\<lambda>(b, r'). b = []" "[]" r] by (auto simp: yields_ex)
  then show ?thesis
    using fill [of r0] by (auto simp: buildLargeJSONPayload_def write_str_def yields_ex)
qed

lemma json_payload_items_witness:
  \<open>\<exists>r' items. buildLargeJSONPayload 1000 (new_rng [5]) = Some (''{"items":['' @ join_commas items @ '']}'', r') \<and>
    (\<forall>i \<in> set items. json_object_text i)\<close>
  by (rule json_payload_items) simp_all

subsection \<open>The generators\<close>

text \<open>The parameters for which a pool of texts can be built.\<close>

definition pool_bounds :: "int \<Rightarrow> int \<Rightarrow> bool" where
  "pool_bounds lo hi \<longleftrightarrow> 0 \<le> lo \<and> lo \<le> hi \<and> hi \<le> 2 ^ 62"

lemma text_pool_yields:
  assumes build: "build_size build lo0 least most" and "lo0 \<le> lo" "0 \<le> lo" "lo \<le> hi" "hi \<le> 2 ^ 62"
  shows "yields (text_pool build lo hi r) (\<lambda>(g, _). \<exists>pool. length pool = tracePoolSize \<and> draws_from pool g \<and>
    (\<forall>s \<in> set pool. \<exists>t. lo \<le> t \<and> t \<le> hi \<and> least t \<le> int (length s) \<and> int (length s) \<le> most t))"
proof -
  have one: "yields (do { (k, r') \<leftarrow> intn (w64 (w64 (hi - lo) + 1)) r; build (w64 (k + lo)) r' })
      (\<lambda>(s, _). \<exists>t. lo \<le> t \<and> t \<le> hi \<and> least t \<le> int (length s) \<and> int (length s) \<le> most t)" for r
    unfolding yields_bind
  proof (rule intn_yields)
    fix k r' assume k: "0 \<le> k" "k < w64 (w64 (hi - lo) + 1)"
    then have "k \<le> hi - lo" using assms by (simp add: w64_id)
    with k assms show "yields (case (k, r') of (k, r') \<Rightarrow> build (w64 (k + lo)) r')
        (\<lambda>(s, _). \<exists>t. lo \<le> t \<and> t \<le> hi \<and> least t \<le> int (length s) \<and> int (length s) \<le> most t)"
      by (auto simp: w64_id intro!: yields_mono [OF build_sizeD [OF build]] exI [of _ "k + lo"])
  qed (use assms in \<open>simp add: w64_id\<close>)
  have d: "draws_from pool (\<lambda>r ctx. do { (s, r') \<leftarrow> pick pool r; Some (AStr s, r') })" if "length pool = tracePoolSize" for pool
    using that by (auto simp: draws_from_def tracePoolSize_def intro!: pick_yields)
  show ?thesis
    unfolding text_pool_def yields_bind
    using d by (auto intro!: yields_mono [OF repeat_go_yields [OF one]])
qed

lemma text_pool_total:
  "build_size build lo0 least most \<Longrightarrow> lo0 \<le> 0 \<Longrightarrow> pool_bounds lo hi \<Longrightarrow>
   yields (text_pool build lo hi r) (\<lambda>(g, _). text_total g)"
  by (rule yields_mono [OF text_pool_yields]) (auto simp: pool_bounds_def dest: draws_from_text)

lemmas trace_sizes = mysql_crash_size explain_size nginx_size json_payload_size slowlog_size redis_crash_size
  go_trace_size java_trace_size

lemma trace_gens_total:
  assumes "pool_bounds lo hi"
  shows "yields (GoStackTrace lo hi r) (\<lambda>(g, _). text_total g)" "yields (JavaStackTrace lo hi r) (\<lambda>(g, _). text_total g)"
    "yields (MySQLCrashTrace lo hi r) (\<lambda>(g, _). text_total g)" "yields (NginxErrorDetails lo hi r) (\<lambda>(g, _). text_total g)"
    "yields (LargeJSONPayload lo hi r) (\<lambda>(g, _). text_total g)" "yields (SQLExplainPlan lo hi r) (\<lambda>(g, _). text_total g)"
    "yields (RedisSlowlogOutput lo hi r) (\<lambda>(g, _). text_total g)" "yields (RedisCrashReport lo hi r) (\<lambda>(g, _). text_total g)"
  unfolding GoStackTrace_def JavaStackTrace_def MySQLCrashTrace_def NginxErrorDetails_def LargeJSONPayload_def
    SQLExplainPlan_def RedisSlowlogOutput_def RedisCrashReport_def
  by (rule text_pool_total, rule trace_sizes, simp, rule assms)+

end
