(* ===== verification/CrossCutting.thy ===== *)
theory CrossCutting
  imports Traces
begin

text \<open>
  The attributes that every profile adds to its messages (\<open>internal/loggen/crosscutting.go\<close>):
  error messages, short or long, and stack traces. \<open>ErrorMessageAttrs\<close> reads the generator to
  fill its pools, in the order of the calls, and returns closures.
\<close>

subsection \<open>Composite literals of templates\<close>

text \<open>A key with its generator, and a template with the fields that the source's literals give.\<close>

definition attr :: "string \<Rightarrow> arg_gen \<Rightarrow> attr_gen" where
  "attr k g = \<lparr>attr_key = k, attr_fn = g\<rparr>"

definition rare :: "string \<Rightarrow> f64 \<Rightarrow> arg_gen \<Rightarrow> rare_attr_gen" where
  "rare k p g = \<lparr>rare_key = k, rare_probability = p, rare_fn = g\<rparr>"

definition template :: "severity \<Rightarrow> string \<Rightarrow> arg_gen list \<Rightarrow> (string, int) gomap \<Rightarrow> attr_gen list \<Rightarrow> msg_template" where
  "template sev f args from attrs =
     \<lparr>msg_severity = sev, msg_format = f, msg_args = args, msg_attrs = attrs, attr_from_arg = from, msg_rare = []\<rparr>"

text \<open>\<open>if rng == nil { rng = rand.New(rand.NewSource(0)) }\<close>\<close>

definition rng_or_default :: "golib \<Rightarrow> rng option \<Rightarrow> rng" where
  "rng_or_default G ro = (case ro of Some r \<Rightarrow> r | None \<Rightarrow> new_rand G 0)"

subsection \<open>Error messages\<close>

definition commonErrorMessages :: "string list" where
  "commonErrorMessages = [''connection refused'', ''context deadline exceeded'', ''connection reset by peer'', ''i/o timeout'',
     ''TLS handshake timeout'', ''no such host'', ''broken pipe'', ''connection timed out'', ''request canceled'', ''EOF'',
     ''permission denied'', ''resource temporarily unavailable'', ''too many open files'']"

definition error_causes :: "string list" where
  "error_causes = [''search_phase_execution_exception'', ''index_not_found_exception'', ''mapper_parsing_exception'',
     ''resource_already_exists_exception'']"

definition error_reasons :: "string list" where
  "error_reasons = [''all shards failed'', ''no such index'', ''failed to parse field'', ''resource already exists'',
     ''circuit breaking exception: [request] Data too large'']"

definition json_error_head :: writer where
  \<open>json_error_head = write_all
     [write_str ''{"error":{"root_cause":[{"type":"'', write_pick error_causes, write_str ''","reason":"'', write_pick error_reasons,
      write_str ''"}],"type":"'', write_pick error_causes, write_str ''","reason":"'', write_pick error_reasons,
      write_str ''","phase":"query","grouped":true,"failed_shards":['']\<close>

definition shard_object :: writer where
  \<open>shard_object = write_all
     [write_str ''{"shard":'', write_int 10 0, write_str '',"index":"logs-'', write_int 100 0, write_str ''","node":"'',
      write_hex 0xffffffffffff, write_str ''","reason":{"type":"'', write_pick error_causes, write_str ''","reason":"'',
      write_pick error_reasons, write_str ''"}}'']\<close>

definition cascade_services :: "string list" where
  "cascade_services = [''elasticsearch'', ''kibana'', ''apm-server'', ''fleet-server'', ''logstash'']"

definition cascade_errors :: "string list" where
  "cascade_errors = [''connection refused'', ''connection reset by peer'', ''i/o timeout'', ''TLS handshake timeout'',
     ''no route to host'', ''context deadline exceeded'']"

definition cascade_line :: writer where
  "cascade_line = write_all
     [write_str ''error connecting to '', write_pick cascade_services, write_str '' at 10.'', write_int 256 0, write_str ''.'',
      write_int 256 0, write_str ''.'', write_int 256 0, write_str '':'', write_int 10000 9000, write_str '': '',
      write_pick cascade_errors, write_str ''; attempt '', write_int 10 1, write_str '' of 10\<newline>'']"

definition wrapped_head :: writer where
  "wrapped_head = write_all
     [write_str ''github.com/elastic/cloud-on-k8s/pkg/controller'', write_str '': reconciliation failed: '',
      write_pick [''transient error'', ''context canceled'', ''connection lost'', ''timeout waiting for condition'',
                  ''resource version conflict''],
      write_str ''\<newline>'']"

definition buildLargeErrorMessage :: "int \<Rightarrow> rng \<Rightarrow> (string \<times> rng) option" where
  \<open>buildLargeErrorMessage target_len r =
     do { (b0, r0) \<leftarrow> grow (w64 (target_len + 512)) [] r;
          (kind, r1) \<leftarrow> intn 3 r0;
          if kind = 0 then do {
            (b1, r2) \<leftarrow> json_error_head b0 r1;
            (b2, r3) \<leftarrow> fill_until target_len (item_round 300 shard_object) b1 r2;
            write_str '']},"status":500}'' b2 r3 }
          else if kind = 1 then fill_until target_len cascade_line b0 r1
          else do {
            (b1, r2) \<leftarrow> wrapped_head b0 r1;
            (trace, r3) \<leftarrow> buildGoStackTrace (w64 (target_len - int (length b1))) r2;
            write_str trace b1 r3 } }\<close>

definition LargeErrorMessage :: "int \<Rightarrow> int \<Rightarrow> rng \<Rightarrow> (arg_gen \<times> rng) option" where
  "LargeErrorMessage = text_pool buildLargeErrorMessage"

subsection \<open>The attributes\<close>

definition mixed_error :: "arg_gen \<Rightarrow> arg_gen \<Rightarrow> arg_gen \<Rightarrow> arg_gen" where
  "mixed_error short_gen medium_gen large_gen = (\<lambda>r ctx.
     do { (roll, r') \<leftarrow> intn 100 r;
          if roll < 93 then short_gen r' ctx
          else if roll < 98 then medium_gen r' ctx
          else large_gen r' ctx })"

definition ErrorMessageAttrs :: "arg_gen option \<Rightarrow> rng \<Rightarrow> (attr_gen list \<times> rng) option" where
  "ErrorMessageAttrs stack_trace_gen r =
     do { (medium_gen, r1) \<leftarrow> LargeErrorMessage 200 2000 r;
          (large_gen, r2) \<leftarrow> LargeErrorMessage 2000 80000 r1;
          (trace_gen, r3) \<leftarrow> (case stack_trace_gen of Some g \<Rightarrow> Some (g, r2) | None \<Rightarrow> GoStackTrace 800 8500 r2);
          Some ([attr ''error.message'' (OptionalAttr (rnd (60 / 100)) (mixed_error (RandomFrom commonErrorMessages) medium_gen large_gen)),
                 attr ''log.origin.stack_trace'' (OptionalAttr (rnd (20 / 100)) trace_gen)], r3) }"

definition appendCrossCutting :: "msg_template list \<Rightarrow> attr_gen list \<Rightarrow> msg_template list" where
  "appendCrossCutting msgs extra = map (\<lambda>m. m\<lparr>msg_attrs := msg_attrs m @ extra\<rparr>) msgs"

subsection \<open>Sizes\<close>

lemmas error_tables = error_causes_def error_reasons_def cascade_services_def cascade_errors_def

lemma json_error_head_adds: "adds 192 300 json_error_head"
  unfolding json_error_head_def error_tables
  by (rule adds_weaken, (rule adds_intro | (simp; fail))+)

lemma shard_object_adds: "adds 109 169 shard_object"
  unfolding shard_object_def error_tables
  by (rule adds_weaken, (rule adds_intro | (simp; fail))+) (simp_all add: digits_eval)

lemma cascade_line_adds: "adds 71 103 cascade_line"
  unfolding cascade_line_def error_tables
  by (rule adds_weaken, (rule adds_intro | (simp; fail))+) (simp_all add: digits_eval)

lemma wrapped_head_adds: "adds 85 101 wrapped_head"
  unfolding wrapped_head_def
  by (rule adds_weaken, (rule adds_intro | (simp; fail))+)

interpretation cascade: line_builder cascade_line 71 103
  by unfold_locales (simp_all add: cascade_line_adds)

interpretation shard_lines: line_builder "item_round 300 shard_object" 109 170
  using item_round_adds [OF shard_object_adds, of 300] by unfold_locales simp_all

interpretation shards: separated_items shard_object 109 169 300
  by unfold_locales (simp_all add: shard_object_adds)

lemma large_error_size: "build_size buildLargeErrorMessage (- 100) (\<lambda>t. min t 85) (\<lambda>t. max (t + 186) 316)"
proof (rule build_sizeI)
  fix t r assume t: "- 100 \<le> (t :: int)" "t \<le> 2 ^ 62"
  have trace: "yields (buildGoStackTrace (w64 (t - int n)) r') (\<lambda>(s, _). int (length s) \<le> max (t - int n + 119) 25)"
    if "n \<le> 101" for n r'
    using that t by (intro yields_mono [OF build_sizeD [OF go_trace_size]]) (auto simp: w64_id)
  show "yields (buildLargeErrorMessage t r) (\<lambda>(s, _). min t 85 \<le> int (length s) \<and> int (length s) \<le> max (t + 186) 316)"
    unfolding buildLargeErrorMessage_def yields_bind
    using t by (auto intro!: adds_yields [OF grow_adds] adds_yields [OF json_error_head_adds]
        adds_yields [OF wrapped_head_adds] intn_yields yields_mono [OF trace]
        cascade.fill_until_yields shard_lines.fill_until_yields simp: write_str_def)
qed

text \<open>
  When the draw selects the JSON error, the text is the header, shard failures separated
  by single commas, and the closing brackets: the test against 300 bytes tells the first
  failure from the others, because the header has at most 300 bytes and with one failure, of
  at least 109, the text has more.
\<close>

theorem json_error_items:
  assumes "- 256 \<le> t" and "t \<le> 2 ^ 62" and "intn 3 r = Some (0, r1)"
  shows \<open>\<exists>head r2 items r'. json_error_head [] r1 = Some (head, r2) \<and>
    buildLargeErrorMessage t r = Some (head @ join_commas items @ '']},"status":500}'', r') \<and>
    (\<forall>i \<in> set items. writes_item shard_object i)\<close>
proof -
  obtain head r2 where head: "json_error_head [] r1 = Some (head, r2)" "192 \<le> length head" "length head \<le> 300"
    using adds_yields [OF json_error_head_adds, of "\<lambda>(b, r'). 192 \<le> length b \<and> length b \<le> 300" "[]" r1]
    by (auto simp: yields_ex)
  obtain b r3 items where "fill_until t (item_round 300 shard_object) head r2 = Some (b, r3)"
    "b = head @ join_commas items" "\<forall>i \<in> set items. writes_item shard_object i"
    using shards.separated [of head t r2] head by (auto simp: yields_ex)
  moreover have "grow (w64 (t + 512)) [] r = Some ([], r)"
    using assms(1,2) by (simp add: grow_def w64_id)
  ultimately show ?thesis using assms(3) head by (simp add: buildLargeErrorMessage_def write_str_def) blast
qed

lemma json_error_items_witness:
  \<open>\<exists>head r2 items r'. json_error_head [] (snd (the (intn 3 (new_rng [0])))) = Some (head, r2) \<and>
    buildLargeErrorMessage 500 (new_rng [0]) = Some (head @ join_commas items @ '']},"status":500}'', r') \<and>
    (\<forall>i \<in> set items. writes_item shard_object i)\<close>
  by (rule json_error_items) code_simp+

subsection \<open>The attributes never panic\<close>

lemma mixed_total [gen_total]: "total_gen a \<Longrightarrow> total_gen b \<Longrightarrow> total_gen c \<Longrightarrow> total_gen (mixed_error a b c)"
  unfolding mixed_error_def by (rule total_genI) (auto intro!: intn_yields dest: total_genD)

lemma large_error_total: "pool_bounds lo hi \<Longrightarrow> yields (LargeErrorMessage lo hi r) (\<lambda>(g, _). text_total g)"
  unfolding LargeErrorMessage_def by (rule text_pool_total [OF large_error_size]) simp

text \<open>Attributes whose generators never panic.\<close>

definition attrs_total :: "attr_gen list \<Rightarrow> bool" where
  "attrs_total as \<longleftrightarrow> (\<forall>a \<in> set as. total_gen (attr_fn a))"

lemma error_attrs_yields:
  assumes "pred_option total_gen g"
  shows "yields (ErrorMessageAttrs g r) (\<lambda>(as, _). attrs_total as)"
  unfolding ErrorMessageAttrs_def yields_bind
  using assms
  by (cases g) (auto simp: attrs_total_def attr_def commonErrorMessages_def pool_bounds_def
      intro!: yields_mono [OF large_error_total] yields_mono [OF trace_gens_total(1)] gen_total dest: text_totalD(1))

lemma append_ok:
  "\<forall>m \<in> set ms. template_ok m \<Longrightarrow> attrs_total extra \<Longrightarrow> \<forall>m \<in> set (appendCrossCutting ms extra). template_ok m"
  by (auto simp: appendCrossCutting_def template_ok_def attrs_total_def)

subsection \<open>Well-formed templates\<close>

lemma template_okI:
  "template_ok (template sev f args from attrs) \<longleftrightarrow>
     verbs f \<le> length args \<and> list_all total_gen args \<and> list_all (\<lambda>a. total_gen (attr_fn a)) attrs"
  by (auto simp: template_ok_def template_def list_all_iff)

lemma template_fields [simp]:
  "msg_severity (template sev f args from attrs) = sev" "msg_format (template sev f args from attrs) = f"
  "msg_args (template sev f args from attrs) = args" "attr_from_arg (template sev f args from attrs) = from"
  by (simp_all add: template_def)

lemma attr_fn_attr [simp]: "attr_fn (attr k g) = g"
  by (simp add: attr_def)



text \<open>A value is computed first, then the rest runs with it.\<close>

lemma bind_yields:
  assumes "yields m (\<lambda>(x, _). P x)" and "\<And>x r. P x \<Longrightarrow> yields (f x r) Q"
  shows "yields (m \<bind> (\<lambda>(x, r). f x r)) Q"
  using assms by (auto intro: yields_mono)

lemma pool_boundsI [simp]: "pool_bounds lo hi \<longleftrightarrow> 0 \<le> lo \<and> lo \<le> hi \<and> hi \<le> 4611686018427387904"
  by (simp add: pool_bounds_def)

lemmas bind_texts = trace_gens_total [THEN bind_yields]

text \<open>
  The messages of a part of a profile: generators that never panic, enough operands for the
  formats, attributes that refer to operands that exist, messages of exactly the given
  severities, and but in the formats listed exactly one operand for each verb, of the verb's kind.
\<close>

definition fits_template :: "msg_template \<Rightarrow> bool" where
  "fits_template t \<longleftrightarrow> fits_args (msg_format t) (msg_args t)"

definition from_args_ok :: "msg_template \<Rightarrow> bool" where
  "from_args_ok t \<longleftrightarrow> list_all (\<lambda>(k, i). 0 \<le> i \<and> i < int (length (msg_args t))) (attr_from_arg t)"

definition spare_operands :: "msg_template list \<Rightarrow> string list" where
  "spare_operands ms = map msg_format (filter (\<lambda>t. verbs (msg_format t) \<noteq> length (msg_args t)) ms)"

definition part_ok :: "severity set \<Rightarrow> string list \<Rightarrow> msg_template list \<Rightarrow> bool" where
  "part_ok S fs ms \<longleftrightarrow> list_all template_ok ms \<and> list_all from_args_ok ms \<and> msg_severity ` set ms = S \<and> spare_operands ms = fs \<and>
     list_all (\<lambda>t. msg_format t \<in> set fs \<or> fits_template t) ms"

text \<open>Counting the verbs of a literal, one rewriting step per character.\<close>

lemma verbs_char: "c \<noteq> CHR ''%'' \<Longrightarrow> verbs (c # cs) = verbs cs"
  by (cases cs) simp_all

lemma verbs_verb: "v \<in> verb_chars \<Longrightarrow> verbs (CHR ''%'' # v # cs) = Suc (verbs cs)"
  by simp

lemma verbs_escape: "verbs (CHR ''%'' # CHR ''%'' # cs) = verbs cs"
  by (simp add: verb_chars_def)

lemma fits_char: "c \<noteq> CHR ''%'' \<Longrightarrow> fits_args (c # cs) gs = fits_args cs gs"
  by (cases cs) simp_all

lemma fits_verb: "v \<noteq> CHR ''%'' \<Longrightarrow> fits_args (CHR ''%'' # v # cs) (g # gs) = (verb_fits v g \<and> fits_args cs gs)"
  by simp

lemma fits_escape: "fits_args (CHR ''%'' # CHR ''%'' # cs) gs = fits_args cs gs"
  by simp

lemmas fits_eval = fits_char fits_verb fits_escape verb_fits_def gen_kind

lemmas part_eval = part_ok_def from_args_ok_def spare_operands_def template_okI gen_total text_totalD verb_chars_def
  verbs_char verbs_verb verbs_escape fits_template_def fits_eval

declare verbs.simps(3) [simp del] fits_args.simps(3) [simp del]

text \<open>A part whose templates all have one operand for each verb, of the verb's kind.\<close>

definition template_wf :: "msg_template \<Rightarrow> bool" where
  "template_wf t \<longleftrightarrow> template_ok t \<and> from_args_ok t \<and> fits_template t"

lemma template_wfI:
  "template_wf (template sev f args from attrs) \<longleftrightarrow>
     fits_args f args \<and> list_all total_gen args \<and> list_all (\<lambda>a. total_gen (attr_fn a)) attrs \<and>
     list_all (\<lambda>(k, i). 0 \<le> i \<and> i < int (length args)) from"
  using fits_args_verbs [of f args] by (auto simp: template_wf_def template_okI from_args_ok_def fits_template_def)

lemma part_exactI: "list_all template_wf ms \<Longrightarrow> msg_severity ` set ms = S \<Longrightarrow> part_ok S [] ms"
  by (auto simp: part_ok_def template_wf_def spare_operands_def list_all_iff filter_empty_conv fits_template_def
      fits_args_verbs)

lemma part_yieldsI:
  "list_all template_wf ms \<Longrightarrow> msg_severity ` set ms = S \<Longrightarrow> yields (Some (ms, r)) (\<lambda>(ms, _). part_ok S [] ms)"
  by (simp add: part_exactI)

lemmas exact_eval = template_wfI gen_total text_totalD fits_eval

text \<open>
  A profile that covers every severity but TRACE never falls back to another severity's
  messages.
\<close>

definition profile_complete :: "string list \<Rightarrow> app_profile \<Rightarrow> bool" where
  "profile_complete fs p \<longleftrightarrow> profile_ok p \<and> list_all from_args_ok (app_messages p) \<and>
     msg_severity ` set (app_messages p) = {SevDebug, SevInfo, SevWarn, SevError, SevFatal} \<and>
     spare_operands (app_messages p) = fs \<and>
     list_all (\<lambda>t. msg_format t \<in> set fs \<or> fits_template t) (app_messages p)"

lemma profile_completeI:
  assumes "part_ok {SevInfo} [] ms1" "part_ok {SevDebug} fs ms2" "part_ok {SevWarn, SevError, SevFatal} [] ms3"
    and "attrs_total cc" "long_tail_ok lt"
  shows "profile_complete fs \<lparr>app_name = n, app_scope = sc, app_messages = appendCrossCutting (ms1 @ ms2 @ ms3) cc,
    app_weights = w, app_trace = tr, app_long_tail = Some lt\<rparr>"
proof -
  have "\<forall>m \<in> set (ms1 @ ms2 @ ms3). template_ok m"
    using assms(1-3) by (auto simp: part_ok_def list_all_iff)
  note ok = append_ok [OF this assms(4)]
  have "msg_severity ` set (appendCrossCutting ms cc) = msg_severity ` set ms"
    "spare_operands (appendCrossCutting ms cc) = spare_operands ms"
    "list_all from_args_ok (appendCrossCutting ms cc) = list_all from_args_ok ms"
    "list_all (\<lambda>t. msg_format t \<in> set fs \<or> fits_template t) (appendCrossCutting ms cc) =
      list_all (\<lambda>t. msg_format t \<in> set fs \<or> fits_template t) ms" for ms
    by (simp_all add: appendCrossCutting_def image_image spare_operands_def filter_map o_def list_all_iff from_args_ok_def
        fits_template_def)
  moreover have "list_all (\<lambda>t. msg_format t \<in> set fs \<or> fits_template t) (ms1 @ ms2 @ ms3)"
    using assms(1-3) unfolding part_ok_def list_all_iff by auto
  moreover have "list_all from_args_ok (ms1 @ ms2 @ ms3)" "spare_operands (ms1 @ ms2 @ ms3) = fs"
    "msg_severity ` set (ms1 @ ms2 @ ms3) = {SevDebug, SevInfo, SevWarn, SevError, SevFatal}"
    using assms(1-3) by (auto simp: part_ok_def spare_operands_def)
  ultimately show ?thesis
    using assms(5) ok by (simp add: profile_complete_def profile_ok_def)
qed

text \<open>The networks and sizes for which a pool of client addresses can be built.\<close>

definition pool_cfg_ok :: "golib \<Rightarrow> ip_pool_config option \<Rightarrow> bool" where
  "pool_cfg_ok G cfg \<longleftrightarrow> zipf_ok G \<and> (\<forall>c \<in> set (networks cfg). host_cidr G c) \<and> pred_option (\<lambda>c. i64 (pool_size c)) cfg"

lemma zipfian_total: "pool_cfg_ok G cfg \<Longrightarrow> yields (ZipfianIP G 5000 r cfg) (\<lambda>(g, _). text_total g)"
  unfolding pool_cfg_ok_def
  by (rule yields_mono [OF zipfian_yields]) (auto simp: i64_def dest: draws_from_text)

lemma cross_cutting_yields: "text_total g \<Longrightarrow> yields (ErrorMessageAttrs (Some g) r) (\<lambda>(as, _). attrs_total as)"
  by (rule error_attrs_yields) (simp add: text_totalD)

lemma rare_fields_yields: "yields (LongTailAttrs G r) (\<lambda>(lt, _). long_tail_ok lt)"
  by (rule yields_mono [OF long_tail_yields]) auto

end
