(* ===== verification/ProfileNginx.thy ===== *)
theory ProfileNginx
  imports CrossCutting
begin

text \<open>
  The nginx profile (\<open>internal/loggen/nginx.go\<close>): access, debug, warning and error messages,
  and the operation that assembles them.
\<close>

definition nginxRouteTemplates :: "string list" where
  "nginxRouteTemplates = [''/api/v1/users/{id}'', ''/api/v1/users/{id}/profile'', ''/api/v1/orders/{id}'', ''/api/v1/orders/{id}/items'',
    ''/api/v1/orders/{id}/status'', ''/api/v2/search'', ''/api/v1/products/{id}'', ''/api/v1/products/{id}/reviews'',
    ''/api/v1/cart/{id}'', ''/api/v1/checkout'', ''/api/v2/analytics'', ''/api/v1/config'', ''/api/v1/notifications/{id}'',
    ''/api/v2/users/{id}'', ''/api/v1/sessions/{id}'', ''/api/v1/payments/{id}'', ''/api/v1/invoices/{id}'',
    ''/api/v2/orders/{id}'', ''/api/v1/shipping/{id}'', ''/api/v1/reviews/{id}'', ''/api/v2/products/{id}'',
    ''/api/v1/categories/{id}'', ''/api/v1/tags/{id}'', ''/api/v2/recommendations'', ''/api/v1/export'', ''/api/v1/import'',
    ''/api/v2/metrics'']"

definition nginxAccessLogs :: "golib \<Rightarrow> ip_pool_config option \<Rightarrow> rng \<Rightarrow> (msg_template list \<times> rng) option" where
  \<open>nginxAccessLogs G ip_cfg r =
     do { (zipfIP, r1) \<leftarrow> ZipfianIP G 5000 r ip_cfg;
          let tsLayout = ''02/Jan/2006:15:04:05 -0700'';
          let routeGen = RouteWithRandomID nginxRouteTemplates;
          Some (
        [template SevInfo ''%s - - [%s] "GET %s HTTP/1.1" %d %d "-" "%s"''
           [zipfIP, Timestamp G tsLayout, routeGen, RandomHTTPStatus, RandomBytes, RandomUserAgent]
           [(''net.peer.ip'', 0), (''http.status_code'', 3), (''http.url'', 2), (''http.response.body.size'', 4),
            (''user_agent.original'', 5)]
           [attr ''http.method'' (Static ''GET''), attr ''http.flavor'' (RandomFrom [''1.1'', ''2.0''])],
         template SevInfo ''%s - - [%s] "POST %s HTTP/1.1" %d %d "%s" "%s"''
           [zipfIP, Timestamp G tsLayout, RandomPath [''/api/v1/orders'', ''/api/v1/users'', ''/api/v1/products''],
            RandomHTTPStatus, RandomBytes, RandomFrom [''-'', ''https://example.com/'',
            ''https://app.example.com/dashboard''], RandomUserAgent]
           [(''net.peer.ip'', 0), (''http.status_code'', 3), (''http.url'', 2), (''http.response.body.size'', 4),
            (''user_agent.original'', 6)]
           [attr ''http.method'' (Static ''POST''), attr ''http.request.body.size'' (RandomInt 0 50000)],
         template SevInfo ''%s - - [%s] "GET /health HTTP/1.1" 200 15 "-" "kube-probe/1.28"'' [zipfIP, Timestamp G tsLayout]
           [(''net.peer.ip'', 0)]
           [attr ''http.method'' (Static ''GET''), attr ''http.status_code'' (HTTPStatus 200),
            attr ''http.url'' (Static ''/health'')],
         template SevInfo ''%s - - [%s] "GET /static/js/app.%s.js HTTP/1.1" 304 0 "%s" "%s"''
           [zipfIP, Timestamp G tsLayout, RandomID 8, RandomFrom [''-'', ''https://app.example.com/''], RandomUserAgent]
           [(''net.peer.ip'', 0), (''user_agent.original'', 4)]
           [attr ''http.method'' (Static ''GET''), attr ''http.status_code'' (HTTPStatus 304),
            attr ''http.url'' (Static ''/static/js/app.js''), attr ''http.flavor'' (RandomFrom [''1.1'', ''2.0''])],
         template SevInfo ''%s - - [%s] "GET /api/v1/products?page=%d&limit=20 HTTP/1.1" 200 %d "-" "%s"''
           [zipfIP, Timestamp G tsLayout, RandomInt 1 50, RandomBytes, RandomUserAgent]
           [(''net.peer.ip'', 0), (''http.response.body.size'', 3), (''user_agent.original'', 4)]
           [attr ''http.method'' (Static ''GET''), attr ''http.status_code'' (HTTPStatus 200),
            attr ''http.url'' (Static ''/api/v1/products''), attr ''http.flavor'' (RandomFrom [''1.1'', ''2.0''])],
         template SevInfo ''%s - - [%s] "GET %s HTTP/1.1" %d %d "-" "%s"''
           [zipfIP, Timestamp G tsLayout, RandomPath [''/'', ''/api/v1/health'', ''/metrics'', ''/favicon.ico'',
            ''/api/v1/config''], RandomHTTPStatus, RandomBytes, RandomUserAgent]
           [(''net.peer.ip'', 0), (''http.status_code'', 3), (''http.url'', 2), (''http.response.body.size'', 4),
            (''user_agent.original'', 5)]
           [attr ''http.method'' (Static ''GET'')],
         template SevInfo ''%s - - [%s] "DELETE /api/v1/users/%s HTTP/1.1" %d %d "-" "%s"''
           [zipfIP, Timestamp G tsLayout, RandomID 8, RandomFromInt [200, 204, 404], RandomBytes, RandomUserAgent]
           [(''net.peer.ip'', 0), (''http.status_code'', 3), (''http.response.body.size'', 4), (''user_agent.original'', 5)]
           [attr ''http.method'' (Static ''DELETE''), attr ''http.url'' (Static ''/api/v1/users/{id}'')]], r1) }\<close>

definition nginxDebugLogs :: "golib \<Rightarrow> msg_template list" where
  \<open>nginxDebugLogs G =
     (let tsLayout = ''2006/01/02 15:04:05'';
          pid = RandomInt 1 99999;
          tid = RandomInt 0 1;
          connID = RandomInt 1000 99999
      in
        [template SevDebug ''%s [debug] %d#%d: *%d http process request line'' [Timestamp G tsLayout, pid, tid, connID] [] [],
         template SevDebug ''%s [debug] %d#%d: *%d http header: "Host: %s"''
           [Timestamp G tsLayout, pid, tid, connID, RandomFrom [''api.example.com'', ''localhost'', ''app.example.com'']] []
           []])\<close>

definition nginxWarnLogs :: "golib \<Rightarrow> ip_pool_config option \<Rightarrow> rng \<Rightarrow> (msg_template list \<times> rng) option" where
  \<open>nginxWarnLogs G ip_cfg r =
     do { (zipfIP, r1) \<leftarrow> ZipfianIP G 5000 r ip_cfg;
          (text1, r2) \<leftarrow> NginxErrorDetails 1500 6000 r1;
          (text2, r3) \<leftarrow> NginxErrorDetails 1500 7000 r2;
          (text3, r4) \<leftarrow> NginxErrorDetails 1500 7000 r3;
          (text4, r5) \<leftarrow> NginxErrorDetails 2000 7000 r4;
          (text5, r6) \<leftarrow> NginxErrorDetails 2000 7000 r5;
          (text6, r7) \<leftarrow> NginxErrorDetails 2500 8000 r6;
          let tsLayout = ''2006/01/02 15:04:05'';
          let pid = RandomInt 1 99999;
          let tid = RandomInt 0 1;
          let connID = RandomInt 1000 99999;
          let upstreamIP = zipfIP;
          let port = RandomInt 8080 9090;
          let path = RandomPath [''/api/v1/users'', ''/api/v1/orders'', ''/health''];
          let server = RandomFrom [''localhost'', ''_'', ''api.example.com''];
          let tmpfile = RandomFrom [''/tmp/nginx/proxy/0/00/0000000000'', ''/tmp/nginx/proxy/1/01/0000000001''];
          Some (
        [template SevWarn
           ''%s [warn] %d#%d: *%d upstream server temporarily disabled while connecting to upstream, client: %s, server: %s, request: "GET %s HTTP/1.1", upstream: "http://%s:%d%s"''
           [Timestamp G tsLayout, pid, tid, connID, zipfIP, server, path, upstreamIP, port, path] [] [],
         template SevWarn
           ''%s [warn] %d#%d: *%d an upstream response is buffered to a temporary file %s, client: %s, server: %s''
           [Timestamp G tsLayout, pid, tid, connID, tmpfile, zipfIP, server] [] [],
         template SevWarn ''%s [warn] %d#%d: *%d upstream timed out, client: %s, server: %s''
           [Timestamp G tsLayout, pid, tid, connID, zipfIP, server] [] [],
         template SevError
           ''%s [error] %d#%d: *%d connect() failed (111: Connection refused) while connecting to upstream, client: %s, server: %s, request: "GET %s HTTP/1.1", upstream: "http://%s:%d%s"''
           [Timestamp G tsLayout, pid, tid, connID, zipfIP, server, path, upstreamIP, port, path] [] [],
         template SevError
           ''%s [error] %d#%d: *%d upstream timed out (110: Connection timed out) while reading response header from upstream, client: %s, server: %s, request: "POST %s HTTP/1.1"''
           [Timestamp G tsLayout, pid, tid, connID, zipfIP, server, path] [] [],
         template SevError ''%s [error] %d#%d: *%d no live upstreams while connecting to upstream, client: %s, server: %s''
           [Timestamp G tsLayout, pid, tid, connID, zipfIP, server] [] [],
         template SevError
           ''%s [error] %d#%d: *%d connect() failed (111: Connection refused) while connecting to upstream, client: %s, server: %s, request: "GET %s HTTP/1.1", upstream: "http://%s:%d%s"\<newline>%s''
           [Timestamp G tsLayout, pid, tid, connID, zipfIP, server, path, upstreamIP, port, path, text1] [] [],
         template SevError
           ''%s [error] %d#%d: *%d upstream timed out (110: Connection timed out) while reading response header from upstream, client: %s, server: %s\<newline>%s''
           [Timestamp G tsLayout, pid, tid, connID, zipfIP, server, text2] [] [],
         template SevError
           ''%s [error] %d#%d: *%d no live upstreams while connecting to upstream, client: %s, server: %s\<newline>%s''
           [Timestamp G tsLayout, pid, tid, connID, zipfIP, server, text3] [] [],
         template SevFatal ''%s [emerg] %d#%d: host not found in upstream "%s" in /etc/nginx/conf.d/upstream.conf:3''
           [Timestamp G tsLayout, pid, tid, RandomFrom [''backend-api'', ''mysql-primary'', ''redis-cache'']] [] [],
         template SevFatal ''%s [emerg] %d#%d: bind() to 0.0.0.0:%d failed (98: Address already in use)''
           [Timestamp G tsLayout, pid, tid, RandomInt 80 8080] [] [],
         template SevFatal
           ''%s [emerg] %d#%d: host not found in upstream "%s" in /etc/nginx/conf.d/upstream.conf:3\<newline>%s''
           [Timestamp G tsLayout, pid, tid, RandomFrom [''backend-api'', ''mysql-primary'', ''redis-cache''], text4] [] [],
         template SevFatal ''%s [emerg] %d#%d: bind() to 0.0.0.0:%d failed (98: Address already in use)\<newline>%s''
           [Timestamp G tsLayout, pid, tid, RandomInt 80 8080, text5] [] [],
         template SevFatal ''%s [emerg] %d#%d: malloc() failed (12: Cannot allocate memory)\<newline>%s''
           [Timestamp G tsLayout, pid, tid, text6] [] []], r7) }\<close>

definition NginxProfile :: "golib \<Rightarrow> rng option \<Rightarrow> ip_pool_config option \<Rightarrow> (app_profile \<times> rng) option" where
  "NginxProfile G ro ip_cfg =
     do { (trace, r1) \<leftarrow> GoStackTrace 800 8500 (rng_or_default G ro);
          (cross_cutting, r2) \<leftarrow> ErrorMessageAttrs (Some trace) r1;
          (long_tail, r3) \<leftarrow> LongTailAttrs G r2;
          (access, r4) \<leftarrow> nginxAccessLogs G ip_cfg r3;
          (warn, r') \<leftarrow> nginxWarnLogs G ip_cfg r4;
          let msgs = access @ nginxDebugLogs G @ warn;
          Some (\<lparr>app_name = ''nginx'', app_scope = ''io.opentelemetry.nginx'',
                 app_messages = appendCrossCutting msgs cross_cutting, app_weights = DefaultSeverityWeights,
                 app_trace = False, app_long_tail = Some long_tail\<rparr>, r') }"

subsection \<open>Well-formedness\<close>

lemma nginx_debug_ok: "part_ok {SevDebug} [] (nginxDebugLogs G)"
  unfolding nginxDebugLogs_def Let_def by (rule part_exactI) (simp_all add: exact_eval)

lemma nginx_access_ok:
  assumes "pool_cfg_ok G cfg"
  shows "yields (nginxAccessLogs G cfg r) (\<lambda>(ms, _). part_ok {SevInfo} [] ms)"
  unfolding nginxAccessLogs_def Let_def
  by (rule bind_yields [OF zipfian_total [OF assms]]) (rule part_yieldsI, simp_all add: exact_eval nginxRouteTemplates_def)

lemma nginx_warn_ok:
  assumes "pool_cfg_ok G cfg"
  shows "yields (nginxWarnLogs G cfg r) (\<lambda>(ms, _). part_ok {SevWarn, SevError, SevFatal} [] ms)"
  unfolding nginxWarnLogs_def Let_def
  by (rule bind_yields [OF zipfian_total [OF assms]], (rule bind_texts(4), simp)+)
    (rule part_yieldsI, simp_all add: exact_eval)

lemma nginx_profile_ok:
  assumes "pool_cfg_ok G cfg"
  shows "yields (NginxProfile G ro cfg) (\<lambda>(p, _). profile_complete [] p)"
  unfolding NginxProfile_def Let_def
  by (rule bind_texts(1), simp, rule bind_yields [OF cross_cutting_yields], assumption, rule bind_yields [OF rare_fields_yields],
      rule bind_yields [OF nginx_access_ok [OF assms]], rule bind_yields [OF nginx_warn_ok [OF assms]])
    (auto intro!: profile_completeI nginx_debug_ok)

end
