(* ===== verification/ProfileMySQL.thy ===== *)
theory ProfileMySQL
  imports CrossCutting
begin

text \<open>
  The MySQL profile (\<open>internal/loggen/mysql.go\<close>). Its tables of names are in \<open>Traces\<close>, which
  uses them too.
\<close>

definition mysqlInfoLogs :: "golib \<Rightarrow> arg_gen \<Rightarrow> msg_template list" where
  \<open>mysqlInfoLogs G zipfIP =
     (let tsLayout = ''2006-01-02 15:04:05.000000'';
          threadID = RandomInt 1 100;
          connID = RandomInt 1000 99999;
          code = RandomFrom [''010901'', ''010907'', ''010909'', ''010912''];
          db = RandomPath mysqlDBNames;
          user = RandomPath mysqlUsers;
          hostname = RandomFrom [''mysql-primary-0'', ''mysql-replica-1'', ''mysql-2'']
      in
        [template SevInfo
           ''%s %d [Note] [MY-%s] [Server] %s: ready for connections. Version: '8.0.36' socket: '/var/run/mysqld/mysqld.sock' port: 3306''
           [Timestamp G tsLayout, threadID, code, hostname] [] [attr ''db.system'' (Static ''mysql'')],
         template SevInfo ''%s %d [Note] [MY-%s] [Server] %s: ready'' [Timestamp G tsLayout, threadID, code, hostname] []
           [attr ''db.system'' (Static ''mysql'')],
         template SevInfo ''%s %d [Note] [MY-%s] [InnoDB] Buffer pool(s) load completed at %s''
           [Timestamp G tsLayout, threadID, code, Timestamp G tsLayout] [] [attr ''db.system'' (Static ''mysql'')],
         template SevInfo
           ''%s %d [Note] [MY-%s] [Server] Aborted connection %d to db: '%s' user: '%s' host: '%s' (Got timeout reading communication packets)''
           [Timestamp G tsLayout, threadID, code, connID, db, user, zipfIP] [(''db.name'', 4)]
           [attr ''db.system'' (Static ''mysql''), attr ''db.user'' user],
         template SevInfo
           (''%s %d [Note] [MY-%s] [Repl] Replica SQL thread for channel '' @ [CHR 0x27, CHR 0x27] @ '' started, Replica has read all relay log; waiting for more updates'')
           [Timestamp G tsLayout, threadID, code] [] [attr ''db.system'' (Static ''mysql'')]])\<close>

definition mysqlDebugLogs :: "golib \<Rightarrow> rng \<Rightarrow> (msg_template list \<times> rng) option" where
  \<open>mysqlDebugLogs G r =
     do { (text1, r1) \<leftarrow> SQLExplainPlan 600 2500 r;
          let tsLayout = ''2006-01-02 15:04:05.000000'';
          let threadID = RandomInt 1 100;
          let code = RandomFrom [''010901'', ''010907''];
          let db = RandomPath mysqlDBNames;
          let table = RandomPath mysqlTables;
          Some (
        [template SevDebug ''%s %d [Note] [MY-%s] [InnoDB] page_cleaner: flushed %d pages, %d%% of innodb_io_capacity''
           [Timestamp G tsLayout, threadID, code, RandomInt 50 500, RandomInt 10 100] []
           [attr ''db.system'' (Static ''mysql'')],
         template SevDebug ''%s %d [Note] [MY-%s] [Server] Analyzing table '%s.%s': status OK''
           [Timestamp G tsLayout, threadID, code, db, table] [(''db.name'', 3), (''db.sql.table'', 4)]
           [attr ''db.system'' (Static ''mysql''), attr ''db.operation.name'' (Static ''ANALYZE'')],
         template SevDebug ''%s %d [Note] [MY-%s] [Server] EXPLAIN for query on %s.%s:\<newline>%s''
           [Timestamp G tsLayout, threadID, code, db, table, text1] [(''db.name'', 3), (''db.sql.table'', 4)]
           [attr ''db.system'' (Static ''mysql''), attr ''db.operation.name'' (Static ''SELECT'')]], r1) }\<close>

definition mysqlWarnLogs :: "golib \<Rightarrow> arg_gen \<Rightarrow> rng \<Rightarrow> (msg_template list \<times> rng) option" where
  \<open>mysqlWarnLogs G zipfIP r =
     do { (text1, r1) \<leftarrow> MySQLCrashTrace 500 2500 r;
          (text2, r2) \<leftarrow> MySQLCrashTrace 600 3000 r1;
          (text3, r3) \<leftarrow> MySQLCrashTrace 800 4500 r2;
          (text4, r4) \<leftarrow> MySQLCrashTrace 1000 5000 r3;
          (text5, r5) \<leftarrow> MySQLCrashTrace 700 4000 r4;
          let tsLayout = ''2006-01-02 15:04:05.000000'';
          let threadID = RandomInt 1 100;
          let connID = RandomInt 1000 99999;
          let code = RandomFrom [''010907'', ''010911'', ''010914''];
          let db = RandomPath mysqlDBNames;
          let user = RandomPath mysqlUsers;
          let osThreadID = RandomInt 1000 99999;
          let table = RandomPath mysqlTables;
          let column = RandomPath mysqlColumns;
          let duration = RandomInt 120 300;
          Some (
        [template SevWarn
           ''%s %d [Warning] [MY-%s] [Server] Aborted connection %d to db: '%s' user: '%s' host: '%s' (Got an error reading communication packets)''
           [Timestamp G tsLayout, threadID, code, connID, db, user, zipfIP] [(''db.name'', 4)]
           [attr ''db.system'' (Static ''mysql''), attr ''db.user'' user],
         template SevWarn ''%s %d [Warning] [MY-%s] [InnoDB] A long semaphore wait (>120 seconds, %ds) for thread %d''
           [Timestamp G tsLayout, threadID, code, duration, osThreadID] [] [attr ''db.system'' (Static ''mysql'')],
         template SevWarn
           (''%s %d [Warning] [MY-%s] [Server] Slow query detected: %ds, rows_examined: %d, db: '%s', query: 'SELECT * FROM %s WHERE %s = %%s'' @ [CHR 0x27])
           [Timestamp G tsLayout, threadID, code, RandomInt 2 30, RandomInt 1000 100000, db, table, column]
           [(''db.name'', 6), (''db.sql.table'', 7)]
           [attr ''db.system'' (Static ''mysql''), attr ''db.operation.name'' (Static ''SELECT'')],
         template SevError ''%s %d [ERROR] [MY-%s] [Server] Can't start server: Bind on TCP/IP port: Address already in use''
           [Timestamp G tsLayout, threadID, code] [] [attr ''db.system'' (Static ''mysql'')],
         template SevError ''%s %d [ERROR] [MY-%s] [InnoDB] Cannot allocate memory for the buffer pool''
           [Timestamp G tsLayout, threadID, code] [] [attr ''db.system'' (Static ''mysql'')],
         template SevError ''%s %d [ERROR] [MY-%s] [Server] Got error %d from storage engine''
           [Timestamp G tsLayout, threadID, code, RandomInt 1030 1035] [] [attr ''db.system'' (Static ''mysql'')],
         template SevError ''%s %d [ERROR] [MY-%s] [Repl] Error 'Table '%s.%s' doesn't exist' on query.''
           [Timestamp G tsLayout, threadID, code, db, table] [(''db.name'', 3), (''db.sql.table'', 4)]
           [attr ''db.system'' (Static ''mysql''), attr ''db.operation.name'' (Static ''SELECT'')],
         template SevError ''%s %d [ERROR] [MY-%s] [InnoDB] LATEST DETECTED DEADLOCK\<newline>%s''
           [Timestamp G tsLayout, threadID, code, text1] [] [attr ''db.system'' (Static ''mysql'')],
         template SevError ''%s %d [ERROR] [MY-%s] [InnoDB] Cannot allocate memory for the buffer pool\<newline>%s''
           [Timestamp G tsLayout, threadID, code, text2] [] [attr ''db.system'' (Static ''mysql'')],
         template SevFatal ''%s %d [ERROR] [MY-%s] [InnoDB] LATEST DETECTED DEADLOCK'' [Timestamp G tsLayout, threadID, code]
           [] [attr ''db.system'' (Static ''mysql'')],
         template SevFatal
           ''%s %d [ERROR] [MY-%s] [Server] Out of memory; check if mysqld or some other process uses all available memory''
           [Timestamp G tsLayout, threadID, code] [] [attr ''db.system'' (Static ''mysql'')],
         template SevFatal ''%s %d [ERROR] [MY-%s] [InnoDB] LATEST DETECTED DEADLOCK\<newline>%s''
           [Timestamp G tsLayout, threadID, code, text3] [] [attr ''db.system'' (Static ''mysql'')],
         template SevFatal ''%s %d [ERROR] [MY-%s] [Server] Out of memory\<newline>%s''
           [Timestamp G tsLayout, threadID, code, text4] [] [attr ''db.system'' (Static ''mysql'')],
         template SevFatal ''%s %d [ERROR] [MY-%s] [InnoDB] Assertion failure in thread %d\<newline>%s''
           [Timestamp G tsLayout, threadID, code, osThreadID, text5] [] [attr ''db.system'' (Static ''mysql'')]], r5) }\<close>

definition MySQLProfile :: "golib \<Rightarrow> rng option \<Rightarrow> ip_pool_config option \<Rightarrow> (app_profile \<times> rng) option" where
  "MySQLProfile G ro ip_cfg =
     do { (zipfIP, r1) \<leftarrow> ZipfianIP G 5000 (rng_or_default G ro) ip_cfg;
          (trace, r2) \<leftarrow> JavaStackTrace 220 1500 r1;
          (cross_cutting, r3) \<leftarrow> ErrorMessageAttrs (Some trace) r2;
          (long_tail, r4) \<leftarrow> LongTailAttrs G r3;
          (debug, r5) \<leftarrow> mysqlDebugLogs G r4;
          (warn, r') \<leftarrow> mysqlWarnLogs G zipfIP r5;
          let msgs = mysqlInfoLogs G zipfIP @ debug @ warn;
          Some (\<lparr>app_name = ''mysql'', app_scope = ''io.opentelemetry.mysql'',
                 app_messages = appendCrossCutting msgs cross_cutting, app_weights = DefaultSeverityWeights,
                 app_trace = False, app_long_tail = Some long_tail\<rparr>, r') }"

subsection \<open>Well-formedness\<close>

lemma mysql_info_ok: "text_total zipfIP \<Longrightarrow> part_ok {SevInfo} [] (mysqlInfoLogs G zipfIP)"
  unfolding mysqlInfoLogs_def Let_def by (rule part_exactI) (simp_all add: exact_eval mysqlDBNames_def mysqlUsers_def)

lemma mysql_debug_ok: "yields (mysqlDebugLogs G r) (\<lambda>(ms, _). part_ok {SevDebug} [] ms)"
  unfolding mysqlDebugLogs_def Let_def
  by (rule bind_texts(6), simp) (rule part_yieldsI, simp_all add: exact_eval mysqlDBNames_def mysqlTables_def)

lemma mysql_warn_ok:
  "text_total zipfIP \<Longrightarrow> yields (mysqlWarnLogs G zipfIP r) (\<lambda>(ms, _). part_ok {SevWarn, SevError, SevFatal} [] ms)"
  unfolding mysqlWarnLogs_def Let_def
  by ((rule bind_texts(3), simp)+)
    (rule part_yieldsI, simp_all add: exact_eval mysqlDBNames_def mysqlUsers_def mysqlTables_def mysqlColumns_def)

lemma mysql_profile_ok:
  assumes "pool_cfg_ok G cfg"
  shows "yields (MySQLProfile G ro cfg) (\<lambda>(p, _). profile_complete [] p)"
  unfolding MySQLProfile_def Let_def
  by (rule bind_yields [OF zipfian_total [OF assms]], rule bind_texts(2), simp, rule bind_yields [OF cross_cutting_yields], assumption,
      rule bind_yields [OF rare_fields_yields], rule bind_yields [OF mysql_debug_ok], rule bind_yields [OF mysql_warn_ok], assumption)
    (auto intro!: profile_completeI mysql_info_ok)

end
