(* ===== verification/ProfileRedis.thy ===== *)
theory ProfileRedis
  imports CrossCutting
begin

text \<open>
  The Redis profile (\<open>internal/loggen/redis.go\<close>).
\<close>

definition redisEvictionPolicies :: "string list" where
  "redisEvictionPolicies = [''allkeys-lru'', ''volatile-lru'', ''noeviction'']"

definition redisInfoLogs :: "golib \<Rightarrow> arg_gen \<Rightarrow> msg_template list" where
  \<open>redisInfoLogs G zipfIP =
     (let tsLayout = ''02 Jan 2006 15:04:05.000'';
          pid = RandomInt 1 99999;
          role = RandomFrom [''M'', ''S'', ''C'']
      in
        [template SevInfo ''%d:%s %s + pong'' [pid, role, Timestamp G tsLayout] [] [attr ''db.system'' (Static ''redis'')],
         template SevInfo ''%d:%s %s # Server started, Redis version=%s''
           [pid, role, Timestamp G tsLayout, RandomPath redisVersions] [] [attr ''db.system'' (Static ''redis'')],
         template SevInfo ''%d:%s %s * Ready to accept connections tcp'' [pid, role, Timestamp G tsLayout] []
           [attr ''db.system'' (Static ''redis'')],
         template SevInfo ''%d:%s %s * DB loaded from append only file: %d seconds''
           [pid, role, Timestamp G tsLayout, RandomInt 1 15] [] [attr ''db.system'' (Static ''redis'')],
         template SevInfo ''%d:%s %s * %d clients connected (%d replicas), %d bytes in use''
           [pid, role, Timestamp G tsLayout, RandomInt 1 100, RandomInt 0 5, RandomInt 1000000 50000000] []
           [attr ''db.system'' (Static ''redis'')],
         template SevInfo ''%d:%s %s * Background saving started by pid %d''
           [pid, role, Timestamp G tsLayout, RandomInt 1000 99999] [] [attr ''db.system'' (Static ''redis'')],
         template SevInfo ''%d:%s %s * Background saving terminated with success'' [pid, role, Timestamp G tsLayout] []
           [attr ''db.system'' (Static ''redis'')],
         template SevInfo ''%d:%s %s # Connection accepted from %s:%d''
           [pid, role, Timestamp G tsLayout, zipfIP, RandomInt 40000 65000] []
           [attr ''db.system'' (Static ''redis''), attr ''net.peer.port'' (RandomFromInt [6379])]])\<close>

definition redisDebugLogs :: "golib \<Rightarrow> arg_gen \<Rightarrow> rng \<Rightarrow> (msg_template list \<times> rng) option" where
  \<open>redisDebugLogs G zipfIP r =
     do { (text1, r1) \<leftarrow> RedisSlowlogOutput 600 2500 r;
          let tsLayout = ''02 Jan 2006 15:04:05.000'';
          let pid = RandomInt 1 99999;
          let role = RandomFrom [''M'', ''S'', ''C''];
          Some (
        [template SevDebug ''%d:%s %s - Accepted %s:%d -> %s:%d''
           [pid, role, Timestamp G tsLayout, zipfIP, RandomInt 40000 65000, RandomFrom [''127.0.0.1'', ''10.0.0.1''],
            RandomInt 6379 6381]
           [] [attr ''db.system'' (Static ''redis''), attr ''net.peer.port'' (RandomFromInt [6379])],
         template SevDebug ''%d:%s %s - 0 clients connected (0 replicas), %d bytes in use''
           [pid, role, Timestamp G tsLayout, RandomInt 100000 5000000] [] [attr ''db.system'' (Static ''redis'')],
         template SevDebug ''%d:%s %s * SLOWLOG output:\<newline>%s'' [pid, role, Timestamp G tsLayout, text1] []
           [attr ''db.system'' (Static ''redis''),
            attr ''db.operation.name'' (RandomFrom [''GET'', ''SET'', ''HGETALL'', ''LRANGE''])]], r1) }\<close>

definition redisWarnLogs :: "golib \<Rightarrow> rng \<Rightarrow> (msg_template list \<times> rng) option" where
  \<open>redisWarnLogs G r =
     do { (text1, r1) \<leftarrow> RedisCrashReport 1500 8000 r;
          (text2, r2) \<leftarrow> RedisCrashReport 2000 8500 r1;
          (text3, r3) \<leftarrow> RedisCrashReport 2000 8500 r2;
          (text4, r4) \<leftarrow> RedisCrashReport 2500 8500 r3;
          (text5, r5) \<leftarrow> RedisCrashReport 2000 8500 r4;
          let tsLayout = ''02 Jan 2006 15:04:05.000'';
          let pid = RandomInt 1 99999;
          let role = RandomFrom [''M'', ''S''];
          Some (
        [template SevWarn
           ''%d:%s %s # WARNING: %d clients found in the connected clients list with idle time >= %d seconds, disconnecting them.''
           [pid, role, Timestamp G tsLayout, RandomInt 1 10, RandomInt 300 3600] [] [attr ''db.system'' (Static ''redis'')],
         template SevWarn
           ''%d:%s %s # WARNING overcommit_memory is set to 0! Background save may fail under low memory condition.''
           [pid, role, Timestamp G tsLayout] [] [attr ''db.system'' (Static ''redis'')],
         template SevWarn ''%d:%s %s * Reaching maxmemory limit (%d bytes), evicting keys using %s policy''
           [pid, role, Timestamp G tsLayout, RandomInt 100000000 8000000000, RandomPath redisEvictionPolicies] []
           [attr ''db.system'' (Static ''redis'')],
         template SevError ''%d:%s %s # Error accepting a client connection: %s''
           [pid, role, Timestamp G tsLayout, RandomFrom [''Connection reset by peer'', ''Invalid argument'',
            ''Too many open files'']]
           [] [attr ''db.system'' (Static ''redis'')],
         template SevError ''%d:%s %s # Error opening /setting AOF rewrite IPC pipes: %s''
           [pid, role, Timestamp G tsLayout, RandomFrom [''Broken pipe'', ''Invalid argument'',
            ''No such file or directory'']]
           [] [attr ''db.system'' (Static ''redis'')],
         template SevError
           ''%d:%s %s # MISCONF Redis is configured to save RDB snapshots, but it's currently unable to persist to disk.''
           [pid, role, Timestamp G tsLayout] [] [attr ''db.system'' (Static ''redis'')],
         template SevError ''%d:%s %s # Can't save in background: fork: Cannot allocate memory''
           [pid, role, Timestamp G tsLayout] [] [attr ''db.system'' (Static ''redis'')],
         template SevError ''%d:%s %s # Error accepting a client connection: %s\<newline>%s''
           [pid, role, Timestamp G tsLayout, RandomFrom [''Connection reset by peer'', ''Invalid argument'',
            ''Too many open files''], text1]
           [] [attr ''db.system'' (Static ''redis'')],
         template SevError ''%d:%s %s # Can't save in background: fork: Cannot allocate memory\<newline>%s''
           [pid, role, Timestamp G tsLayout, text2] [] [attr ''db.system'' (Static ''redis'')],
         template SevFatal (''%d:%s %s # Fatal error, can't open config file '%s'' @ [CHR 0x27])
           [pid, role, Timestamp G tsLayout, RandomFrom [''/etc/redis/redis.conf'', ''/usr/local/etc/redis.conf'']] []
           [attr ''db.system'' (Static ''redis'')],
         template SevFatal ''%d:%s %s # === REDIS BUG REPORT START: Cut & paste starting from here ===''
           [pid, role, Timestamp G tsLayout] [] [attr ''db.system'' (Static ''redis'')],
         template SevFatal ''%d:%s %s # Fatal error, can't open config file '%s'\<newline>%s''
           [pid, role, Timestamp G tsLayout, RandomFrom [''/etc/redis/redis.conf'', ''/usr/local/etc/redis.conf''], text3] []
           [attr ''db.system'' (Static ''redis'')],
         template SevFatal ''%d:%s %s # === REDIS BUG REPORT START: Cut & paste starting from here ===\<newline>%s''
           [pid, role, Timestamp G tsLayout, text4] [] [attr ''db.system'' (Static ''redis'')],
         template SevFatal ''%d:%s %s # Fatal signal 11 (SIGSEGV) at 0x%x\<newline>%s''
           [pid, role, Timestamp G tsLayout, RandomInt 0 0xffffffff, text5] [] [attr ''db.system'' (Static ''redis'')]], r5) }\<close>

definition RedisProfile :: "golib \<Rightarrow> rng option \<Rightarrow> ip_pool_config option \<Rightarrow> (app_profile \<times> rng) option" where
  "RedisProfile G ro ip_cfg =
     do { (zipfIP, r1) \<leftarrow> ZipfianIP G 5000 (rng_or_default G ro) ip_cfg;
          (trace, r2) \<leftarrow> GoStackTrace 800 8500 r1;
          (cross_cutting, r3) \<leftarrow> ErrorMessageAttrs (Some trace) r2;
          (long_tail, r4) \<leftarrow> LongTailAttrs G r3;
          (debug, r5) \<leftarrow> redisDebugLogs G zipfIP r4;
          (warn, r') \<leftarrow> redisWarnLogs G r5;
          let msgs = redisInfoLogs G zipfIP @ debug @ warn;
          Some (\<lparr>app_name = ''redis'', app_scope = ''io.opentelemetry.redis'',
                 app_messages = appendCrossCutting msgs cross_cutting, app_weights = DefaultSeverityWeights,
                 app_trace = False, app_long_tail = Some long_tail\<rparr>, r') }"

subsection \<open>Well-formedness\<close>

lemma redis_info_ok: "text_total zipfIP \<Longrightarrow> part_ok {SevInfo} [] (redisInfoLogs G zipfIP)"
  unfolding redisInfoLogs_def Let_def by (rule part_exactI) (simp_all add: exact_eval redisVersions_def)

lemma redis_debug_ok: "text_total zipfIP \<Longrightarrow> yields (redisDebugLogs G zipfIP r) (\<lambda>(ms, _). part_ok {SevDebug} [] ms)"
  unfolding redisDebugLogs_def Let_def
  by (rule bind_texts(7), simp) (rule part_yieldsI, simp_all add: exact_eval)

lemma redis_warn_ok: "yields (redisWarnLogs G r) (\<lambda>(ms, _). part_ok {SevWarn, SevError, SevFatal} [] ms)"
  unfolding redisWarnLogs_def Let_def
  by ((rule bind_texts(8), simp)+) (rule part_yieldsI, simp_all add: exact_eval redisEvictionPolicies_def)

lemma redis_profile_ok:
  assumes "pool_cfg_ok G cfg"
  shows "yields (RedisProfile G ro cfg) (\<lambda>(p, _). profile_complete [] p)"
  unfolding RedisProfile_def Let_def
  by (rule bind_yields [OF zipfian_total [OF assms]], rule bind_texts(1), simp, rule bind_yields [OF cross_cutting_yields], assumption,
      rule bind_yields [OF rare_fields_yields], rule bind_yields [OF redis_debug_ok], assumption, rule bind_yields [OF redis_warn_ok])
    (auto intro!: profile_completeI redis_info_ok)

end
