(* ===== verification/ProfileGoApp.thy ===== *)
theory ProfileGoApp
  imports CrossCutting
begin

text \<open>
  The profile of a Go application (\<open>internal/loggen/goapp.go\<close>), whose messages are JSON.
\<close>

definition goAppHTTPMethods :: "string list" where
  "goAppHTTPMethods = [''GET'', ''POST'', ''PUT'', ''DELETE'', ''PATCH'']"

definition goAppPaths :: "string list" where
  "goAppPaths = [''/api/v1/users'', ''/api/v1/orders'', ''/api/v1/products'', ''/health'', ''/metrics'']"

definition goAppServices :: "string list" where
  "goAppServices = [''user-service'', ''order-service'', ''payment-service'', ''notification-service'']"

definition goAppGrpcMethods :: "string list" where
  "goAppGrpcMethods = [''GetUser'', ''CreateOrder'', ''ProcessPayment'', ''SendNotification'']"

definition goAppQueues :: "string list" where
  "goAppQueues = [''orders'', ''notifications'', ''emails'', ''jobs'']"

definition goAppErrors :: "string list" where
  "goAppErrors = [''connection refused'', ''timeout'', ''context deadline exceeded'', ''connection reset by peer'']"

definition goAppDbHosts :: "string list" where
  "goAppDbHosts = [''mysql-primary:3306'', ''postgres:5432'', ''localhost:5432'']"

definition goAppInfoLogs :: "golib \<Rightarrow> msg_template list" where
  \<open>goAppInfoLogs G =
     (let tsLayout = ''2006-01-02T15:04:05.000Z0700''
      in
        [template SevInfo ''{"level":"info","msg":"ok"}'' [] [] [attr ''telemetry.sdk.language'' (Static ''go'')],
         template SevInfo
           ''{"level":"info","ts":"%s","caller":"server/handler.go:%d","msg":"request completed","method":"%s","path":"%s","status":%d,"duration":"%dms","request_id":"%s"}''
           [Timestamp G tsLayout, RandomInt 45 120, RandomPath goAppHTTPMethods, RandomPath goAppPaths, RandomFromInt [200,
            201, 204, 304], RandomDuration 10 500, RandomID 16]
           [] [attr ''telemetry.sdk.language'' (Static ''go'')],
         template SevInfo
           ''{"level":"info","ts":"%s","caller":"db/connection.go:%d","msg":"database connection established","host":"%s","port":5432,"database":"%s"}''
           [Timestamp G tsLayout, RandomInt 50 80, RandomPath goAppDbHosts, RandomPath mysqlDBNames] []
           [attr ''telemetry.sdk.language'' (Static ''go'')],
         template SevInfo
           ''{"level":"info","ts":"%s","caller":"grpc/client.go:%d","msg":"grpc call completed","service":"%s","method":"%s","duration":"%dms","code":"OK"}''
           [Timestamp G tsLayout, RandomInt 60 95, RandomPath goAppServices, RandomPath goAppGrpcMethods,
            RandomDuration 5 200]
           [(''rpc.service'', 2), (''rpc.method'', 3)]
           [attr ''telemetry.sdk.language'' (Static ''go''), attr ''rpc.system'' (Static ''grpc'')],
         template SevInfo
           ''{"level":"info","ts":"%s","caller":"worker/processor.go:%d","msg":"job processed","job_id":"%s","queue":"%s","duration":"%dms"}''
           [Timestamp G tsLayout, RandomInt 70 110, RandomID 12, RandomPath goAppQueues, RandomDuration 50 2000]
           [(''messaging.destination.name'', 3)]
           [attr ''telemetry.sdk.language'' (Static ''go''), attr ''messaging.system'' (Static ''rabbitmq'')],
         template SevInfo
           ''{"level":"info","ts":"%s","caller":"server/handler.go:%d","msg":"request started","method":"%s","path":"%s","request_id":"%s"}''
           [Timestamp G tsLayout, RandomInt 45 120, RandomPath goAppHTTPMethods, RandomPath goAppPaths, RandomID 16] []
           [attr ''telemetry.sdk.language'' (Static ''go'')]])\<close>

definition goAppDebugLogs :: "golib \<Rightarrow> rng \<Rightarrow> (msg_template list \<times> rng) option" where
  \<open>goAppDebugLogs G r =
     do { (text1, r1) \<leftarrow> LargeJSONPayload 800 2500 r;
          (text2, r2) \<leftarrow> LargeJSONPayload 1000 3000 r1;
          let tsLayout = ''2006-01-02T15:04:05.000Z0700'';
          Some (
        [template SevDebug
           ''{"level":"debug","ts":"%s","caller":"server/handler.go:%d","msg":"request headers","method":"%s","path":"%s","content_type":"application/json","accept":"application/json","user_agent":"%s","request_id":"%s"}''
           [Timestamp G tsLayout, RandomInt 45 120, RandomPath goAppHTTPMethods, RandomPath goAppPaths, RandomUserAgent,
            RandomID 16]
           [] [attr ''telemetry.sdk.language'' (Static ''go'')],
         template SevDebug
           ''{"level":"debug","ts":"%s","caller":"db/query.go:%d","msg":"executing query","query":"SELECT * FROM %s WHERE id = $1","params":["%%s"],"duration":"%dms"}''
           [Timestamp G tsLayout, RandomInt 80 120, RandomPath mysqlTables, RandomID 8, RandomDuration 1 50] []
           [attr ''telemetry.sdk.language'' (Static ''go'')],
         template SevDebug
           ''{"level":"debug","ts":"%s","caller":"server/handler.go:%d","msg":"request body","method":"%s","path":"%s","body":%q,"request_id":"%s"}''
           [Timestamp G tsLayout, RandomInt 45 120, RandomPath goAppHTTPMethods, RandomPath goAppPaths, text1, RandomID 16]
           [] [attr ''telemetry.sdk.language'' (Static ''go'')],
         template SevDebug
           ''{"level":"debug","ts":"%s","caller":"server/handler.go:%d","msg":"response body","path":"%s","body":%q,"request_id":"%s"}''
           [Timestamp G tsLayout, RandomInt 45 120, RandomPath goAppPaths, text2, RandomID 16] []
           [attr ''telemetry.sdk.language'' (Static ''go'')]], r2) }\<close>

definition goAppWarnLogs :: "golib \<Rightarrow> rng \<Rightarrow> (msg_template list \<times> rng) option" where
  \<open>goAppWarnLogs G r =
     do { (text1, r1) \<leftarrow> GoStackTrace 1500 8500 r;
          (text2, r2) \<leftarrow> GoStackTrace 1500 8500 r1;
          (text3, r3) \<leftarrow> GoStackTrace 1500 8500 r2;
          (text4, r4) \<leftarrow> JavaStackTrace 1500 8500 r3;
          (text5, r5) \<leftarrow> GoStackTrace 2000 8500 r4;
          (text6, r6) \<leftarrow> GoStackTrace 2500 8500 r5;
          (text7, r7) \<leftarrow> GoStackTrace 1500 8500 r6;
          (text8, r8) \<leftarrow> GoStackTrace 2000 8500 r7;
          (text9, r9) \<leftarrow> JavaStackTrace 2000 8500 r8;
          let tsLayout = ''2006-01-02T15:04:05.000Z0700'';
          Some (
        [template SevWarn
           ''{"level":"warn","ts":"%s","caller":"server/handler.go:%d","msg":"slow request detected","method":"%s","path":"%s","duration":"%dms","threshold":"500ms"}''
           [Timestamp G tsLayout, RandomInt 45 120, RandomPath goAppHTTPMethods, RandomPath goAppPaths,
            RandomDuration 500 3000]
           [] [attr ''telemetry.sdk.language'' (Static ''go'')],
         template SevWarn
           ''{"level":"warn","ts":"%s","caller":"cache/redis.go:%d","msg":"cache miss","key":"%s","fallback":"database"}''
           [Timestamp G tsLayout, RandomInt 30 60, RandomFrom [''user:123'', ''session:abc'', ''config:global'',
            ''product:456'']]
           [] [attr ''telemetry.sdk.language'' (Static ''go'')],
         template SevWarn
           ''{"level":"warn","ts":"%s","caller":"grpc/client.go:%d","msg":"grpc retry","service":"%s","method":"%s","attempt":2,"max_retries":3}''
           [Timestamp G tsLayout, RandomInt 60 95, RandomPath goAppServices, RandomPath goAppGrpcMethods]
           [(''rpc.service'', 2), (''rpc.method'', 3)]
           [attr ''telemetry.sdk.language'' (Static ''go''), attr ''rpc.system'' (Static ''grpc'')],
         template SevError
           ''{"level":"error","ts":"%s","caller":"server/handler.go:%d","msg":"request failed","method":"%s","path":"%s","status":500,"error":"%s","request_id":"%s"}''
           [Timestamp G tsLayout, RandomInt 45 120, RandomPath goAppHTTPMethods, RandomPath goAppPaths,
            RandomPath goAppErrors, RandomID 16]
           [] [attr ''telemetry.sdk.language'' (Static ''go'')],
         template SevError
           ''{"level":"error","ts":"%s","caller":"db/query.go:%d","msg":"query execution failed","query":"SELECT * FROM %s","error":"%s","duration":"%dms"}''
           [Timestamp G tsLayout, RandomInt 80 120, RandomPath mysqlTables, RandomPath goAppErrors, RandomDuration 100 5000]
           [] [attr ''telemetry.sdk.language'' (Static ''go'')],
         template SevError
           ''{"level":"error","ts":"%s","caller":"grpc/client.go:%d","msg":"grpc call failed","service":"%s","method":"%s","code":"Unavailable","error":"%s"}''
           [Timestamp G tsLayout, RandomInt 60 95, RandomPath goAppServices, RandomPath goAppGrpcMethods,
            RandomPath goAppErrors]
           [(''rpc.service'', 2), (''rpc.method'', 3)]
           [attr ''telemetry.sdk.language'' (Static ''go''), attr ''rpc.system'' (Static ''grpc'')],
         template SevError
           ''{"level":"error","ts":"%s","caller":"server/handler.go:%d","msg":"panic recovered","error":"%s","stacktrace":"%s"}''
           [Timestamp G tsLayout, RandomInt 45 120, RandomPath goAppErrors, text1] []
           [attr ''telemetry.sdk.language'' (Static ''go'')],
         template SevError
           ''{"level":"error","ts":"%s","caller":"server/handler.go:%d","msg":"handler panic","error":"%s","request_id":"%s","stacktrace":"%s"}''
           [Timestamp G tsLayout, RandomInt 45 120, RandomPath goAppErrors, RandomID 16, text2] []
           [attr ''telemetry.sdk.language'' (Static ''go'')],
         template SevError
           ''{"level":"error","ts":"%s","caller":"db/query.go:%d","msg":"query panic","query":"SELECT * FROM %s","error":"%s","stacktrace":"%s"}''
           [Timestamp G tsLayout, RandomInt 80 120, RandomPath mysqlTables, RandomPath goAppErrors, text3] []
           [attr ''telemetry.sdk.language'' (Static ''go'')],
         template SevError
           ''{"level":"error","ts":"%s","caller":"grpc/client.go:%d","msg":"grpc panic","service":"%s","method":"%s","error":"%s","stacktrace":"%s"}''
           [Timestamp G tsLayout, RandomInt 60 95, RandomPath goAppServices, RandomPath goAppGrpcMethods,
            RandomPath goAppErrors, text4]
           [(''rpc.service'', 2), (''rpc.method'', 3)]
           [attr ''telemetry.sdk.language'' (Static ''go''), attr ''rpc.system'' (Static ''grpc'')],
         template SevFatal
           ''{"level":"fatal","ts":"%s","caller":"main.go:42","msg":"failed to start server","error":"listen tcp :8080: bind: address already in use"}''
           [Timestamp G tsLayout] [] [attr ''telemetry.sdk.language'' (Static ''go'')],
         template SevFatal
           ''{"level":"fatal","ts":"%s","caller":"db/connection.go:%d","msg":"database connection lost","host":"%s","error":"connection refused","retry_count":10}''
           [Timestamp G tsLayout, RandomInt 50 80, RandomPath goAppDbHosts] []
           [attr ''telemetry.sdk.language'' (Static ''go'')],
         template SevFatal
           ''{"level":"fatal","ts":"%s","caller":"main.go:%d","msg":"unrecoverable panic","error":"%s","stacktrace":"%s"}''
           [Timestamp G tsLayout, RandomInt 40 50, RandomPath goAppErrors, text5] []
           [attr ''telemetry.sdk.language'' (Static ''go'')],
         template SevFatal
           ''{"level":"fatal","ts":"%s","caller":"server/handler.go:%d","msg":"fatal: out of memory","error":"runtime: out of memory","stacktrace":"%s"}''
           [Timestamp G tsLayout, RandomInt 45 120, text6] [] [attr ''telemetry.sdk.language'' (Static ''go'')],
         template SevFatal
           ''{"level":"fatal","ts":"%s","caller":"db/connection.go:%d","msg":"fatal: database unreachable","host":"%s","error":"%s","stacktrace":"%s"}''
           [Timestamp G tsLayout, RandomInt 50 80, RandomPath goAppDbHosts, RandomPath goAppErrors, text7] []
           [attr ''telemetry.sdk.language'' (Static ''go'')],
         template SevFatal
           ''{"level":"fatal","ts":"%s","caller":"worker/processor.go:%d","msg":"fatal: worker panic","job_id":"%s","error":"%s","stacktrace":"%s"}''
           [Timestamp G tsLayout, RandomInt 70 110, RandomID 12, RandomPath goAppErrors, text8] []
           [attr ''telemetry.sdk.language'' (Static ''go''), attr ''messaging.system'' (Static ''rabbitmq'')],
         template SevFatal
           ''{"level":"fatal","ts":"%s","caller":"grpc/client.go:%d","msg":"fatal: grpc connection lost","service":"%s","error":"%s","stacktrace":"%s"}''
           [Timestamp G tsLayout, RandomInt 60 95, RandomPath goAppServices, RandomPath goAppErrors, text9]
           [(''rpc.service'', 2)] [attr ''telemetry.sdk.language'' (Static ''go''), attr ''rpc.system'' (Static ''grpc'')]], r9) }\<close>

definition GoAppProfile :: "golib \<Rightarrow> rng option \<Rightarrow> (app_profile \<times> rng) option" where
  "GoAppProfile G ro =
     do { (trace, r1) \<leftarrow> GoStackTrace 800 8500 (rng_or_default G ro);
          (cross_cutting, r2) \<leftarrow> ErrorMessageAttrs (Some trace) r1;
          (long_tail, r3) \<leftarrow> LongTailAttrs G r2;
          (debug, r4) \<leftarrow> goAppDebugLogs G r3;
          (warn, r') \<leftarrow> goAppWarnLogs G r4;
          let msgs = goAppInfoLogs G @ debug @ warn;
          Some (\<lparr>app_name = ''goapp'', app_scope = ''io.opentelemetry.goapp'',
                 app_messages = appendCrossCutting msgs cross_cutting, app_weights = DefaultSeverityWeights,
                 app_trace = True, app_long_tail = Some long_tail\<rparr>, r') }"

subsection \<open>Well-formedness\<close>

lemmas goapp_tables = goAppHTTPMethods_def goAppPaths_def goAppServices_def goAppGrpcMethods_def goAppQueues_def
  goAppErrors_def goAppDbHosts_def mysqlDBNames_def mysqlTables_def

text \<open>The format whose last operand is never used.\<close>

definition goapp_query_format :: string where
  \<open>goapp_query_format =
     ''{"level":"debug","ts":"%s","caller":"db/query.go:%d","msg":"executing query","query":"SELECT * FROM %s WHERE id = $1","params":["%%s"],"duration":"%dms"}''\<close>

lemma goapp_info_ok: "part_ok {SevInfo} [] (goAppInfoLogs G)"
  unfolding goAppInfoLogs_def Let_def by (rule part_exactI) (simp_all add: exact_eval goapp_tables)

lemma goapp_debug_ok: "yields (goAppDebugLogs G r) (\<lambda>(ms, _). part_ok {SevDebug} [goapp_query_format] ms)"
  unfolding goAppDebugLogs_def Let_def
  by ((rule bind_texts(5), simp)+) (simp add: Let_def part_eval goapp_tables goapp_query_format_def)

lemma goapp_warn_ok: "yields (goAppWarnLogs G r) (\<lambda>(ms, _). part_ok {SevWarn, SevError, SevFatal} [] ms)"
  unfolding goAppWarnLogs_def Let_def
  by ((rule bind_texts(1,2), simp)+) (rule part_yieldsI, simp_all add: exact_eval goapp_tables)

lemma goapp_profile_ok: "yields (GoAppProfile G ro) (\<lambda>(p, _). profile_complete [goapp_query_format] p)"
  unfolding GoAppProfile_def Let_def
  by (rule bind_texts(1), simp, rule bind_yields [OF cross_cutting_yields], assumption,
      rule bind_yields [OF rare_fields_yields], rule bind_yields [OF goapp_debug_ok], rule bind_yields [OF goapp_warn_ok])
    (auto intro!: profile_completeI goapp_info_ok)

end
