(* ===== verification/ProfileProxy.thy ===== *)
theory ProfileProxy
  imports CrossCutting
begin

text \<open>
  The profile of a proxy (\<open>internal/loggen/proxy.go\<close>), which logs attributes and no text: its
  pools of names, its weighted and log-normal values, each drawn once into 4096 entries, and
  the messages. The steps are in the order in which the source reads the generator.
\<close>

subsection \<open>Pools of values\<close>

definition proxyPoolSize :: nat where
  "proxyPoolSize = 4096"

text \<open>The closures over a pool of integers and over a pool of strings.\<close>

definition int_pool_gen :: "int list \<Rightarrow> arg_gen" where
  "int_pool_gen pool = (\<lambda>r ctx. do { (i, r') \<leftarrow> intn (int proxyPoolSize) r; n \<leftarrow> nth_go pool i; Some (AInt n, r') })"

definition str_pool_gen :: "string list \<Rightarrow> arg_gen" where
  "str_pool_gen pool = (\<lambda>r ctx. do { (i, r') \<leftarrow> intn (int proxyPoolSize) r; s \<leftarrow> nth_go pool i; Some (AStr s, r') })"

definition log_normal :: "golib \<Rightarrow> f64 \<Rightarrow> f64 \<Rightarrow> rng \<Rightarrow> int \<times> rng" where
  "log_normal G median sigma r =
     (let (z, r') = norm_fn G r; v = fmul median (exp_fn G (fmul sigma z))
      in (to_i64 (fround (if flt v (Fin 0) then Fin 0 else v)), r'))"

definition proxyLogNormalPool :: "golib \<Rightarrow> f64 \<Rightarrow> f64 \<Rightarrow> rng \<Rightarrow> (arg_gen \<times> rng) option" where
  "proxyLogNormalPool G median sigma r =
     do { (pool, r') \<leftarrow> repeat_go proxyPoolSize (\<lambda>r. Some (log_normal G median sigma r)) r;
          Some (int_pool_gen pool, r') }"

definition proxyLogNormalPoolClamped :: "golib \<Rightarrow> f64 \<Rightarrow> f64 \<Rightarrow> int \<Rightarrow> rng \<Rightarrow> (arg_gen \<times> rng) option" where
  "proxyLogNormalPoolClamped G median sigma max_val r =
     do { (pool, r') \<leftarrow> repeat_go proxyPoolSize
            (\<lambda>r. let (iv, r') = log_normal G median sigma r in Some (if max_val < iv then max_val else iv, r')) r;
          Some (int_pool_gen pool, r') }"

definition proxyZipfPool :: "golib \<Rightarrow> string list \<Rightarrow> f64 \<Rightarrow> rng \<Rightarrow> (arg_gen \<times> rng) option" where
  "proxyZipfPool G ips skew r =
     do { (indices, r') \<leftarrow> repeat_go proxyPoolSize
            (\<lambda>r. do { (u, r') \<leftarrow> zipf_draw G skew (Fin 1) (word_of_int (int (length ips) - 1)) r;
                      Some (w64 (uint u), r') }) r;
          Some (\<lambda>r ctx. do { (i, r') \<leftarrow> intn (int proxyPoolSize) r; k \<leftarrow> nth_go indices i; s \<leftarrow> nth_go ips k;
                             Some (AStr s, r') }, r') }"

definition weighted_pool :: "'a \<Rightarrow> ('a \<times> int) list \<Rightarrow> rng \<Rightarrow> ('a list \<times> rng) option" where
  "weighted_pool zero choices =
     repeat_go proxyPoolSize
       (\<lambda>r. do { (n, r') \<leftarrow> intn (weight_total choices) r;
                 Some (case weighted_loop n choices of Some v \<Rightarrow> v | None \<Rightarrow> zero, r') })"

definition proxyWeightedStrPool :: "(string \<times> int) list \<Rightarrow> rng \<Rightarrow> (arg_gen \<times> rng) option" where
  "proxyWeightedStrPool choices r = do { (pool, r') \<leftarrow> weighted_pool [] choices r; Some (str_pool_gen pool, r') }"

definition proxyWeightedIntPool :: "(int \<times> int) list \<Rightarrow> rng \<Rightarrow> (arg_gen \<times> rng) option" where
  "proxyWeightedIntPool choices r = do { (pool, r') \<leftarrow> weighted_pool 0 choices r; Some (int_pool_gen pool, r') }"

subsection \<open>Names\<close>

record proxy_pools =
  pods :: "string list"
  nodes :: "string list"
  servers :: "string list"
  orgs :: "string list"
  projects :: "string list"
  apps :: "string list"
  namespaces :: "string list"
  hosts :: "string list"
  auths :: "string list"

definition pod_name :: "rng \<Rightarrow> (string \<times> rng) option" where
  "pod_name r =
     do { (p, r1) \<leftarrow> pick [''svc-search'', ''svc-data'', ''svc-master'', ''svc-ingest'', ''svc-dashboard'', ''svc-tracing''] r;
          (a, r2) \<leftarrow> randomHexString 8 r1; (b, r3) \<leftarrow> randomHexString 5 r2;
          Some (p @ ''-'' @ a @ ''-'' @ b, r3) }"

definition node_name :: "golib \<Rightarrow> rng \<Rightarrow> (string \<times> rng) option" where
  "node_name G r =
     do { (a, r1) \<leftarrow> intn 256 r; (b, r2) \<leftarrow> intn 256 r1; (c, r3) \<leftarrow> intn 256 r2;
          (az, r4) \<leftarrow> pick [''eu-west-1a'', ''eu-west-1b'', ''eu-west-1c''] r3;
          Some (Sprintf G ''ip-10-%d-%d-%d.%s.compute.internal'' [AInt a, AInt b, AInt c, AStr az], r4) }"

definition server_name :: "golib \<Rightarrow> rng \<Rightarrow> (string \<times> rng) option" where
  "server_name G r =
     do { (a, r1) \<leftarrow> intn 256 r; (b, r2) \<leftarrow> intn 256 r1; Some (Sprintf G ''100.64.%d.%d'' [AInt a, AInt b], r2) }"

definition org_id :: "rng \<Rightarrow> (string \<times> rng) option" where
  "org_id r = do { (n, r') \<leftarrow> intn 3900000000 r; Some (itoa (n + 100000000), r') }"

definition app_of :: "string list \<Rightarrow> rng \<Rightarrow> (string \<times> rng) option" where
  "app_of project_pool r =
     do { (p, r1) \<leftarrow> pick project_pool r;
          (s, r2) \<leftarrow> pick
            [''.search'', ''.search'', ''.search'', ''.search'', ''.search'', ''.dashboard'', ''.tracing'', ''.ingest'',
             ''.agent''] r1;
          Some (p @ s, r2) }"

definition host_name :: "string list \<Rightarrow> rng \<Rightarrow> (string \<times> rng) option" where
  "host_name project_pool r =
     do { (p, r1) \<leftarrow> pick project_pool r;
          (h, r2) \<leftarrow> pick [''search'', ''search'', ''search'', ''dashboard'', ''tracing''] r1;
          (g, r3) \<leftarrow> pick [''eu-west-1'', ''us-east-1'', ''ap-southeast-1''] r2;
          Some (p @ ''.'' @ h @ ''.'' @ g @ ''.cloud.example.internal'', r3) }"

definition auth_name :: "rng \<Rightarrow> (string \<times> rng) option" where
  "auth_name r =
     do { (p, r1) \<leftarrow> pick [''svc-account-'', ''internal-'', ''system-''] r; (s, r2) \<leftarrow> randomHexString 8 r1; Some (p @ s, r2) }"

definition client_meta :: "string list" where
  "client_meta =
     [''es=8.0.0,js=18.0.0,t=8.0.0,hc=18.0.0'', ''es=7.5.0,py=3.10.0,t=7.3.0,ai=3.10.0'',
      ''es=8.1.0,go=1.21.0,t=8.1.0,hc=1.21.0'', ''es=8.2.0,js=18.1.0,t=8.2.0,hc=18.1.0'',
      ''es=8.0.0,js=18.0.0,t=8.0.0,hc=18.0.0,h=bp'', ''es=7.9.0,go=1.20.0,t=7.6.0,hc=1.20.0'',
      ''es=7.5.0,py=3.11.0,t=7.3.0,ai=3.11.0'', ''es=8.3.0,js=20.0.0,t=8.3.0,hc=20.0.0'',
      ''es=7.8.0,js=18.2.0,t=7.5.0,hc=18.2.0,h=bp'', ''es=8.1.1,go=1.22.0,t=8.1.0,hc=1.22.0,hl=1'']"

definition proxy_pools_of :: "golib \<Rightarrow> rng \<Rightarrow> (proxy_pools \<times> rng) option" where
  "proxy_pools_of G r =
     do { (pod_pool, r1) \<leftarrow> repeat_go 200 pod_name r;
          (node_pool, r2) \<leftarrow> repeat_go 30 (node_name G) r1;
          (server_pool, r3) \<leftarrow> repeat_go 800 (server_name G) r2;
          (org_pool, r4) \<leftarrow> repeat_go 43 org_id r3;
          (project_pool, r5) \<leftarrow> repeat_go 100 (randomHexString 32) r4;
          (app_pool, r6) \<leftarrow> repeat_go 150 (app_of project_pool) r5;
          let ns_pool = map (\<lambda>p. ''project-'' @ p) project_pool;
          (host_pool, r7) \<leftarrow> repeat_go 200 (host_name project_pool) r6;
          (auth_pool, r8) \<leftarrow> repeat_go 18 auth_name r7;
          Some (\<lparr>pods = pod_pool, nodes = node_pool, servers = server_pool, orgs = org_pool, projects = project_pool,
                 apps = app_pool, namespaces = ns_pool, hosts = host_pool, auths = auth_pool\<rparr>, r8) }"

subsection \<open>Client addresses and request paths\<close>

definition proxy_networks :: "ip_pool_config option \<Rightarrow> string list" where
  "proxy_networks ip_cfg = (case ip_cfg of Some c \<Rightarrow> if pool_cidrs c \<noteq> [] then pool_cidrs c else [''10.0.0.0/8'', ''100.64.0.0/10'']
     | None \<Rightarrow> [''10.0.0.0/8'', ''100.64.0.0/10''])"

definition proxy_ip_gen :: "golib \<Rightarrow> ip_pool_config option \<Rightarrow> rng \<Rightarrow> (arg_gen \<times> rng) option" where
  "proxy_ip_gen G ip_cfg r =
     (let skew = (case ip_cfg of Some c \<Rightarrow> if flt (Fin 1) (pool_skew c) then pool_skew c else rnd (3 / 2) | None \<Rightarrow> rnd (3 / 2));
          size = (case ip_cfg of Some c \<Rightarrow> if 0 < pool_size c then pool_size c else 5000 | None \<Rightarrow> 5000)
      in do { (ips, r1) \<leftarrow> buildIPPool G r (proxy_networks ip_cfg) size; proxyZipfPool G ips skew r1 })"

definition static_paths :: "(string \<times> int) list" where
  "static_paths =
     [(''/_bulk'', 180), (''/_security/_authenticate'', 124), (''/'', 66), (''/_security/user/_has_privileges'', 54),
      (''/.sysidx_task_manager/_msearch'', 45), (''/.sysidx_task_manager/_search'', 31), (''/_msearch'', 22),
      (''/_nodes/_all/_none'', 18), (''/.sysidx_ingest/_search'', 17), (''/.sysidx_task_manager_v2/_search'', 13),
      (''/.sysidx_task_manager/_bulk'', 13), (''/_tasks'', 11), (''/.sysidx_config/_search'', 9), (''/_xpack'', 8),
      (''/_mget'', 8), (''/_cluster/health'', 8), (''/_cluster/state/master_node'', 8), (''/_resolve/index/*'', 8),
      (''/_cat/shards'', 8), (''/_nodes/stats/breaker,fs,http,indices,jvm,os,process,thread_pool,transport'', 8),
      (''/.sysidx_config/_doc/config:default'', 8), (''/_search'', 7), (''/.sysidx_task_manager/_mget'', 6), (''/_pit'', 6),
      (''/_health'', 6), (''/_cluster/settings'', 5), (''/intake/v2/events'', 4), (''/.ds-logs-generic-default/_bulk'', 20),
      (''/.ds-metrics-generic-default/_bulk'', 15), (''/.ds-traces-generic-default/_bulk'', 10),
      (''/_ml/anomaly_detectors/_stats'', 3), (''/_alias'', 3), (''/_mapping'', 3), (''/_index_template'', 2),
      (''/_ingest/pipeline'', 2)]"

definition dynamicPathTemplates :: "string list" where
  "dynamicPathTemplates =
     [''/.ds-logs-%s-default/_bulk'', ''/.ds-metrics-%s-default/_bulk'', ''/.ds-traces-%s-default/_bulk'', ''/%s/_search'',
      ''/%s/_bulk'', ''/%s/_doc/%s'', ''/%s/_update/%s'', ''/%s/_mapping'', ''/api/v1/%s/%s'', ''/.kibana_%s/_search'',
      ''/.sysidx_%s/_search'', ''/.sysidx_%s/_bulk'', ''/%s/_count'', ''/%s/_refresh'', ''/%s/_settings'']"

definition dynamicDatasets :: "string list" where
  "dynamicDatasets =
     [''nginx.access'', ''system.syslog'', ''kubernetes.pod'', ''apm.app'', ''elastic_agent'', ''endpoint.events'',
      ''cloud.audit'', ''fleet_server'', ''synthetics.http'', ''profiling.events'', ''logs.generic'', ''metrics.generic'',
      ''system.auth'', ''kubernetes.container'', ''kubernetes.event'', ''apm.error'', ''apm.transaction'',
      ''elastic_agent.metricbeat'', ''endpoint.alerts'', ''cloud.vpcflow'', ''osquery_manager.result'',
      ''ti_abusech.malware'']"

definition dynamicIndices :: "string list" where
  "dynamicIndices =
     [''.ds-logs-nginx.access-default-2024.01'', ''.ds-logs-system.syslog-default-2024.01'',
      ''.ds-metrics-kubernetes.pod-default-2024.01'', ''logs-apm.app-default'', ''.fleet-actions-results'',
      ''.kibana_analytics'', ''.kibana_security_session'', ''.ds-logs-system.auth-default-2024.01'',
      ''.ds-metrics-kubernetes.container-default-2024.01'', ''.ds-logs-elastic_agent-default-2024.01'',
      ''.ds-logs-endpoint.alerts-default-2024.01'', ''.ds-logs-cloud.vpcflow-default-2024.01'',
      ''.internal.alerts-security.alerts-default-2024.01'']"

definition dynamicPathPoolSize :: nat where
  "dynamicPathPoolSize = 16384"

definition dynamic_path :: "golib \<Rightarrow> rng \<Rightarrow> (string \<times> rng) option" where
  "dynamic_path G r =
     do { (tpl, r1) \<leftarrow> pick dynamicPathTemplates r;
          if count_sub tpl ''%s'' = 1 then do {
            (dataset, r2) \<leftarrow> pick dynamicDatasets r1;
            (k, r3) \<leftarrow> intn 2 r2;
            (item, r4) \<leftarrow> (if k = 0 then pick dynamicIndices r3 else Some (dataset, r3));
            Some (Sprintf G tpl [AStr item], r4) }
          else do {
            (item, r2) \<leftarrow> pick dynamicIndices r1;
            (ident, r3) \<leftarrow> randomHexString 12 r2;
            Some (Sprintf G tpl [AStr item, AStr ident], r3) } }"

definition proxy_path_gen :: "golib \<Rightarrow> rng \<Rightarrow> (arg_gen \<times> rng) option" where
  "proxy_path_gen G r =
     do { (static_gen, r1) \<leftarrow> proxyWeightedStrPool static_paths r;
          (pool, r2) \<leftarrow> repeat_go dynamicPathPoolSize (dynamic_path G) r1;
          let dynamic_gen = (\<lambda>r ctx. do { (i, r') \<leftarrow> intn (int dynamicPathPoolSize) r; s \<leftarrow> nth_go pool i; Some (AStr s, r') });
          Some (\<lambda>r ctx. do { (k, r') \<leftarrow> intn 10 r; if k < 6 then static_gen r' ctx else dynamic_gen r' ctx }, r2) }"

subsection \<open>The profile\<close>

text \<open>The generators that the messages share, in the order of their draws.\<close>

record proxy_gens =
  client_ip_gen :: arg_gen
  path_gen :: arg_gen
  method_gen :: arg_gen
  status_gen :: arg_gen
  action_gen :: arg_gen
  routing_dec_gen :: arg_gen
  app_type_gen :: arg_gen
  resolution_gen :: arg_gen
  request_source_gen :: arg_gen
  status_reason_gen :: arg_gen
  serverless_type_gen :: arg_gen
  zone_gen :: arg_gen
  user_agent_gen :: arg_gen
  backend_proto_gen :: arg_gen
  request_proto_gen :: arg_gen
  port_gen :: arg_gen
  handling_port_gen :: arg_gen
  tls_version_gen :: arg_gen
  tls_cipher_gen :: arg_gen
  resp_time_gen :: arg_gen
  backend_resp_time_gen :: arg_gen
  proxy_time_gen :: arg_gen
  req_len_gen :: arg_gen
  resp_len_gen :: arg_gen
  conn_conc_gen :: arg_gen
  req_conc_gen :: arg_gen

definition proxy_gens_of :: "golib \<Rightarrow> arg_gen \<Rightarrow> arg_gen \<Rightarrow> rng \<Rightarrow> (proxy_gens \<times> rng) option" where
  "proxy_gens_of G clientIPGen pathGen r =
     do { (methodGen, r1) \<leftarrow> proxyWeightedStrPool [(''GET'', 430), (''POST'', 380), (''PUT'', 180),
            (''DELETE'', 7), (''HEAD'', 3)] r;
          (statusGen, r2) \<leftarrow> proxyWeightedIntPool [(200, 8540), (404, 350), (202, 42), (429, 37), (201, 28),
            (409, 15), (401, 12), (400, 8), (302, 4), (503, 3), (304, 1)] r1;
          (actionGen, r3) \<leftarrow> proxyWeightedStrPool [(''bulk'', 194), (''search'', 180), (''security'', 179),
            (''other'', 161), (''get'', 83), (''nodes'', 26), (''index'', 25), (''cluster'', 21), (''tasks'', 11),
            (''xpack'', 8), (''cat'', 8), (''exists/index'', 2), (''metadata'', 2), (''ml'', 1), (''head'', 1),
            (''ingest'', 1), (''refresh'', 1)] r2;
          (routingDecGen, r4) \<leftarrow> proxyWeightedStrPool [(''primary:read,same_az'', 700),
            (''primary:write,same_az'', 278), (''fallback:preferred_zone'', 17)] r3;
          (appTypeGen, r5) \<leftarrow> proxyWeightedStrPool [(''search'', 880), ('''', 7), (''ingest'', 6),
            (''dashboard'', 5), (''tracing'', 4), (''agent'', 1)] r4;
          (resolutionGen, r6) \<leftarrow> proxyWeightedStrPool [(''RESOURCE_ID'', 780), (''ALIAS'', 220)] r5;
          (requestSourceGen, r7) \<leftarrow> proxyWeightedStrPool [(''internal'', 770), (''external'', 230)] r6;
          (statusReasonGen, r8) \<leftarrow> proxyWeightedStrPool [(''-'', 9950), (''INITIALIZING'', 40),
            (''RESOURCE_NOT_FOUND'', 5), (''CLIENT_CLOSED_CONNECTION'', 3), (''NO_AVAILABLE_INSTANCES'', 2)] r7;
          (serverlessTypeGen, r9) \<leftarrow> proxyWeightedStrPool [(''observability'', 520), (''security'', 300),
            (''search'', 170), (''assistant'', 10)] r8;
          (zoneGen, r10) \<leftarrow> proxyWeightedStrPool [(''eu-west-1c'', 560), (''eu-west-1b'', 250),
            (''eu-west-1a'', 180), ('''', 10)] r9;
          (userAgentGen, r11) \<leftarrow> proxyWeightedStrPool [(''Dashboard/8.0.0'', 560),
            (''search-client-py/7.5.0 (Python/3.10.0; transport/7.3.0)'', 150),
            (''Metrics-Agent/8.1.0 (linux; arm64; a1b2c3d4)'', 80), (''Agent-Server/8.0.0 (linux; arm64; d4c3b2a1)'', 24),
            (''load-generator'', 16), (''OTel-Collector/1.0.0 (linux/amd64)'', 10), (''ELB-HealthChecker/2.0'', 4),
            (''kube-probe/1.30+'', 2), (''Index-Service/e5f6a7b8 transport-go/8.0.0'', 2),
            (''log-shipper/ (linux/arm64)'', 2),
            (''Mozilla/5.0 (X11; Linux x86_64) AppleWebKit/537.36 (KHTML, like Gecko) Chrome/120.0.0.0'', 3)] r10;
          (backendProtoGen, r12) \<leftarrow> proxyWeightedStrPool [(''HTTP/1.1'', 970), (''HTTP/2.0'', 30)] r11;
          (requestProtoGen, r13) \<leftarrow> proxyWeightedStrPool [(''HTTP/1.1'', 970), (''HTTP/2.0'', 30)] r12;
          (portGen, r14) \<leftarrow> proxyWeightedIntPool [(443, 992), (9400, 5), (9243, 2), (9843, 1)] r13;
          (handlingPortGen, r15) \<leftarrow> proxyWeightedIntPool [(9200, 970), (0, 12), (5601, 5), (8200, 5), (4317, 4),
            (8443, 2), (8220, 1), (9843, 1)] r14;
          (tlsVersionGen, r16) \<leftarrow> proxyWeightedIntPool [(772, 997), (771, 3)] r15;
          (tlsCipherGen, r17) \<leftarrow> proxyWeightedIntPool [(4865, 850), (49199, 100), (49195, 30), (49200, 20)] r16;
          (respTimeGen, r18) \<leftarrow> proxyLogNormalPool G (Fin 5) (rnd (22 / 10)) r17;
          (backendRespTimeGen, r19) \<leftarrow> proxyLogNormalPool G (Fin 5) (rnd (22 / 10)) r18;
          (proxyTimeGen, r20) \<leftarrow> proxyLogNormalPool G (Fin 107) (rnd (3 / 10)) r19;
          (reqLenGen, r21) \<leftarrow> proxyLogNormalPool G (Fin 166) (rnd (35 / 10)) r20;
          (respLenGen, r22) \<leftarrow> proxyLogNormalPool G (Fin 482) (Fin 3) r21;
          (connConcGen, r23) \<leftarrow> proxyLogNormalPoolClamped G (Fin 12) (rnd (15 / 10)) 1000 r22;
          (reqConcGen, r24) \<leftarrow> proxyLogNormalPoolClamped G (Fin 3) (rnd (15 / 10)) 300 r23;
          Some (\<lparr>client_ip_gen = clientIPGen, path_gen = pathGen,
                 method_gen = methodGen, status_gen = statusGen, action_gen = actionGen,
                 routing_dec_gen = routingDecGen, app_type_gen = appTypeGen, resolution_gen = resolutionGen,
                 request_source_gen = requestSourceGen, status_reason_gen = statusReasonGen,
                 serverless_type_gen = serverlessTypeGen, zone_gen = zoneGen, user_agent_gen = userAgentGen,
                 backend_proto_gen = backendProtoGen, request_proto_gen = requestProtoGen,
                 port_gen = portGen, handling_port_gen = handlingPortGen, tls_version_gen = tlsVersionGen,
                 tls_cipher_gen = tlsCipherGen, resp_time_gen = respTimeGen,
                 backend_resp_time_gen = backendRespTimeGen, proxy_time_gen = proxyTimeGen,
                 req_len_gen = reqLenGen, resp_len_gen = respLenGen, conn_conc_gen = connConcGen,
                 req_conc_gen = reqConcGen\<rparr>, r24) }"

text \<open>The attributes of the messages.\<close>

definition proxyInfoAttrs :: "proxy_pools \<Rightarrow> proxy_gens \<Rightarrow> attr_gen list" where
  "proxyInfoAttrs p g =
     [attr ''request_id'' RandomUUID, attr ''request_method'' (method_gen g), attr ''request_path'' (path_gen g),
      attr ''status_code'' (status_gen g), attr ''action'' (action_gen g), attr ''response_time'' (resp_time_gen g),
      attr ''proxy_internal_time_us'' (proxy_time_gen g), attr ''request_length'' (req_len_gen g),
      attr ''response_length'' (resp_len_gen g), attr ''client_ip'' (client_ip_gen g),
      attr ''request_host'' (RandomFrom (hosts p)), attr ''handling_pod'' (RandomFrom (pods p)),
      attr ''handling_zone'' (zone_gen g)]"

definition proxyInfoRare :: "proxy_pools \<Rightarrow> proxy_gens \<Rightarrow> rare_attr_gen list" where
  "proxyInfoRare p g =
     [rare ''user_agent.original'' (rnd (31 / 100)) (user_agent_gen g),
      rare ''serverless.project.type'' (rnd (3 / 10)) (serverless_type_gen g),
      rare ''tls_version'' (rnd (15 / 100)) (tls_version_gen g), rare ''tls_cipher'' (rnd (15 / 100)) (tls_cipher_gen g),
      rare ''request_source'' (rnd (2 / 10)) (request_source_gen g),
      rare ''request_proto'' (rnd (15 / 100)) (request_proto_gen g),
      rare ''client_meta'' (rnd (1 / 10)) (RandomFrom client_meta),
      rare ''handling_project'' (rnd (2 / 10)) (RandomFrom (projects p)),
      rare ''request_port'' (rnd (15 / 100)) (port_gen g), rare ''auth_user'' (rnd (3 / 100)) (RandomFrom (auths p))]"

definition proxyHealthAttrs :: "proxy_gens \<Rightarrow> attr_gen list" where
  "proxyHealthAttrs g =
     [attr ''request_id'' RandomUUID, attr ''connection_id'' RandomUUID, attr ''request_method'' (Static ''GET''),
      attr ''request_path'' (Static ''/_health''), attr ''status_code'' (HTTPStatus 200),
      attr ''action'' (Static ''other''), attr ''response_time'' (RandomInt 0 1),
      attr ''proxy_internal_time_us'' (proxy_time_gen g), attr ''client_ip'' (client_ip_gen g),
      attr ''user_agent.original'' (Static ''LB-HealthChecker/2.0''), attr ''request_port'' (HTTPStatus 9400),
      attr ''status_reason'' (status_reason_gen g)]"

definition proxyDebugAttrs :: "proxy_pools \<Rightarrow> proxy_gens \<Rightarrow> attr_gen list" where
  "proxyDebugAttrs p g =
     [attr ''request_id'' RandomUUID, attr ''connection_id'' RandomUUID, attr ''request_method'' (method_gen g),
      attr ''request_path'' (path_gen g), attr ''action'' (action_gen g), attr ''routing_decision'' (routing_dec_gen g),
      attr ''backend_response_time'' (backend_resp_time_gen g), attr ''handling_pod'' (RandomFrom (pods p)),
      attr ''handling_node'' (RandomFrom (nodes p)), attr ''handling_zone'' (zone_gen g),
      attr ''handling_namespace'' (RandomFrom (namespaces p)),
      attr ''handling_server'' (RandomFrom (servers p)), attr ''handling_port'' (handling_port_gen g),
      attr ''backend_proto'' (backend_proto_gen g), attr ''client_ip'' (client_ip_gen g)]"

text \<open>The status, the times and the reason of a warning or an error are drawn where they stand.\<close>

definition proxyWarnAttrs :: "golib \<Rightarrow> proxy_pools \<Rightarrow> proxy_gens \<Rightarrow> rng \<Rightarrow> (attr_gen list \<times> rng) option" where
  "proxyWarnAttrs G p g r =
     do { (warnStatus, r1) \<leftarrow> proxyWeightedIntPool [(429, 50), (409, 20), (200, 20), (503, 10)] r;
          (warnRespTime, r2) \<leftarrow> proxyLogNormalPool G (Fin 500) (rnd (8 / 10)) r1;
          (warnBackendTime, r3) \<leftarrow> proxyLogNormalPool G (Fin 400) (rnd (8 / 10)) r2;
          (warnReason, r4) \<leftarrow> proxyWeightedStrPool [(''INITIALIZING'', 50), (''-'', 30),
            (''NO_AVAILABLE_INSTANCES'', 20)] r3;
          Some ([attr ''request_id'' RandomUUID, attr ''connection_id'' RandomUUID, attr ''backend_connection_id'' RandomUUID,
                 attr ''request_method'' (method_gen g), attr ''request_path'' (path_gen g), attr ''status_code'' warnStatus,
                 attr ''action'' (action_gen g), attr ''application_type'' (app_type_gen g), attr ''response_time'' warnRespTime,
                 attr ''backend_response_time'' warnBackendTime, attr ''proxy_internal_time_us'' (proxy_time_gen g),
                 attr ''request_length'' (req_len_gen g), attr ''response_length'' (resp_len_gen g),
                 attr ''route_connection_concurrency'' (conn_conc_gen g), attr ''route_request_concurrency'' (req_conc_gen g),
                 attr ''client_ip'' (client_ip_gen g), attr ''request_host'' (RandomFrom (hosts p)),
                 attr ''handling_pod'' (RandomFrom (pods p)), attr ''handling_node'' (RandomFrom (nodes p)),
                 attr ''handling_zone'' (zone_gen g), attr ''handling_application'' (RandomFrom (apps p)),
                 attr ''routing_decision'' (routing_dec_gen g), attr ''organization_id'' (RandomFrom (orgs p)),
                 attr ''user_agent.original'' (user_agent_gen g), attr ''status_reason'' warnReason], r4) }"

definition proxyErrAttrs :: "golib \<Rightarrow> proxy_pools \<Rightarrow> proxy_gens \<Rightarrow> rng \<Rightarrow> (attr_gen list \<times> rng) option" where
  "proxyErrAttrs G p g r =
     do { (errStatus, r1) \<leftarrow> proxyWeightedIntPool [(503, 40), (500, 20), (404, 20), (401, 10), (400, 10)] r;
          (errRespTime, r2) \<leftarrow> proxyLogNormalPool G (Fin 1000) (Fin 1) r1;
          (errBackendTime, r3) \<leftarrow> proxyLogNormalPool G (Fin 800) (Fin 1) r2;
          (errReason, r4) \<leftarrow> proxyWeightedStrPool [(''RESOURCE_NOT_FOUND'', 40), (''-'', 30),
            (''NO_AVAILABLE_INSTANCES'', 20), (''CLIENT_CLOSED_CONNECTION'', 10)] r3;
          Some ([attr ''request_id'' RandomUUID, attr ''connection_id'' RandomUUID, attr ''backend_connection_id'' RandomUUID,
                 attr ''request_method'' (method_gen g), attr ''request_path'' (path_gen g), attr ''status_code'' errStatus,
                 attr ''action'' (action_gen g), attr ''application_type'' (app_type_gen g), attr ''response_time'' errRespTime,
                 attr ''backend_response_time'' errBackendTime, attr ''proxy_internal_time_us'' (proxy_time_gen g),
                 attr ''request_length'' (req_len_gen g), attr ''response_length'' (resp_len_gen g),
                 attr ''route_connection_concurrency'' (conn_conc_gen g), attr ''route_request_concurrency'' (req_conc_gen g),
                 attr ''client_ip'' (client_ip_gen g), attr ''request_host'' (RandomFrom (hosts p)),
                 attr ''handling_pod'' (RandomFrom (pods p)), attr ''handling_node'' (RandomFrom (nodes p)),
                 attr ''handling_zone'' (zone_gen g), attr ''handling_application'' (RandomFrom (apps p)),
                 attr ''routing_decision'' (routing_dec_gen g), attr ''resolution_type'' (resolution_gen g),
                 attr ''organization_id'' (RandomFrom (orgs p)), attr ''user_agent.original'' (user_agent_gen g),
                 attr ''status_reason'' errReason], r4) }"

definition proxyFatalAttrs :: "proxy_pools \<Rightarrow> proxy_gens \<Rightarrow> attr_gen list" where
  "proxyFatalAttrs p g =
     [attr ''handling_pod'' (RandomFrom (pods p)), attr ''handling_node'' (RandomFrom (nodes p)),
      attr ''handling_zone'' (zone_gen g), attr ''status_reason'' (Static ''NO_AVAILABLE_INSTANCES'')]"

definition ProxyProfile :: "golib \<Rightarrow> rng option \<Rightarrow> ip_pool_config option \<Rightarrow> (app_profile \<times> rng) option" where
  "ProxyProfile G ro ip_cfg =
     do { (p, s1) \<leftarrow> proxy_pools_of G (rng_or_default G ro);
          (clientIPGen, s2) \<leftarrow> proxy_ip_gen G ip_cfg s1;
          (pathGen, s3) \<leftarrow> proxy_path_gen G s2;
          (g, s4) \<leftarrow> proxy_gens_of G clientIPGen pathGen s3;
          (warnAttrs, s5) \<leftarrow> proxyWarnAttrs G p g s4;
          (errAttrs, s6) \<leftarrow> proxyErrAttrs G p g s5;
          (trace, s7) \<leftarrow> GoStackTrace 800 8500 s6;
          (cross_cutting, s8) \<leftarrow> ErrorMessageAttrs (Some trace) s7;
          (long_tail, s9) \<leftarrow> LongTailAttrs G s8;
          let info = (template SevInfo [] [] [] (proxyInfoAttrs p g))\<lparr>msg_rare := proxyInfoRare p g\<rparr>;
          let msgs = [info, info, template SevInfo [] [] [] (proxyHealthAttrs g), template SevDebug [] [] [] (proxyDebugAttrs p g),
            template SevWarn [] [] [] warnAttrs, template SevError [] [] [] errAttrs, template SevFatal [] [] [] (proxyFatalAttrs p g)];
          Some (\<lparr>app_name = ''proxy'', app_scope = ''io.opentelemetry.proxy'',
                 app_messages = appendCrossCutting msgs cross_cutting, app_weights = DefaultSeverityWeights,
                 app_trace = True, app_long_tail = Some long_tail\<rparr>, s9) }"

subsection \<open>Well-formedness\<close>

lemma int_pool_total: "length pool = proxyPoolSize \<Longrightarrow> total_gen (int_pool_gen pool)"
  by (auto simp: int_pool_gen_def proxyPoolSize_def intro!: total_genI intn_yields nth_go_yields)

lemma str_pool_total: "length pool = proxyPoolSize \<Longrightarrow> total_gen (str_pool_gen pool)"
  by (auto simp: str_pool_gen_def proxyPoolSize_def intro!: total_genI intn_yields nth_go_yields)

lemma log_normal_pool_total: "yields (proxyLogNormalPool G m s r) (\<lambda>(g, _). total_gen g)"
  unfolding proxyLogNormalPool_def
  by (auto intro!: yields_mono [OF repeat_go_total] int_pool_total simp: split_beta)

lemma clamped_pool_total: "yields (proxyLogNormalPoolClamped G m s n r) (\<lambda>(g, _). total_gen g)"
  unfolding proxyLogNormalPoolClamped_def
  by (auto intro!: yields_mono [OF repeat_go_total] int_pool_total simp: split_beta)

lemma weighted_pool_yields: "0 < weight_total cs \<Longrightarrow> yields (weighted_pool z cs r) (\<lambda>(pool, _). length pool = proxyPoolSize)"
  unfolding weighted_pool_def by (rule repeat_go_total) (auto intro!: intn_yields)

lemma weighted_str_total: "0 < weight_total cs \<Longrightarrow> yields (proxyWeightedStrPool cs r) (\<lambda>(g, _). total_gen g)"
  unfolding proxyWeightedStrPool_def by (auto intro!: yields_mono [OF weighted_pool_yields] str_pool_total)

lemma weighted_int_total: "0 < weight_total cs \<Longrightarrow> yields (proxyWeightedIntPool cs r) (\<lambda>(g, _). total_gen g)"
  unfolding proxyWeightedIntPool_def by (auto intro!: yields_mono [OF weighted_pool_yields] int_pool_total)

lemma w64_uint: "uint (a :: 64 word) < 2 ^ 63 \<Longrightarrow> w64 (uint a) = uint a"
  using uint_ge_0 [of a] by (intro w64_id) linarith+

lemma zipf_pool_total:
  assumes "zipf_ok G" "flt (Fin 1) skew" "ips \<noteq> []" "int (length ips) < 2 ^ 63"
  shows "yields (proxyZipfPool G ips skew r) (\<lambda>(g, _). total_gen g)"
proof -
  have "yields (do { (u, r') \<leftarrow> zipf_draw G skew (Fin 1) (word_of_int (int (length ips) - 1)) r; Some (w64 (uint u), r') })
      (\<lambda>(k, _). 0 \<le> k \<and> k < int (length ips))" for r
    unfolding yields_bind
    by (rule yields_mono [OF zipf_draw_range [OF assms(1,2)]]) (use assms(3,4) in \<open>auto simp: w64_uint Suc_le_eq\<close>)
  from repeat_go_yields [OF this] show ?thesis
    unfolding proxyZipfPool_def yields_bind
    by (rule yields_mono) (fastforce simp: proxyPoolSize_def intro!: total_genI intn_yields nth_go_yields)
qed

text \<open>The pools of names are full.\<close>

definition pools_ok :: "proxy_pools \<Rightarrow> bool" where
  "pools_ok p \<longleftrightarrow> pods p \<noteq> [] \<and> nodes p \<noteq> [] \<and> servers p \<noteq> [] \<and> orgs p \<noteq> [] \<and> projects p \<noteq> [] \<and>
     apps p \<noteq> [] \<and> namespaces p \<noteq> [] \<and> hosts p \<noteq> [] \<and> auths p \<noteq> []"

lemma name_yields:
  "yields (pod_name r) (\<lambda>_. True)" "yields (node_name G r) (\<lambda>_. True)" "yields (server_name G r) (\<lambda>_. True)"
  "yields (org_id r) (\<lambda>_. True)" "yields (randomHexString 32 r) (\<lambda>_. True)"
  "project_pool \<noteq> [] \<Longrightarrow> yields (app_of project_pool r) (\<lambda>_. True)"
  "project_pool \<noteq> [] \<Longrightarrow> yields (host_name project_pool r) (\<lambda>_. True)"
  "yields (auth_name r) (\<lambda>_. True)"
  by (auto simp: pod_name_def node_name_def server_name_def org_id_def app_of_def host_name_def auth_name_def
      intro!: pick_yields intn_yields hex_string_yields)

lemma full_pool: "(\<And>r. yields (f r) (\<lambda>_. True)) \<Longrightarrow> 0 < n \<Longrightarrow> yields (repeat_go n f r) (\<lambda>(p, _). p \<noteq> [])"
  by (rule yields_mono [OF repeat_go_total]) auto

lemma proxy_pools_yields: "yields (proxy_pools_of G r) (\<lambda>(p, _). pools_ok p)"
  unfolding proxy_pools_of_def Let_def
  by (rule bind_yields [OF full_pool], rule name_yields, simp, rule bind_yields [OF full_pool], rule name_yields, simp,
      rule bind_yields [OF full_pool], rule name_yields, simp, rule bind_yields [OF full_pool], rule name_yields, simp,
      rule bind_yields [OF full_pool], rule name_yields, simp, rule bind_yields [OF full_pool], erule name_yields, simp,
      rule bind_yields [OF full_pool], erule name_yields, simp, rule bind_yields [OF full_pool], rule name_yields, simp)
    (simp add: pools_ok_def)

lemma host_cidr_100: "host_cidr G ''100.64.0.0/10''"
proof -
  have "parse_cidr G ''100.64.0.0/10'' = Some (bytes4 (0x64400000 AND cidr_mask 10), bytes4 (cidr_mask 10))"
    by (simp add: parse_cidr_def addr_kind_def parse_ipv4_def parse_octet_def parse_prefix_len_def is_digit_def
        read_digits_def)
  then show ?thesis unfolding host_cidr_def by (intro exI [of _ "0x64400000"] exI [of _ 10]) simp
qed

lemma proxy_networks_ok: "pool_cfg_ok G cfg \<Longrightarrow> \<forall>c \<in> set (proxy_networks cfg). host_cidr G c"
  using host_cidr_10 host_cidr_100 by (auto simp: pool_cfg_ok_def networks_def proxy_networks_def split: option.splits if_splits)

lemma proxy_ip_total:
  assumes "pool_cfg_ok G cfg" shows "yields (proxy_ip_gen G cfg r) (\<lambda>(g, _). total_gen g)"
proof -
  define n where "n = (case cfg of Some c \<Rightarrow> if 0 < pool_size c then pool_size c else 5000 | None \<Rightarrow> 5000)"
  define skew where "skew = (case cfg of Some c \<Rightarrow> if flt (Fin 1) (pool_skew c) then pool_skew c else rnd (3 / 2) | None \<Rightarrow> rnd (3 / 2))"
  have n: "0 < n" "n < 2 ^ 63" using assms by (auto simp: n_def pool_cfg_ok_def i64_def split: option.splits)
  have k: "flt (Fin 1) skew" using three_halves by (simp add: skew_def split: option.splits)
  have z: "zipf_ok G" using assms by (simp add: pool_cfg_ok_def)
  show ?thesis
    unfolding proxy_ip_gen_def Let_def n_def [symmetric] skew_def [symmetric] yields_bind
    using n by (intro yields_mono [OF build_pool_yields [OF _ host_cidr_ranges [OF proxy_networks_ok [OF assms]]]])
      (auto intro!: zipf_pool_total [OF z k])
qed

lemma dynamic_path_yields: "yields (dynamic_path G r) (\<lambda>_. True)"
  by (auto simp: dynamic_path_def dynamicPathTemplates_def dynamicDatasets_def dynamicIndices_def
      intro!: pick_yields intn_yields hex_string_yields)

lemma proxy_path_total: "yields (proxy_path_gen G r) (\<lambda>(g, _). total_gen g)"
proof -
  have "yields (proxyWeightedStrPool static_paths r) (\<lambda>(g, _). total_gen g)"
    by (rule weighted_str_total) (simp add: static_paths_def weight_total_def)
  then show ?thesis
    unfolding proxy_path_gen_def Let_def
    by (rule bind_yields) (auto simp: dynamicPathPoolSize_def
        intro!: yields_mono [OF repeat_go_total [OF dynamic_path_yields]] total_genI intn_yields nth_go_yields dest: total_genD)
qed

lemma rare_fn_rare [simp]: "rare_fn (rare k p g) = g"
  by (simp add: rare_def)

lemma rare_template_ok:
  "template_ok ((template sev f args from attrs)\<lparr>msg_rare := rs\<rparr>) \<longleftrightarrow>
     template_ok (template sev f args from attrs) \<and> list_all (\<lambda>ra. total_gen (rare_fn ra)) rs"
  by (auto simp: template_ok_def template_def list_all_iff)

lemma proxy_info_ok:
  "list_all (\<lambda>a. total_gen (attr_fn a)) as \<Longrightarrow> list_all (\<lambda>a. total_gen (attr_fn a)) hs \<Longrightarrow> list_all (\<lambda>ra. total_gen (rare_fn ra)) rs \<Longrightarrow>
   part_ok {SevInfo} [] [(template SevInfo [] [] [] as)\<lparr>msg_rare := rs\<rparr>, (template SevInfo [] [] [] as)\<lparr>msg_rare := rs\<rparr>,
     template SevInfo [] [] [] hs]"
  by (simp add: part_eval rare_template_ok)

lemma proxy_debug_ok: "list_all (\<lambda>a. total_gen (attr_fn a)) as \<Longrightarrow> part_ok {SevDebug} [] [template SevDebug [] [] [] as]"
  by (simp add: part_eval)

lemma proxy_warn_ok:
  "list_all (\<lambda>a. total_gen (attr_fn a)) as \<Longrightarrow> list_all (\<lambda>a. total_gen (attr_fn a)) bs \<Longrightarrow> list_all (\<lambda>a. total_gen (attr_fn a)) cs \<Longrightarrow>
   part_ok {SevWarn, SevError, SevFatal} [] [template SevWarn [] [] [] as, template SevError [] [] [] bs, template SevFatal [] [] [] cs]"
  by (simp add: part_eval)

lemmas bind_gens = bind_yields [OF weighted_str_total] bind_yields [OF weighted_int_total]
  bind_yields [OF log_normal_pool_total] bind_yields [OF clamped_pool_total]

lemma proxy_complete:
  assumes "list_all (\<lambda>a. total_gen (attr_fn a)) as" "list_all (\<lambda>a. total_gen (attr_fn a)) hs" "list_all (\<lambda>ra. total_gen (rare_fn ra)) rs"
    "list_all (\<lambda>a. total_gen (attr_fn a)) ds" "list_all (\<lambda>a. total_gen (attr_fn a)) ws" "list_all (\<lambda>a. total_gen (attr_fn a)) es"
    "list_all (\<lambda>a. total_gen (attr_fn a)) fs" "attrs_total cc" "long_tail_ok lt"
  shows "profile_complete [] \<lparr>app_name = n, app_scope = sc, app_messages = appendCrossCutting
    [(template SevInfo [] [] [] as)\<lparr>msg_rare := rs\<rparr>, (template SevInfo [] [] [] as)\<lparr>msg_rare := rs\<rparr>,
     template SevInfo [] [] [] hs, template SevDebug [] [] [] ds, template SevWarn [] [] [] ws, template SevError [] [] [] es,
     template SevFatal [] [] [] fs] cc, app_weights = w, app_trace = tr, app_long_tail = Some lt\<rparr>"
  using profile_completeI [OF proxy_info_ok [OF assms(1-3)] proxy_debug_ok [OF assms(4)] proxy_warn_ok [OF assms(5-7)] assms(8,9)]
  by simp

text \<open>The shared generators never panic.\<close>

definition gens_ok :: "proxy_gens \<Rightarrow> bool" where
  "gens_ok g \<longleftrightarrow> list_all total_gen
   [client_ip_gen g, path_gen g, method_gen g, status_gen g, action_gen g, routing_dec_gen g, app_type_gen g,
    resolution_gen g, request_source_gen g, status_reason_gen g, serverless_type_gen g, zone_gen g,
    user_agent_gen g, backend_proto_gen g, request_proto_gen g, port_gen g, handling_port_gen g,
    tls_version_gen g, tls_cipher_gen g, resp_time_gen g, backend_resp_time_gen g, proxy_time_gen g,
    req_len_gen g, resp_len_gen g, conn_conc_gen g, req_conc_gen g]"

lemma proxy_gens_yields:
  assumes "total_gen cip" and "total_gen path"
  shows "yields (proxy_gens_of G cip path r) (\<lambda>(g, _). gens_ok g)"
  unfolding proxy_gens_of_def
  by (((rule bind_gens(1,2), simp add: weight_total_def) | rule bind_gens(3,4))+, simp only: yields_Some split_conv)
    (simp add: gens_ok_def assms)

lemma proxy_warn_yields:
  assumes "gens_ok g" and "pools_ok p"
  shows "yields (proxyWarnAttrs G p g r) (\<lambda>(as, _). list_all (\<lambda>a. total_gen (attr_fn a)) as)"
    "yields (proxyErrAttrs G p g r) (\<lambda>(as, _). list_all (\<lambda>a. total_gen (attr_fn a)) as)"
  unfolding proxyWarnAttrs_def proxyErrAttrs_def
  by (((rule bind_gens(1,2), simp add: weight_total_def) | rule bind_gens(3,4))+, simp only: yields_Some split_conv,
      use assms in \<open>simp add: gens_ok_def pools_ok_def gen_total\<close>)+

lemma proxy_attrs_total:
  assumes "gens_ok g" and "pools_ok p"
  shows "list_all (\<lambda>a. total_gen (attr_fn a)) (proxyInfoAttrs p g)" "list_all (\<lambda>ra. total_gen (rare_fn ra)) (proxyInfoRare p g)"
    "list_all (\<lambda>a. total_gen (attr_fn a)) (proxyHealthAttrs g)" "list_all (\<lambda>a. total_gen (attr_fn a)) (proxyDebugAttrs p g)"
    "list_all (\<lambda>a. total_gen (attr_fn a)) (proxyFatalAttrs p g)"
  using assms
  by (simp_all add: proxyInfoAttrs_def proxyInfoRare_def proxyHealthAttrs_def proxyDebugAttrs_def proxyFatalAttrs_def
      gens_ok_def pools_ok_def gen_total client_meta_def)

lemma proxy_profile_ok:
  assumes "pool_cfg_ok G cfg"
  shows "yields (ProxyProfile G ro cfg) (\<lambda>(p, _). profile_complete [] p)"
  unfolding ProxyProfile_def Let_def
  by (rule bind_yields [OF proxy_pools_yields], rule bind_yields [OF proxy_ip_total [OF assms]],
      rule bind_yields [OF proxy_path_total], rule bind_yields [OF proxy_gens_yields], assumption+,
      rule bind_yields [OF proxy_warn_yields(1)], assumption+, rule bind_yields [OF proxy_warn_yields(2)], assumption+,
      rule bind_texts(1), simp, rule bind_yields [OF cross_cutting_yields], assumption, rule bind_yields [OF rare_fields_yields],
      simp only: yields_Some split_conv, rule proxy_complete)
    (simp_all add: proxy_attrs_total)

end
