(* ===== verification/Profiles.thy ===== *)
theory Profiles
  imports ProfileNginx ProfileMySQL ProfileRedis ProfileGoApp ProfileProxy
begin

text \<open>
  The choice of a profile (\<open>internal/loggen/profiles.go\<close>) and what holds of all of them:
  every built-in profile can be built, never panics afterwards, and has messages for every
  severity that can be drawn. Two of their templates do not do what they are meant to.
\<close>

subsection \<open>Choice of a profile\<close>

definition auto_pool_size :: "int \<Rightarrow> int" where
  "auto_pool_size instances = (let n = w64 (instances * 10) in if n < 500 then 500 else n)"

text \<open>
  The size is written to the caller's configuration when there is one: the result is the
  profile, that configuration and the generator.
\<close>

definition GetAppProfile ::
    "golib \<Rightarrow> string \<Rightarrow> rng option \<Rightarrow> ip_pool_config option \<Rightarrow> int \<Rightarrow>
      (app_profile option \<times> ip_pool_config option \<times> rng) option" where
  "GetAppProfile G path ro ip_cfg instances =
     (let r = rng_or_default G ro;
          size = auto_pool_size instances;
          ip_cfg' = map_option (\<lambda>c. c\<lparr>pool_size := size\<rparr>) ip_cfg;
          cfg = (case ip_cfg' of Some c \<Rightarrow> c | None \<Rightarrow> \<lparr>pool_cidrs = [], pool_size = size, pool_skew = Fin 0\<rparr>);
          path' = trim_prefix path ''builtin/'';
          found = (\<lambda>m. do { (p, r') \<leftarrow> m; Some (Some p, ip_cfg', r') })
      in if path' = ''k8s-nginx'' then found (NginxProfile G (Some r) (Some cfg))
         else if path' = ''k8s-mysql'' then found (MySQLProfile G (Some r) (Some cfg))
         else if path' = ''k8s-redis'' then found (RedisProfile G (Some r) (Some cfg))
         else if path' = ''k8s-goapp'' then found (GoAppProfile G (Some r))
         else if path' = ''k8s-proxy'' then found (ProxyProfile G (Some r) (Some cfg))
         else Some (None, ip_cfg', r))"

definition GenericProfile :: "golib \<Rightarrow> string \<Rightarrow> app_profile" where
  "GenericProfile G service_name =
     (let tsLayout = ''2006-01-02T15:04:05.000Z''
      in \<lparr>app_name = ''generic'', app_scope = ''io.opentelemetry.generic'',
          app_messages = [template SevInfo ''log message from %s at %s'' [Static service_name, Timestamp G tsLayout] [] []],
          app_weights = DefaultSeverityWeights, app_trace = False, app_long_tail = None\<rparr>)"

subsection \<open>Built-in profiles are complete\<close>

definition builtin_paths :: "string list" where
  "builtin_paths = [''k8s-nginx'', ''k8s-mysql'', ''k8s-redis'', ''k8s-goapp'', ''k8s-proxy'']"

text \<open>The formats of a profile that leave an operand unused.\<close>

definition unused_operands :: "string \<Rightarrow> string list" where
  "unused_operands path = (if path = ''k8s-goapp'' then [goapp_query_format] else [])"

lemma auto_pool_size_i64: "i64 (auto_pool_size instances)"
  using i64_w64_range [of "instances * 10"] by (auto simp: auto_pool_size_def Let_def i64_def)

lemma profile_yields:
  assumes path: "trim_prefix path ''builtin/'' \<in> set builtin_paths" and G: "zipf_ok G"
    and cidrs: "\<forall>c \<in> set (networks cfg). host_cidr G c"
  shows "yields (GetAppProfile G path ro cfg instances)
    (\<lambda>(po, _, _). \<exists>p. po = Some p \<and> profile_complete (unused_operands (trim_prefix path ''builtin/'')) p)"
proof -
  define c where "c = (case map_option (\<lambda>c. c\<lparr>pool_size := auto_pool_size instances\<rparr>) cfg of Some c \<Rightarrow> c
    | None \<Rightarrow> \<lparr>pool_cidrs = [], pool_size = auto_pool_size instances, pool_skew = Fin 0\<rparr>)"
  have "pool_cfg_ok G (Some c)"
    using G cidrs auto_pool_size_i64 by (auto simp: pool_cfg_ok_def c_def networks_def split: option.splits if_splits)
  note ok = nginx_profile_ok [OF this] mysql_profile_ok [OF this] redis_profile_ok [OF this] proxy_profile_ok [OF this]
  show ?thesis
    using path unfolding GetAppProfile_def Let_def c_def [symmetric] builtin_paths_def
    by (auto simp: unused_operands_def intro!: yields_mono [OF ok(1)] yields_mono [OF ok(2)] yields_mono [OF ok(3)]
        yields_mono [OF ok(4)] yields_mono [OF goapp_profile_ok])
qed

text \<open>
  C10. Every built-in profile can be built, for any seed, networks in dotted notation with
  prefixes of at most 31 bits, and any scale. The profile's generators never panic, its formats
  have an operand for every verb and, but for one format of the Go application, no more than
  that, each of the kind its verb formats; attributes refer to operands that exist; and there are messages for exactly the
  severities from DEBUG to FATAL.
\<close>

theorem builtin_profiles_complete:
  assumes "trim_prefix path ''builtin/'' \<in> set builtin_paths" and "zipf_ok G"
    and "\<forall>c \<in> set (networks cfg). host_cidr G c"
  shows "\<exists>p cfg' r'. GetAppProfile G path ro cfg instances = Some (Some p, cfg', r') \<and>
    profile_complete (unused_operands (trim_prefix path ''builtin/'')) p"
  using profile_yields [OF assms, of ro instances] by (auto simp: yields_ex)

lemma builtin_profiles_complete_witness:
  "\<exists>p cfg' r'. GetAppProfile sample_lib ''builtin/k8s-nginx'' None None 3 = Some (Some p, cfg', r') \<and> profile_complete [] p"
proof -
  have "trim_prefix ''builtin/k8s-nginx'' ''builtin/'' = ''k8s-nginx''" by (simp add: trim_prefix_def has_prefix_def)
  then show ?thesis
    using builtin_profiles_complete [of "''builtin/k8s-nginx''" sample_lib None None 3]
    by (simp add: builtin_paths_def unused_operands_def sample_lib_ok networks_def host_cidr_10)
qed

subsection \<open>The prepared path and the reference path\<close>

lemma default_weights:
  "NginxProfile G ro cfg = Some (p, r') \<Longrightarrow> app_weights p = DefaultSeverityWeights"
  "MySQLProfile G ro cfg = Some (p, r') \<Longrightarrow> app_weights p = DefaultSeverityWeights"
  "RedisProfile G ro cfg = Some (p, r') \<Longrightarrow> app_weights p = DefaultSeverityWeights"
  "GoAppProfile G ro = Some (p, r') \<Longrightarrow> app_weights p = DefaultSeverityWeights"
  "ProxyProfile G ro cfg = Some (p, r') \<Longrightarrow> app_weights p = DefaultSeverityWeights"
  by (auto simp: NginxProfile_def MySQLProfile_def RedisProfile_def GoAppProfile_def ProxyProfile_def Let_def
      split: bind_splits)

lemma builtin_weights: "GetAppProfile G path ro cfg instances = Some (Some p, cfg', r') \<Longrightarrow> app_weights p = DefaultSeverityWeights"
  by (auto simp: GetAppProfile_def Let_def dest: default_weights split: bind_splits if_splits)

lemma default_severities:
  "0 \<le> n \<Longrightarrow> n < 100 \<Longrightarrow> pick_weight n (weights_list DefaultSeverityWeights) severities \<in> {SevDebug, SevInfo, SevWarn, SevError, SevFatal}"
  by (simp add: DefaultSeverityWeights_def severities_def)

lemma severity_messages: "filterMessagesBySeverity ms s \<noteq> [] \<longleftrightarrow> s \<in> msg_severity ` set ms"
  by (auto simp: filterMessagesBySeverity_def filter_empty_conv)

text \<open>The built-in profiles but for the Go application's meet the conditions of C9.\<close>

lemma builtin_same_paths:
  assumes "trim_prefix path ''builtin/'' \<in> set builtin_paths" and "trim_prefix path ''builtin/'' \<noteq> ''k8s-goapp''"
    and "zipf_ok G" and "\<forall>c \<in> set (networks cfg). host_cidr G c"
  shows "\<exists>p cfg' r'. GetAppProfile G path ro cfg instances = Some (Some p, cfg', r') \<and> app_messages p \<noteq> [] \<and>
    (\<forall>t \<in> set (app_messages p). plain_template G t) \<and> same_fallback p"
proof -
  obtain p cfg' r' where p: "GetAppProfile G path ro cfg instances = Some (Some p, cfg', r')" "profile_complete [] p"
    using profile_yields [OF assms(1,3,4), of ro instances] assms(2) by (auto simp: yields_ex unused_operands_def)
  have S: "msg_severity ` set (app_messages p) = {SevDebug, SevInfo, SevWarn, SevError, SevFatal}"
    using p(2) by (simp add: profile_complete_def)
  then have "app_messages p \<noteq> []" by auto
  moreover have "\<forall>t \<in> set (app_messages p). plain_template G t"
    using p(2) by (auto simp: profile_complete_def list_all_iff fits_template_def intro: fits_template_plain)
  moreover have "same_fallback p"
    unfolding same_fallback_def builtin_weights [OF p(1)] severity_messages S
    using default_severities by (intro disjI2 ballI) auto
  ultimately show ?thesis using p(1) by blast
qed

text \<open>
  C9. The receiver's path generates the same record from the same draws as the reference path
  with the rare fields emitted after it, which the reference path does not have. The conditions
  are on the profile: it has messages; every format suits its operands, so that
  \<open>fmt.Sprintf\<close> formats them without complaint; and the two paths fall back to the same
  messages where the severity drawn has none, because there is at most one INFO message or
  every severity with a share has messages. Four of the five built-in profiles meet them, with
  the default shares; the Go application's has one format with an operand too many.
\<close>

theorem prepared_matches_reference:
  assumes "app_messages p \<noteq> []" and "\<forall>t \<in> set (app_messages p). plain_template G t" and "same_fallback p"
  shows "map_option drop_buffers (GenerateFromPreparedInto G (PrepareProfile p) ts ao ab bb r) =
    do { rec \<leftarrow> map_option no_attrs_map (GenerateLogRecord G p ts r); emit_rare_fields (app_long_tail p) rec }"
  using assms by (rule prepared_path)

lemma prepared_matches_reference_witness:
  "\<exists>p cfg' r'. GetAppProfile sample_lib ''k8s-redis'' (Some (new_rng [8, 3])) None 40 = Some (Some p, cfg', r') \<and>
     map_option drop_buffers (GenerateFromPreparedInto sample_lib (PrepareProfile p) zero_time
       [(''stale'', AInt 1)] [AInt 2] ''x'' (new_rng [7])) =
     do { rec \<leftarrow> map_option no_attrs_map (GenerateLogRecord sample_lib p zero_time (new_rng [7]));
          emit_rare_fields (app_long_tail p) rec }"
proof -
  have t: "trim_prefix ''k8s-redis'' ''builtin/'' = ''k8s-redis''" by (simp add: trim_prefix_def has_prefix_def)
  obtain p cfg' r' where p: "GetAppProfile sample_lib ''k8s-redis'' (Some (new_rng [8, 3])) None 40 = Some (Some p, cfg', r')"
    and ok: "app_messages p \<noteq> []" "\<forall>t \<in> set (app_messages p). plain_template sample_lib t" "same_fallback p"
    using builtin_same_paths [of "''k8s-redis''" sample_lib None "Some (new_rng [8, 3])" 40]
    by (auto simp: t builtin_paths_def sample_lib_ok networks_def host_cidr_10)
  show ?thesis
    using p prepared_matches_reference [OF ok, of zero_time "[(''stale'', AInt 1)]" "[AInt 2]" "''x''" "new_rng [7]"] by blast
qed

subsection \<open>The severity drawn is the severity recorded\<close>

lemma pick_weight_severities: "length ws = length ss \<Longrightarrow> pick_weight n ws ss \<in> insert SevInfo (set ss)"
  by (induction n ws ss rule: pick_weight.induct) auto

lemma generate_severity:
  assumes p: "profile_ok p" "msg_severity ` set (app_messages p) = {SevDebug, SevInfo, SevWarn, SevError, SevFatal}"
  shows "yields (pickSeverityFromWeights w r) (\<lambda>(sev, _).
    yields (GenerateFromPreparedInto G (OverrideSeverityWeights w (PrepareProfile p)) ts ao ab bb r)
      (\<lambda>(_, s, _). s = (if sev = SevTrace then SevInfo else sev)))"
proof -
  let ?pp = "OverrideSeverityWeights w (PrepareProfile p)"
  have lt: "pred_option long_tail_ok (pp_long_tail ?pp)"
    using p(1) by (auto simp: profile_ok_def PrepareProfile_def OverrideSeverityWeights_def)
  have msgs: "sev_msgs (pp_by_severity ?pp) s = filterMessagesBySeverity (app_messages p) s" for s
    using sev_msgs_prepare [of p s] by (simp add: OverrideSeverityWeights_def)
  have cand: "candidates ?pp sev \<noteq> [] \<and> (\<forall>t \<in> set (candidates ?pp sev). template_ok t \<and>
      msg_severity t = (if sev = SevTrace then SevInfo else sev))" if "sev \<in> insert SevInfo (set severities)" for sev
  proof -
    have S: "filterMessagesBySeverity (app_messages p) s \<noteq> [] \<longleftrightarrow> s \<in> {SevDebug, SevInfo, SevWarn, SevError, SevFatal}" for s
      unfolding severity_messages p(2) ..
    have "candidates ?pp sev = filterMessagesBySeverity (app_messages p) (if sev = SevTrace then SevInfo else sev)"
      using S [of sev] S [of SevInfo] that
      by (cases "sev = SevTrace") (auto simp: candidates_def msgs Let_def severities_def)
    then show ?thesis
      using S [of "if sev = SevTrace then SevInfo else sev"] that p
      by (auto simp: severities_def profile_ok_def filterMessagesBySeverity_def split: if_splits)
  qed
  have pick: "pick_weight n (weights_list w) severities \<in> insert SevInfo (set severities)" for n
    by (rule pick_weight_severities) (cases w, simp add: severities_def)
  have rec: "yields (template_record G t (pp_long_tail ?pp) ctx r') (\<lambda>(_, s, _). s = msg_severity t)" if "template_ok t" for t ctx r'
    by (rule template_record_yields [OF that lt])
  obtain n r1 where n: "intn 100 r = Some (n, r1)"
    using intn_yields [of 100 "\<lambda>_. True" r] by (auto simp: yields_ex)
  define sev where "sev = pick_weight n (weights_list w) severities"
  have ps: "pickSeverityFromWeights w r = Some (sev, r1)" by (simp add: pickSeverityFromWeights_def n sev_def)
  have w: "app_weights (pp_profile ?pp) = w" by (simp add: OverrideSeverityWeights_def)
  from pick [of n] cand [of sev] have c: "candidates ?pp sev \<noteq> []"
    "\<And>t. t \<in> set (candidates ?pp sev) \<Longrightarrow> template_ok t \<and> msg_severity t = (if sev = SevTrace then SevInfo else sev)"
    by (auto simp: sev_def [symmetric])
  show ?thesis
    unfolding generate_eq w ps
    using c by (auto intro!: pick_yields yields_mono [OF rec])
qed

text \<open>
  C22. Whatever the weights, a record of a profile with messages for exactly the severities from
  DEBUG to FATAL, as all the built-in ones are, has the severity that was drawn, but INFO
  where TRACE was drawn: the other fall-backs are not taken. So with C21 the records have the
  configured shares of DEBUG, WARN, ERROR and FATAL, the share of INFO is the sum of those
  configured for INFO and TRACE, and there is no TRACE record, whatever its share.
\<close>

theorem recorded_severity_is_drawn:
  assumes "profile_ok p" and "msg_severity ` set (app_messages p) = {SevDebug, SevInfo, SevWarn, SevError, SevFatal}"
  shows "\<exists>sev r1 body s rest. pickSeverityFromWeights w r = Some (sev, r1) \<and>
    GenerateFromPreparedInto G (OverrideSeverityWeights w (PrepareProfile p)) ts ao ab bb r = Some (body, s, rest) \<and>
    s = (if sev = SevTrace then SevInfo else sev)"
  using generate_severity [OF assms, of w r G ts ao ab bb] by (fastforce simp: yields_ex)

text \<open>A profile with one message for each severity.\<close>

definition small_profile :: app_profile where
  "small_profile =
     \<lparr>app_name = ''small'', app_scope = [],
      app_messages = map (\<lambda>s. template s ''x'' [] [] []) [SevInfo, SevDebug, SevWarn, SevError, SevFatal],
      app_weights = DefaultSeverityWeights, app_trace = False, app_long_tail = None\<rparr>"

lemma recorded_severity_is_drawn_witness:
  "\<exists>sev r1 body s rest. pickSeverityFromWeights (0, 0, 0, 0, 0, 100) (new_rng [9]) = Some (sev, r1) \<and>
    GenerateFromPreparedInto sample_lib (OverrideSeverityWeights (0, 0, 0, 0, 0, 100) (PrepareProfile small_profile))
      zero_time [] [] [] (new_rng [9]) = Some (body, s, rest) \<and> s = (if sev = SevTrace then SevInfo else sev)"
  by (rule recorded_severity_is_drawn)
    (auto simp: small_profile_def profile_ok_def template_okI verbs_char)

subsection \<open>Two templates\<close>

text \<open>
  The message of a query of the Go application has four verbs and five operands, because
  its placeholder \<open>%%s\<close> is the escape of a percent sign: the identifier meant for the parameters
  of the query becomes the duration, and the duration is dropped.
\<close>

theorem goapp_query_duration:
  \<open>sprintfSimple G buf goapp_query_format [AStr ts, AInt line, AStr tbl, AStr ident, AInt ms] =
     (let s = ''{"level":"debug","ts":"'' @ ts @ ''","caller":"db/query.go:'' @ itoa line @
        ''","msg":"executing query","query":"SELECT * FROM '' @ tbl @
        '' WHERE id = $1","params":["%s"],"duration":"'' @ ident @ ''ms"}''
      in Some (s, s))\<close>
  by (simp add: sprintfSimple_def goapp_query_format_def loop_cases verb_chars_def verb_append_def nth_go_def Let_def)

text \<open>
  In the message of a slow query of MySQL the attributes refer to the operands one place
  too far: the attribute \<open>db.name\<close> is the table and \<open>db.sql.table\<close> the column, while the text
  has them in their places.
\<close>

theorem mysql_slow_query_attributes:
  assumes "text_total zipfIP"
  shows "\<exists>ms r'. mysqlWarnLogs G zipfIP r = Some (ms, r') \<and>
    msg_args (ms ! 2) ! 5 = RandomPath mysqlDBNames \<and> msg_args (ms ! 2) ! 6 = RandomPath mysqlTables \<and>
    (\<forall>ts tid code secs rows db tbl col.
       let a = set_from_args (attr_from_arg (ms ! 2)) [ts, tid, code, secs, rows, AStr db, AStr tbl, AStr col] []
       in map_of a ''db.name'' = Some (AStr tbl) \<and> map_of a ''db.sql.table'' = Some (AStr col))"
proof -
  have "yields (mysqlWarnLogs G zipfIP r) (\<lambda>(ms, _).
    msg_args (ms ! 2) ! 5 = RandomPath mysqlDBNames \<and> msg_args (ms ! 2) ! 6 = RandomPath mysqlTables \<and>
      attr_from_arg (ms ! 2) = [(''db.name'', 6), (''db.sql.table'', 7)])"
    unfolding mysqlWarnLogs_def Let_def by ((rule bind_texts(3), simp)+) simp
  then show ?thesis by (auto simp: yields_ex nth_go_def map_of_put_go)
qed

lemma mysql_slow_query_attributes_witness:
  "\<exists>ms r'. mysqlWarnLogs sample_lib (Static ''10.0.0.1'') (new_rng [4]) = Some (ms, r') \<and>
    msg_args (ms ! 2) ! 5 = RandomPath mysqlDBNames"
  using mysql_slow_query_attributes [of "Static ''10.0.0.1''" sample_lib "new_rng [4]"] text_total_Static by auto

end
