(* ===== verification/LogTmpl.thy ===== *)
theory LogTmpl
  imports LogStats ArgGens
begin

text \<open>
  The resources of a scenario (\<open>internal/logstmpl/logstmpl.go\<close>): the choice of a template
  file, its rendering for each instance, and the functions that a template can call. The
  template engine, the YAML and JSON libraries and the collector's unmarshaler are the fields
  of \<open>tmpl_lib\<close>: a template is a function of the model and the generator that its calls
  read. A resource is its attributes.
\<close>

subsection \<open>Libraries\<close>

record tmpl_model =
  instance_id :: int
  instance_vars :: "(string, any) gomap"
  instance_start_time :: string

text \<open>
  \<open>parse_fn embedded path\<close> is the template of a file, if it exists and can be parsed;
  executing it gives a text or an error, and the generator afterwards. \<open>uuid_fn\<close> is
  \<open>uuid.NewRandomFromReader\<close> with the text of its result.
\<close>

record ('t, 'm) tmpl_lib =
  parse_fn :: "bool \<Rightarrow> string \<Rightarrow> 't option"
  execute_fn :: "'t \<Rightarrow> string \<Rightarrow> tmpl_model \<Rightarrow> rng \<Rightarrow> string option \<times> rng"
  yaml_fn :: "string \<Rightarrow> 'm option"
  json_fn :: "'m \<Rightarrow> string option"
  unmarshal_fn :: "string \<Rightarrow> attrs list option"
  uuid_fn :: "rng \<Rightarrow> string \<times> rng"

datatype tmpl_error = ExecuteFailed | YamlFailed | JsonFailed | UnmarshalFailed | NoTemplate string

subsection \<open>Rendering\<close>

text \<open>\<open>filepath.Base\<close> of a path that does not end in a slash.\<close>

definition base_name :: "string \<Rightarrow> string" where
  "base_name p = rev (takeWhile (\<lambda>c. c \<noteq> CHR ''/'') (rev p))"

definition decode_template :: "('t, 'm) tmpl_lib \<Rightarrow> string \<Rightarrow> string \<Rightarrow> tmpl_error + attrs list" where
  "decode_template L p b =
     (let json = (if has_suffix p ''.yaml'' \<or> has_suffix p ''.yml'' then
                    (case yaml_fn L b of None \<Rightarrow> Inl YamlFailed
                     | Some m \<Rightarrow> (case json_fn L m of None \<Rightarrow> Inl JsonFailed | Some j \<Rightarrow> Inr j))
                  else Inr b)
      in case json of Inl e \<Rightarrow> Inl e
         | Inr j \<Rightarrow> (case unmarshal_fn L j of None \<Rightarrow> Inl UnmarshalFailed | Some rs \<Rightarrow> Inr rs))"

text \<open>The loop over the extensions; a file that cannot be parsed is skipped.\<close>

fun render_exts :: "('t, 'm) tmpl_lib \<Rightarrow> string \<Rightarrow> tmpl_model \<Rightarrow> string list \<Rightarrow> rng \<Rightarrow> (tmpl_error + attrs list) \<times> rng" where
  "render_exts L path model [] r = (Inl (NoTemplate path), r)"
| "render_exts L path model (ext # exts) r =
     (let p = path @ ext
      in case parse_fn L (has_prefix p ''builtin/'') p of
           None \<Rightarrow> render_exts L path model exts r
         | Some tpl \<Rightarrow>
             (case execute_fn L tpl (base_name p) model r of
                (None, r') \<Rightarrow> (Inl ExecuteFailed, r')
              | (Some b, r') \<Rightarrow> (decode_template L p b, r')))"

definition template_exts :: "string list" where
  "template_exts = [''.json'', ''.yaml'', ''.yml'']"

definition RenderLogsTemplate :: "('t, 'm) tmpl_lib \<Rightarrow> string \<Rightarrow> tmpl_model \<Rightarrow> rng \<Rightarrow> (tmpl_error + attrs list) \<times> rng" where
  "RenderLogsTemplate L path model r = render_exts L path model template_exts r"

text \<open>\<open>ResourceLogs().At(0)\<close> panics when the logs have no resource.\<close>

definition RenderLogResource ::
    "('t, 'm) tmpl_lib \<Rightarrow> string \<Rightarrow> int \<Rightarrow> string \<Rightarrow> (string, any) gomap \<Rightarrow> rng \<Rightarrow> ((tmpl_error + attrs) \<times> rng) option" where
  "RenderLogResource L path ident start vars r =
     (case RenderLogsTemplate L (path @ ''-resource-attributes'')
             \<lparr>instance_id = ident, instance_vars = vars, instance_start_time = start\<rparr> r of
        (Inl e, r') \<Rightarrow> Some (Inl e, r')
      | (Inr rs, r') \<Rightarrow> (case rs of [] \<Rightarrow> None | res # _ \<Rightarrow> Some (Inr res, r')))"

text \<open>The loop over the instances \<open>i, i + 1, ...\<close>, \<open>n\<close> of them; an error ends it.\<close>

primrec render_instances ::
    "('t, 'm) tmpl_lib \<Rightarrow> string \<Rightarrow> string \<Rightarrow> (string, any) gomap \<Rightarrow> nat \<Rightarrow> int \<Rightarrow> rng \<Rightarrow> ((tmpl_error + attrs list) \<times> rng) option" where
  "render_instances L path start vars 0 i r = Some (Inr [], r)"
| "render_instances L path start vars (Suc n) i r =
     do { (res, r1) \<leftarrow> RenderLogResource L path i start vars r;
          case res of Inl e \<Rightarrow> Some (Inl e, r1)
          | Inr a \<Rightarrow> do { (rest, r2) \<leftarrow> render_instances L path start vars n (i + 1) r1;
                          Some (map_sum id ((#) a) rest, r2) } }"

definition GetLogResources ::
    "golib \<Rightarrow> ('t, 'm) tmpl_lib \<Rightarrow> string \<Rightarrow> gotime \<Rightarrow> int \<Rightarrow> (string, any) gomap \<Rightarrow> rng \<Rightarrow> ((tmpl_error + attrs list) \<times> rng) option" where
  "GetLogResources G L path start n vars r =
     (if n < 0 then None
      else render_instances L path (fmt_time_fn G ''2006-01-02T15:04:05Z07:00'' start) vars (nat n) 0 r)"

subsection \<open>Functions of a template\<close>

text \<open>\<open>byte(m.rand.Int())\<close>, several of them in the order of the arguments.\<close>

primrec rand_bytes :: "nat \<Rightarrow> rng \<Rightarrow> 8 word list \<times> rng" where
  "rand_bytes 0 r = ([], r)"
| "rand_bytes (Suc n) r = (let (b, r1) = rand_byte r; (bs, r2) = rand_bytes n r1 in (b # bs, r2))"

fun join_with :: "char \<Rightarrow> string list \<Rightarrow> string" where
  "join_with c [] = []"
| "join_with c [s] = s"
| "join_with c (s # ss) = s @ c # join_with c ss"

definition RandomIPv4 :: "rng \<Rightarrow> string \<times> rng" where
  "RandomIPv4 r = (let (bs, r') = rand_bytes 4 r in (join_with (CHR ''.'') (map (\<lambda>b. fmt_nat 10 (unat b)) bs), r'))"

text \<open>
  \<open>net.IP.String\<close> of 16 bytes: an embedded IPv4 address has dots; otherwise the first longest
  run of at least two zero groups is written as two colons.
\<close>

fun ip_groups :: "8 word list \<Rightarrow> nat list" where
  "ip_groups (a # b # bs) = (unat a * 256 + unat b) # ip_groups bs"
| "ip_groups _ = []"

definition zero_run :: "nat list \<Rightarrow> nat \<times> nat" where
  "zero_run gs =
     fold (\<lambda>i (from, to). let l = length (takeWhile (\<lambda>g. g = 0) (drop i gs))
        in if 2 \<le> l \<and> to - from < l then (i, i + l) else (from, to)) [0..<length gs] (length gs, length gs)"

definition groups_text :: "nat list \<Rightarrow> string" where
  "groups_text gs =
     (let (from, to) = zero_run gs; text = (\<lambda>xs. join_with (CHR '':'') (map (fmt_nat 16) xs))
      in if from = to then text gs else text (take from gs) @ ''::'' @ text (drop to gs))"

definition ip_text :: "8 word list \<Rightarrow> string" where
  "ip_text bs =
     (case to4 bs of Some ip4 \<Rightarrow> join_with (CHR ''.'') (map (\<lambda>b. fmt_nat 10 (unat b)) ip4)
      | None \<Rightarrow> groups_text (ip_groups bs))"

definition RandomIPv6 :: "rng \<Rightarrow> string \<times> rng" where
  "RandomIPv6 r = (let (bs, r') = read_go 16 r in (ip_text bs, r'))"

definition UUID :: "('t, 'm) tmpl_lib \<Rightarrow> rng \<Rightarrow> string \<times> rng" where
  "UUID L r = uuid_fn L r"

text \<open>
  The numbers that the channel of \<open>loop\<close> delivers before it is closed; up to the largest
  \<open>int\<close> the counter wraps around and the channel is never closed.
\<close>

definition loop_values :: "int \<Rightarrow> int \<Rightarrow> int list option" where
  "loop_values from to = (if from \<le> to \<and> to = 2 ^ 63 - 1 then None else Some [from..to])"

text \<open>\<open>HardwareAddr.String\<close>: two hexadecimal digits for each byte, separated by colons.\<close>

definition mac_string :: "8 word list \<Rightarrow> string" where
  "mac_string bs = join_with (CHR '':'') (map (\<lambda>b. hex_encode [b]) bs)"

definition RandomMAC :: "rng \<Rightarrow> string \<times> rng" where
  "RandomMAC r = (let (bs, r') = rand_bytes 6 r in (mac_string (bs[0 := (bs ! 0) OR 2]), r'))"

definition RandomHex :: "int \<Rightarrow> rng \<Rightarrow> (string \<times> rng) option" where
  "RandomHex n r =
     (if div_go n 2 < 0 then None
      else let (bs, r') = read_go (nat (div_go n 2)) r in Some (hex_encode bs, r'))"

definition RandomIntn :: "int \<Rightarrow> rng \<Rightarrow> (int \<times> rng) option" where
  "RandomIntn n r = intn n r"

definition RandomFromOf :: "string list \<Rightarrow> rng \<Rightarrow> (string \<times> rng) option" where
  "RandomFromOf s r = pick s r"

text \<open>The remainder of a division by zero panics.\<close>

definition Mod :: "int \<Rightarrow> int \<Rightarrow> int option" where
  "Mod x y = (if y = 0 then None else Some (rem_go x y))"

definition ModFrom :: "int \<Rightarrow> string list \<Rightarrow> string option" where
  "ModFrom m s = do { i \<leftarrow> Mod m (int (length s)); nth_go s i }"

subsection \<open>The resources of a scenario\<close>

lemma render_instances_Inr:
  "render_instances L path start vars n i r = Some (Inr rs, r') \<Longrightarrow>
   length rs = n \<and> (\<forall>k < n. \<exists>r1 r2. RenderLogResource L path (i + int k) start vars r1 = Some (Inr (rs ! k), r2))"
proof (induction n arbitrary: i r rs r')
  case (Suc n)
  then obtain a r1 rest where a: "RenderLogResource L path i start vars r = Some (Inr a, r1)"
    and rest: "render_instances L path start vars n (i + 1) r1 = Some (Inr rest, r')" and rs: "rs = a # rest"
    by (auto split: bind_splits sum.splits simp: map_sum_def)
  show ?case
    using Suc.IH [OF rest] a by (auto simp: rs less_Suc_eq_0_disj algebra_simps)
qed simp

text \<open>A resource comes from the first of the three files that can be parsed.\<close>

definition first_file :: "('t, 'm) tmpl_lib \<Rightarrow> string \<Rightarrow> string list \<Rightarrow> string \<Rightarrow> 't \<Rightarrow> bool" where
  "first_file L path exts p tpl \<longleftrightarrow> (\<exists>k < length exts. p = path @ exts ! k \<and> parse_fn L (has_prefix p ''builtin/'') p = Some tpl \<and>
     (\<forall>j < k. parse_fn L (has_prefix (path @ exts ! j) ''builtin/'') (path @ exts ! j) = None))"

lemma first_file_Cons:
  "first_file L path (ext # exts) p tpl \<longleftrightarrow>
     (case parse_fn L (has_prefix (path @ ext) ''builtin/'') (path @ ext) of
        Some t \<Rightarrow> p = path @ ext \<and> tpl = t | None \<Rightarrow> first_file L path exts p tpl)"
  unfolding first_file_def length_Cons Ex_less_Suc2
  by (cases "parse_fn L (has_prefix (path @ ext) ''builtin/'') (path @ ext)") (auto simp: All_less_Suc2)

definition rendered_by :: "('t, 'm) tmpl_lib \<Rightarrow> string \<Rightarrow> tmpl_model \<Rightarrow> attrs \<Rightarrow> bool" where
  "rendered_by L path model res \<longleftrightarrow> (\<exists>p tpl b r1 r2 rest. first_file L path template_exts p tpl \<and>
     execute_fn L tpl (base_name p) model r1 = (Some b, r2) \<and> decode_template L p b = Inr (res # rest))"

lemma render_exts_Inr:
  "render_exts L path model exts r = (Inr rs, r') \<Longrightarrow> \<exists>p tpl b r1 r2. first_file L path exts p tpl \<and>
     execute_fn L tpl (base_name p) model r1 = (Some b, r2) \<and> decode_template L p b = Inr rs"
  by (induction L path model exts r rule: render_exts.induct)
    (auto simp: first_file_Cons Let_def split: option.splits prod.splits)

text \<open>
  C28. When the resources of a scenario can be loaded there is exactly one for each instance,
  and the \<open>i\<close>-th is the first resource of the document rendered with the number \<open>i\<close>, from the
  first file with the extension .json, .yaml or .yml that exists, in this order.
\<close>

theorem resources_rendered:
  assumes "GetLogResources G L path start n vars r = Some (Inr rs, r')"
  shows "0 \<le> n \<and> length rs = nat n \<and> (\<forall>i < nat n. rendered_by L (path @ ''-resource-attributes'')
    \<lparr>instance_id = int i, instance_vars = vars, instance_start_time = fmt_time_fn G ''2006-01-02T15:04:05Z07:00'' start\<rparr> (rs ! i))"
proof -
  from assms have n: "0 \<le> n" and run: "render_instances L path (fmt_time_fn G ''2006-01-02T15:04:05Z07:00'' start) vars (nat n) 0 r =
      Some (Inr rs, r')" by (auto simp: GetLogResources_def split: if_splits)
  have one: "rendered_by L (path @ ''-resource-attributes'')
      \<lparr>instance_id = i, instance_vars = vars, instance_start_time = s\<rparr> a"
    if "RenderLogResource L path i s vars r1 = Some (Inr a, r2)" for i s a r1 r2
  proof -
    from that obtain rest where "RenderLogsTemplate L (path @ ''-resource-attributes'')
        \<lparr>instance_id = i, instance_vars = vars, instance_start_time = s\<rparr> r1 = (Inr (a # rest), r2)"
      by (auto simp: RenderLogResource_def split: prod.splits sum.splits list.splits)
    from render_exts_Inr [OF this [unfolded RenderLogsTemplate_def]] show ?thesis
      unfolding rendered_by_def by blast
  qed
  show ?thesis using render_instances_Inr [OF run] n one by fastforce
qed

text \<open>Witness: a library with one YAML file, whose text is the number of the instance.\<close>

definition sample_tmpl_lib :: "(unit, string) tmpl_lib" where
  "sample_tmpl_lib =
     \<lparr>parse_fn = (\<lambda>e p. if has_suffix p ''.yaml'' then Some () else None),
      execute_fn = (\<lambda>t p m r. (Some (itoa (instance_id m)), r)), yaml_fn = Some, json_fn = Some,
      unmarshal_fn = (\<lambda>s. Some [[(''k8s.pod.name'', PStr s)]]), uuid_fn = (\<lambda>r. ([], r))\<rparr>"

lemma sample_resources:
  "GetLogResources sample_lib sample_tmpl_lib ''nginx'' zero_time 2 [] (new_rng []) =
     Some (Inr [[(''k8s.pod.name'', PStr ''0'')], [(''k8s.pod.name'', PStr ''1'')]], new_rng [])"
  by (simp add: GetLogResources_def RenderLogResource_def RenderLogsTemplate_def template_exts_def sample_tmpl_lib_def
      has_prefix_def has_suffix_def decode_template_def numeral_2_eq_2 fmt_int_def fmt_nat.simps)

lemma resources_rendered_witness:
  "rendered_by sample_tmpl_lib ''nginx-resource-attributes''
    \<lparr>instance_id = 0, instance_vars = [], instance_start_time = fmt_time_fn sample_lib ''2006-01-02T15:04:05Z07:00'' zero_time\<rparr>
    [(''k8s.pod.name'', PStr ''0'')] \<and>
   rendered_by sample_tmpl_lib ''nginx-resource-attributes''
    \<lparr>instance_id = 1, instance_vars = [], instance_start_time = fmt_time_fn sample_lib ''2006-01-02T15:04:05Z07:00'' zero_time\<rparr>
    [(''k8s.pod.name'', PStr ''1'')]"
  using resources_rendered [OF sample_resources] by (simp add: numeral_2_eq_2 All_less_Suc)

subsection \<open>Functions of a template\<close>

lemma random_hex_digits:
  "0 \<le> n \<Longrightarrow> \<exists>s r'. RandomHex n r = Some (s, r') \<and> length s = 2 * nat (n div 2) \<and> set s \<subseteq> hex_digits"
  using hex_encode_digits by (auto simp: RandomHex_def split_beta Let_def read_go_length)

text \<open>The run that is abbreviated consists of zeros, and no run is longer.\<close>

lemma zero_run_steps:
  fixes gs :: "nat list"
  defines "l \<equiv> \<lambda>i. length (takeWhile (\<lambda>g. g = 0) (drop i gs))"
  assumes "n \<le> length gs"
    and "fold (\<lambda>i (from, to). if 2 \<le> l i \<and> to - from < l i then (i, i + l i) else (from, to)) [0..<n] (length gs, length gs) = (a, b)"
  shows "(a = b \<or> a < n \<and> b = a + l a \<and> 2 \<le> l a) \<and> a \<le> b \<and> (\<forall>i < n. 2 \<le> l i \<longrightarrow> l i \<le> b - a)"
  using assms(2,3)
proof (induction n arbitrary: a b)
  case (Suc n)
  obtain c d where cd: "fold (\<lambda>i (from, to). if 2 \<le> l i \<and> to - from < l i then (i, i + l i) else (from, to)) [0..<n]
      (length gs, length gs) = (c, d)" by (meson surj_pair)
  have "(c = d \<or> c < n \<and> d = c + l c \<and> 2 \<le> l c) \<and> c \<le> d \<and> (\<forall>i < n. 2 \<le> l i \<longrightarrow> l i \<le> d - c)"
    using Suc.IH [OF _ cd] Suc.prems(1) by simp
  moreover have "(a, b) = (if 2 \<le> l n \<and> d - c < l n then (n, n + l n) else (c, d))"
    using Suc.prems(2) cd by simp
  ultimately show ?case by (auto simp: less_Suc_eq split: if_splits)
qed simp

lemma zero_run_longest:
  assumes "zero_run gs = (a, b)"
  shows "(\<forall>i. a \<le> i \<and> i < b \<longrightarrow> gs ! i = 0) \<and>
    (\<forall>i < length gs. 2 \<le> length (takeWhile (\<lambda>g. g = 0) (drop i gs)) \<longrightarrow> length (takeWhile (\<lambda>g. g = 0) (drop i gs)) \<le> b - a)"
proof -
  note st = zero_run_steps [OF order_refl, of gs a b] assms [unfolded zero_run_def Let_def]
  have "gs ! i = 0" if "a \<le> i" "i < a + length (takeWhile (\<lambda>g. g = 0) (drop a gs))" for i
  proof -
    have k: "i - a < length (takeWhile (\<lambda>g. g = 0) (drop a gs))" using that by simp
    then have "takeWhile (\<lambda>g. g = 0) (drop a gs) ! (i - a) = drop a gs ! (i - a)" by (rule takeWhile_nth)
    moreover have "takeWhile (\<lambda>g. g = 0) (drop a gs) ! (i - a) = 0" using nth_mem [OF k] set_takeWhileD by metis
    moreover have "a < length gs" using k by (cases "a < length gs") simp_all
    ultimately show ?thesis using that by simp
  qed
  then show ?thesis using st by auto
qed

lemma mod_from_round_robin:
  assumes "0 \<le> i" and "s \<noteq> []" shows "ModFrom i s = Some (s ! nat (i mod int (length s)))"
  using assms by (auto simp: ModFrom_def Mod_def nth_go_def)

end
