(* ===== verification/Records.thy ===== *)
theory Records
  imports LogStats Volume LogGen
begin

text \<open>
  The records of one instance in one interval (\<open>receiver.go\<close>): timestamps with jitter, the
  conversion of generated attributes to the collector's values, the replacement of a record by
  a needle, and \<open>appendInstanceLogs\<close>. What a call does to the state it shares with other
  goroutines (a call of \<open>Record\<close> on a shard, an increment of a needle's counter, a batch
  handed to the consumer, an access to the interval's record count) is an \<open>event\<close>; a call's events are listed in the order it does them.
\<close>

subsection \<open>Records and batches\<close>

text \<open>\<open>plog.LogRecord\<close>, the fields the receiver sets; identifiers are zero until set.\<close>

record log_record =
  lr_time :: "64 word"
  lr_severity :: severity
  lr_sev_text :: string
  lr_body :: string
  lr_attrs :: attrs
  lr_trace_id :: "8 word list"
  lr_span_id :: "8 word list"

record resource_logs =
  rl_resource :: attrs
  rl_scope :: string
  rl_records :: "log_record list"

type_synonym batch = "resource_logs list"

definition LogRecordCount :: "batch \<Rightarrow> nat" where
  "LogRecordCount b = (\<Sum>rl\<leftarrow>b. length (rl_records rl))"

text \<open>
  The last three constructors are accesses to the record count of \<open>produceLogs\<close>: the atomic
  addition of a worker, and the load and the store of the caller's \<open>totalLogs += n\<close>.
\<close>

datatype event =
    Stat int log_entry | NeedleHit string | Consume batch
  | TotalAdd "64 word" | TotalLoad | TotalStore "64 word"

subsection \<open>Timestamps and texts\<close>

definition addJitter :: "golib \<Rightarrow> gotime \<Rightarrow> int \<Rightarrow> int \<Rightarrow> rng \<Rightarrow> gotime \<times> rng" where
  "addJitter G t std_dev ival r =
     (if std_dev = 0 then (t, r)
      else let (z, r') = norm_fn G r;
               jitter = to_i64 (fabs (fmul z (of_i64 std_dev)));
               jitter' = (if ival \<le> jitter then w64 (ival - 1) else jitter)
           in (add_time t jitter', r'))"

definition severityText :: "severity \<Rightarrow> string" where
  "severityText s =
     (case s of SevTrace \<Rightarrow> ''TRACE'' | SevDebug \<Rightarrow> ''DEBUG'' | SevInfo \<Rightarrow> ''INFO'' | SevWarn \<Rightarrow> ''WARN''
      | SevError \<Rightarrow> ''ERROR'' | SevFatal \<Rightarrow> ''FATAL'' | SevNumber _ \<Rightarrow> ''INFO'')"

fun anyToString :: "golib \<Rightarrow> any \<Rightarrow> string" where
  "anyToString G (AInt n) = itoa n"
| "anyToString G (AInt64 n) = itoa n"
| "anyToString G (AFloat x) = fmt_f_fn G x"
| "anyToString G (ABool b) = bool_text b"
| "anyToString G (AStr s) = s"
| "anyToString G v = sprint G v"

subsection \<open>Attributes\<close>

fun elem_value :: "golib \<Rightarrow> any \<Rightarrow> pval" where
  "elem_value G (AInt n) = PInt n"
| "elem_value G (AInt64 n) = PInt n"
| "elem_value G (AFloat x) = PDouble x"
| "elem_value G (AStr s) = PStr s"
| "elem_value G (ABool b) = PBool b"
| "elem_value G v = PStr (anyToString G v)"

text \<open>The type switch on an attribute's value; \<open>nil\<close> sets nothing.\<close>

fun attr_value :: "golib \<Rightarrow> any \<Rightarrow> pval option" where
  "attr_value G ANil = None"
| "attr_value G (AInt n) = Some (PInt n)"
| "attr_value G (AInt64 n) = Some (PInt n)"
| "attr_value G (AFloat x) = Some (PDouble x)"
| "attr_value G (AStr s) = Some (PStr s)"
| "attr_value G (ABool b) = Some (PBool b)"
| "attr_value G (ASlice vs) = Some (PSlice (map (elem_value G) vs))"
| "attr_value G v = Some (PStr (anyToString G v))"

definition put_attrs :: "golib \<Rightarrow> gen_attrs \<Rightarrow> attrs \<Rightarrow> attrs" where
  "put_attrs G kvs as = fold (\<lambda>(k, v) as. case attr_value G v of None \<Rightarrow> as | Some p \<Rightarrow> put_go k p as) kvs as"

subsection \<open>Needles\<close>

definition put_needle :: "golib \<Rightarrow> needle_cfg \<Rightarrow> log_record \<Rightarrow> log_record" where
  "put_needle G n lr =
     (let sev = ParseSeverity G (needle_severity n)
      in lr\<lparr>lr_body := needle_message n, lr_severity := sev, lr_sev_text := severityText sev,
            lr_attrs := fold (\<lambda>(k, v). put_go k (PStr v)) (needle_attributes n)
                          (put_go ''needle.name'' (PStr (needle_name n)) (lr_attrs lr))\<rparr>)"

text \<open>Every needle draws a number; the first one below its rate replaces the record.\<close>

fun try_needles :: "golib \<Rightarrow> needle_cfg list \<Rightarrow> bool \<Rightarrow> log_record \<Rightarrow> rng \<Rightarrow> log_record \<times> event list \<times> rng" where
  "try_needles G [] replaced lr r = (lr, [], r)"
| "try_needles G (n # ns) replaced lr r =
     (let (roll, r1) = float64_go r
      in if \<not> replaced \<and> flt roll (needle_rate n) then
           (let (lr', evs, r2) = try_needles G ns True (put_needle G n lr) r1
            in (lr', NeedleHit (needle_name n) # evs, r2))
         else try_needles G ns replaced lr r1)"

subsection \<open>The records of an instance\<close>

text \<open>The buffers that calls share: the attribute map, the operands and the body.\<close>

type_synonym buffers = "gen_attrs \<times> any list \<times> string"

record instance_ctx =
  ic_cfg :: config
  ic_time :: gotime
  ic_scenario :: scenario_cfg
  ic_prepared :: prepared_profile
  ic_resource :: attrs
  ic_shard :: int

definition set_trace_ids :: "instance_ctx \<Rightarrow> log_record \<Rightarrow> rng \<Rightarrow> log_record \<times> rng" where
  "set_trace_ids c lr r =
     (if emit_trace_context (ic_scenario c) \<and> HasTraceContext (ic_prepared c)
      then let (tid, r1) = read_go 16 r; (sid, r2) = read_go 8 r1
           in (lr\<lparr>lr_trace_id := tid, lr_span_id := sid\<rparr>, r2)
      else (lr, r))"

text \<open>The needles, the call of \<open>Record\<close> and the identifiers, after the attributes are set.\<close>

definition finish_record :: "golib \<Rightarrow> instance_ctx \<Rightarrow> log_record \<Rightarrow> rng \<Rightarrow> log_record \<times> event list \<times> rng" where
  "finish_record G c lr r =
     (let (lr1, hits, r1) = try_needles G (needles (ic_scenario c)) False lr r;
          stat = Stat (ic_shard c) \<lparr>sev_text = lr_sev_text lr1, res_attrs = ic_resource c, rec_attrs = lr_attrs lr1\<rparr>;
          (lr2, r2) = set_trace_ids c lr1 r1
      in (lr2, hits @ [stat], r2))"

definition one_record :: "golib \<Rightarrow> instance_ctx \<Rightarrow> buffers \<Rightarrow> rng \<Rightarrow> (log_record \<times> event list \<times> buffers \<times> rng) option" where
  "one_record G c bufs r =
     (let (ts, r1) = addJitter G (ic_time c) (interval_jitter_std_dev (ic_cfg c)) (interval (ic_cfg c)) r;
          (attrs_buf, args_buf, body_buf) = bufs
      in do { (body, sev, attrs_buf', args_buf', body_buf', r2) \<leftarrow>
                GenerateFromPreparedInto G (ic_prepared c) ts attrs_buf args_buf body_buf r1;
              let lr = \<lparr>lr_time = word_of_int (unix_nano ts), lr_severity = sev, lr_sev_text = severityText sev,
                        lr_body = body, lr_attrs = put_attrs G attrs_buf' [],
                        lr_trace_id = replicate 16 0, lr_span_id = replicate 8 0\<rparr>;
              let (lr', evs, r3) = finish_record G c lr r2;
              Some (lr', evs, (attrs_buf', args_buf', body_buf'), r3) })"

primrec n_records :: "golib \<Rightarrow> instance_ctx \<Rightarrow> nat \<Rightarrow> buffers \<Rightarrow> rng \<Rightarrow> (log_record list \<times> event list \<times> buffers \<times> rng) option" where
  "n_records G c 0 bufs r = Some ([], [], bufs, r)"
| "n_records G c (Suc n) bufs r =
     do { (lr, evs, bufs1, r1) \<leftarrow> one_record G c bufs r;
          (lrs, evs', bufs2, r2) \<leftarrow> n_records G c n bufs1 r1;
          Some (lr # lrs, evs @ evs', bufs2, r2) }"

text \<open>\<open>appendInstanceLogs\<close> adds one \<open>ResourceLogs\<close> to the batch; here it is the result.\<close>

definition appendInstanceLogs ::
    "golib \<Rightarrow> instance_ctx \<Rightarrow> int \<Rightarrow> buffers \<Rightarrow> rng \<Rightarrow> (resource_logs \<times> event list \<times> buffers \<times> rng) option" where
  "appendInstanceLogs G c logs bufs r =
     do { (lrs, evs, bufs', r') \<leftarrow> n_records G c (nat logs) bufs r;
          Some (\<lparr>rl_resource = ic_resource c, rl_scope = GetScopeName (ic_prepared c), rl_records = lrs\<rparr>, evs, bufs', r') }"

subsection \<open>Timestamps stay in their interval\<close>

text \<open>
  Whether the jitter drawn in a state fits an \<open>int64\<close>. Go leaves open what the conversion
  gives when it does not; on amd64 that is the least \<open>int64\<close>.
\<close>

definition jitter_fits :: "golib \<Rightarrow> int \<Rightarrow> rng \<Rightarrow> bool" where
  "jitter_fits G sd r \<longleftrightarrow> (\<exists>x. fabs (fmul (fst (norm_fn G r)) (of_i64 sd)) = Fin x \<and> x < 2 ^ 63)"

lemma to_i64_abs:
  "if \<exists>x. fabs a = Fin x \<and> x < 2 ^ 63 then 0 \<le> to_i64 (fabs a) else to_i64 (fabs a) = - (2 ^ 63)"
proof (cases a)
  case (Fin x)
  have n: "0 \<le> \<lfloor>\<bar>x\<bar>\<rfloor>" by simp
  have lt: "\<lfloor>\<bar>x\<bar>\<rfloor> < 2 ^ 63 \<longleftrightarrow> \<bar>x\<bar> < 2 ^ 63" using floor_less_iff [of "\<bar>x\<bar>" "2 ^ 63"] by simp
  have "to_i64 (fabs a) = (if \<bar>x\<bar> < 2 ^ 63 then \<lfloor>\<bar>x\<bar>\<rfloor> else - (2 ^ 63))"
    using n unfolding lt [symmetric] by (auto simp: Fin trunc_rat_def Let_def)
  then show ?thesis using n by (auto simp: Fin)
qed simp_all

lemma jitter_exact:
  assumes "0 < ival" "i64 ival"
  shows "\<exists>d. fst (addJitter G t sd ival r) = add_time t d \<and>
    (if sd = 0 \<or> jitter_fits G sd r then 0 \<le> d \<and> d < ival else d = - (2 ^ 63))"
proof (cases "sd = 0")
  case True
  with assms show ?thesis by (intro exI [of _ 0]) (simp add: addJitter_def add_time_def)
next
  case False
  let ?j = "to_i64 (fabs (fmul (fst (norm_fn G r)) (of_i64 sd)))"
  have j: "if jitter_fits G sd r then 0 \<le> ?j else ?j = - (2 ^ 63)"
    unfolding jitter_fits_def by (rule to_i64_abs)
  have w: "w64 (ival - 1) = ival - 1" using assms by (intro i64_w64) (simp add: i64_def)
  show ?thesis
    using False j w assms
    by (intro exI [of _ "if ival \<le> ?j then ival - 1 else ?j"]) (auto simp: addJitter_def Let_def split_beta split: if_splits)
qed

subsection \<open>Needles\<close>

text \<open>One number for each needle, in order.\<close>

primrec needle_rolls :: "needle_cfg list \<Rightarrow> rng \<Rightarrow> (needle_cfg \<times> f64) list \<times> rng" where
  "needle_rolls [] r = ([], r)"
| "needle_rolls (n # ns) r = (let (x, r1) = float64_go r; (rs, r2) = needle_rolls ns r1 in ((n, x) # rs, r2))"

definition needle_hit :: "needle_cfg list \<Rightarrow> rng \<Rightarrow> needle_cfg option" where
  "needle_hit ns r = map_option fst (find (\<lambda>(n, x). flt x (needle_rate n)) (fst (needle_rolls ns r)))"

lemma try_needles_replaced: "try_needles G ns True lr r = (lr, [], snd (needle_rolls ns r))"
  by (induction ns arbitrary: r) (simp_all add: split_beta Let_def)

lemma try_needles_eq:
  "try_needles G ns False lr r =
     (case needle_hit ns r of None \<Rightarrow> (lr, [], snd (needle_rolls ns r))
      | Some n \<Rightarrow> (put_needle G n lr, [NeedleHit (needle_name n)], snd (needle_rolls ns r)))"
proof (induction ns arbitrary: r)
  case (Cons n ns)
  obtain x r1 where x: "float64_go r = (x, r1)" by fastforce
  show ?case
  proof (cases "flt x (needle_rate n)")
    case True
    then show ?thesis by (simp add: x try_needles_replaced needle_hit_def split_beta Let_def)
  next
    case False
    then have "needle_hit (n # ns) r = needle_hit ns r1" by (simp add: needle_hit_def x split_beta Let_def)
    moreover have "snd (needle_rolls (n # ns) r) = snd (needle_rolls ns r1)" by (simp add: x split_beta Let_def)
    ultimately show ?thesis using False Cons.IH [of r1] by (simp only:) (simp add: x Let_def)
  qed
qed (simp add: needle_hit_def)

lemma needle_hit_in: "needle_hit ns r = Some n \<Longrightarrow> n \<in> set ns"
  by (induction ns arbitrary: r) (auto simp: needle_hit_def split_beta Let_def split: if_splits)

lemma needle_rolls_range: "(n, x) \<in> set (fst (needle_rolls ns r)) \<Longrightarrow> \<exists>q. x = Fin q \<and> 0 \<le> q \<and> q < 1"
proof (induction ns arbitrary: r)
  case (Cons m ns)
  then show ?case using float64_range' [of r] by (auto simp: split_beta Let_def)
qed simp

lemma put_needle_attrs:
  "''needle.name'' \<notin> fst ` set (needle_attributes n) \<Longrightarrow>
   map_of (lr_attrs (put_needle G n lr)) ''needle.name'' = Some (PStr (needle_name n))"
proof -
  have "k \<notin> fst ` set kvs \<Longrightarrow> map_of (fold (\<lambda>(k, v). put_go k (PStr v)) kvs m) k = map_of m k" for kvs k and m :: attrs
    by (induction kvs arbitrary: m) (auto simp: map_of_put_go)
  then show "''needle.name'' \<notin> fst ` set (needle_attributes n) \<Longrightarrow> ?thesis"
    by (simp add: put_needle_def Let_def)
qed

text \<open>
  C13. The needles of a record: each draws one number, in the configured order, and the first
  whose number is below its rate replaces the record and is counted once; when there is none
  the record is left alone. A needle with rate 0 never replaces a record, and where a
  needle has rate 1 some needle always does.
\<close>

theorem needle_first_hit:
  "try_needles G ns False lr r =
     (case needle_hit ns r of None \<Rightarrow> (lr, [], snd (needle_rolls ns r))
      | Some n \<Rightarrow> (put_needle G n lr, [NeedleHit (needle_name n)], snd (needle_rolls ns r))) \<and>
   (\<forall>n. needle_hit ns r = Some n \<longrightarrow> n \<in> set ns \<and> needle_rate n \<noteq> Fin 0) \<and>
   ((\<exists>n \<in> set ns. needle_rate n = Fin 1) \<longrightarrow> needle_hit ns r \<noteq> None)"
proof (intro conjI allI impI)
  fix n assume h: "needle_hit ns r = Some n"
  show "n \<in> set ns" using h by (rule needle_hit_in)
  from h obtain x where "(n, x) \<in> set (fst (needle_rolls ns r))" and "flt x (needle_rate n)"
    by (auto simp: needle_hit_def find_Some_iff) (metis nth_mem)
  then show "needle_rate n \<noteq> Fin 0" using needle_rolls_range [of n x ns r] by auto
next
  assume "\<exists>n \<in> set ns. needle_rate n = Fin 1"
  moreover have "fst ` set (fst (needle_rolls ns r)) = set ns"
    by (induction ns arbitrary: r) (simp_all add: split_beta Let_def)
  ultimately obtain n x where "(n, x) \<in> set (fst (needle_rolls ns r))" "needle_rate n = Fin 1" by force
  moreover from this have "flt x (needle_rate n)" using needle_rolls_range [of n x ns r] by auto
  ultimately show "needle_hit ns r \<noteq> None"
    by (auto simp: needle_hit_def find_None_iff intro!: exI [of _ n] exI [of _ x])
qed (rule try_needles_eq)

lemma needle_first_hit_witness:
  "needle_hit [\<lparr>needle_name = ''a'', needle_message = ''m'', needle_rate = Fin 1, needle_severity = ''INFO'', needle_attributes = []\<rparr>]
     (new_rng [5]) \<noteq> None"
  using needle_first_hit [of sample_lib "[\<lparr>needle_name = ''a'', needle_message = ''m'', needle_rate = Fin 1,
    needle_severity = ''INFO'', needle_attributes = []\<rparr>]" _ "new_rng [5]"] by simp

text \<open>
  A severity with spaces passes the validation of a needle, which trims it, and is recorded as
  ERROR, because \<open>ParseSeverity\<close> does not.
\<close>

lemma padded_needle_severity:
  "validate_needles G [\<lparr>needle_name = ''n'', needle_message = ''m'', needle_rate = Fin 1, needle_severity = '' INFO '',
     needle_attributes = []\<rparr>] = None \<and> ParseSeverity G '' INFO '' = SevError"
  by (simp add: to_upper_def trim_space_def ascii_def ParseSeverity_def severity_names_def Let_def trim_ascii_def
      upper_char_def space_char_def)

subsection \<open>A batch and its events\<close>

text \<open>What recording a delivered record hands to the statistics.\<close>

definition entry_of :: "attrs \<Rightarrow> log_record \<Rightarrow> log_entry" where
  "entry_of res lr = \<lparr>sev_text = lr_sev_text lr, res_attrs = res, rec_attrs = lr_attrs lr\<rparr>"

fun stats_of :: "event list \<Rightarrow> (int \<times> log_entry) list" where
  "stats_of [] = []"
| "stats_of (Stat i e # evs) = (i, e) # stats_of evs"
| "stats_of (ev # evs) = stats_of evs"

fun hits_of :: "event list \<Rightarrow> string list" where
  "hits_of [] = []"
| "hits_of (NeedleHit n # evs) = n # hits_of evs"
| "hits_of (ev # evs) = hits_of evs"

fun batches_of :: "event list \<Rightarrow> batch list" where
  "batches_of [] = []"
| "batches_of (Consume b # evs) = b # batches_of evs"
| "batches_of (ev # evs) = batches_of evs"

lemma events_append [simp]:
  "stats_of (xs @ ys) = stats_of xs @ stats_of ys"
  "hits_of (xs @ ys) = hits_of xs @ hits_of ys"
  "batches_of (xs @ ys) = batches_of xs @ batches_of ys"
  by (induction xs rule: stats_of.induct) simp_all

text \<open>The events of records, and how the records of an instance mirror them.\<close>

fun record_event :: "event \<Rightarrow> bool" where
  "record_event (Stat i e) = True"
| "record_event (NeedleHit n) = True"
| "record_event ev = False"

lemma record_events_batches [simp]: "list_all record_event evs \<Longrightarrow> batches_of evs = []"
  by (induction evs rule: batches_of.induct) simp_all

definition records_match :: "instance_ctx \<Rightarrow> log_record list \<Rightarrow> event list \<Rightarrow> bool" where
  "records_match c lrs evs \<longleftrightarrow> stats_of evs = map (\<lambda>lr. (ic_shard c, entry_of (ic_resource c) lr)) lrs \<and>
     list_all record_event evs \<and> set (hits_of evs) \<subseteq> needle_name ` set (needles (ic_scenario c)) \<and>
     length (hits_of evs) \<le> length lrs \<and> (\<forall>lr \<in> set lrs. lr_sev_text lr = severityText (lr_severity lr))"

lemma records_match_append:
  "records_match c lrs evs \<Longrightarrow> records_match c lrs' evs' \<Longrightarrow> records_match c (lrs @ lrs') (evs @ evs')"
  by (auto simp: records_match_def)

lemma set_trace_ids_frame [simp]:
  "lr_sev_text (fst (set_trace_ids c lr r)) = lr_sev_text lr" "lr_attrs (fst (set_trace_ids c lr r)) = lr_attrs lr"
  "lr_severity (fst (set_trace_ids c lr r)) = lr_severity lr"
  by (simp_all add: set_trace_ids_def split_beta Let_def)

lemma finish_record_match:
  assumes "finish_record G c lr r = (lr', evs, r')" and "lr_sev_text lr = severityText (lr_severity lr)"
  shows "records_match c [lr'] evs"
  using assms needle_hit_in [of "needles (ic_scenario c)" r]
  by (cases "needle_hit (needles (ic_scenario c)) r")
    (auto simp: finish_record_def try_needles_eq records_match_def entry_of_def put_needle_def split_beta Let_def)

lemma one_record_match: "one_record G c bufs r = Some (lr, evs, bufs', r') \<Longrightarrow> records_match c [lr] evs"
  by (auto simp: one_record_def Let_def split: bind_splits prod.splits intro!: finish_record_match)

lemma n_records_match:
  "n_records G c n bufs r = Some (lrs, evs, bufs', r') \<Longrightarrow> records_match c lrs evs \<and> length lrs = n"
proof (induction n arbitrary: bufs r lrs evs)
  case (Suc n)
  then obtain lr e1 b1 r1 lrs' e2 where "one_record G c bufs r = Some (lr, e1, b1, r1)"
    "n_records G c n b1 r1 = Some (lrs', e2, bufs', r')" "lrs = lr # lrs'" "evs = e1 @ e2"
    by (auto split: bind_splits)
  with Suc.IH records_match_append [OF one_record_match, of G c bufs r lr e1 b1 r1 lrs' e2] show ?case by auto
qed (auto simp: records_match_def)

subsection \<open>Records never fail\<close>

lemma one_record_yields:
  assumes "prepared_ok (ic_prepared c)" and "app_messages (pp_profile (ic_prepared c)) \<noteq> []"
  shows "yields (one_record G c bufs r) (\<lambda>_. True)"
  using generate_yields [OF assms]
  by (auto simp: one_record_def split_beta Let_def intro!: yields_mono [OF generate_yields [OF assms]])

lemma n_records_yields:
  assumes "prepared_ok (ic_prepared c)" and "app_messages (pp_profile (ic_prepared c)) \<noteq> []"
  shows "yields (n_records G c n bufs r) (\<lambda>_. True)"
proof (induction n arbitrary: bufs r)
  case (Suc n)
  then show ?case by (auto simp: split_beta intro!: yields_mono [OF one_record_yields [OF assms]] yields_mono [OF Suc.IH])
qed simp

subsection \<open>The batch of an instance\<close>

definition stamped :: "golib \<Rightarrow> instance_ctx \<Rightarrow> log_record \<Rightarrow> bool" where
  "stamped G c lr \<longleftrightarrow> (\<exists>r. lr_time lr =
     word_of_int (unix_nano (fst (addJitter G (ic_time c) (interval_jitter_std_dev (ic_cfg c)) (interval (ic_cfg c)) r))))"

lemma finish_record_time: "finish_record G c lr r = (lr', evs, r') \<Longrightarrow> lr_time lr' = lr_time lr"
  by (auto simp: finish_record_def try_needles_eq set_trace_ids_def put_needle_def split_beta Let_def
      split: option.splits if_splits)

lemma one_record_stamped: "one_record G c bufs r = Some (lr, evs, bufs', r') \<Longrightarrow> stamped G c lr"
  by (auto simp: one_record_def stamped_def Let_def split: bind_splits prod.splits dest!: finish_record_time)
    (metis fst_conv)

lemma n_records_stamped:
  "n_records G c n bufs r = Some (lrs, evs, bufs', r') \<Longrightarrow> \<forall>lr \<in> set lrs. stamped G c lr"
  by (induction n arbitrary: bufs r lrs evs) (fastforce split: bind_splits dest: one_record_stamped)+

text \<open>
  The time of a record: the interval's instant and an offset within the interval, unless the
  jitter does not fit an \<open>int64\<close>.
\<close>

definition jittered :: "golib \<Rightarrow> instance_ctx \<Rightarrow> log_record \<Rightarrow> bool" where
  "jittered G c lr \<longleftrightarrow> (\<exists>d r. lr_time lr = word_of_int (unix_nano (add_time (ic_time c) d)) \<and>
     (if interval_jitter_std_dev (ic_cfg c) = 0 \<or> jitter_fits G (interval_jitter_std_dev (ic_cfg c)) r
      then 0 \<le> d \<and> d < interval (ic_cfg c) else d = - (2 ^ 63)))"

lemma stamped_jittered:
  "stamped G c lr \<Longrightarrow> 0 < interval (ic_cfg c) \<Longrightarrow> i64 (interval (ic_cfg c)) \<Longrightarrow> jittered G c lr"
  unfolding stamped_def jittered_def by (metis jitter_exact)

lemma append_yields:
  assumes "prepared_ok (ic_prepared c)" and "app_messages (pp_profile (ic_prepared c)) \<noteq> []"
  shows "yields (appendInstanceLogs G c logs bufs r) (\<lambda>(rl, evs, _). rl_resource rl = ic_resource c \<and>
    length (rl_records rl) = nat logs \<and> records_match c (rl_records rl) evs \<and> (\<forall>lr \<in> set (rl_records rl). stamped G c lr))"
proof -
  obtain lrs evs bufs' r' where "n_records G c (nat logs) bufs r = Some (lrs, evs, bufs', r')"
    using n_records_yields [OF assms, of G "nat logs" bufs r] by (auto simp: yields_ex)
  with n_records_match [OF this] n_records_stamped [OF this] show ?thesis by (simp add: appendInstanceLogs_def)
qed

text \<open>
  C12. The batch of an instance has exactly the requested number of records under the
  instance's resource. Each record has the text of its severity number, and a time that is the
  interval's instant plus a jitter of at least nothing and less than the interval; the one
  exception is a draw of \<open>NormFloat64\<close> whose product with the deviation does not fit an \<open>int64\<close>: then the
  offset is -2^63 ns, some 292 years back. The statistics see these records and no others,
  each once, on the caller's shard, with the attributes that are sent; and no more needles are
  counted than there are records.
\<close>

theorem instance_records:
  assumes "prepared_ok (ic_prepared c)" and "app_messages (pp_profile (ic_prepared c)) \<noteq> []"
    and "0 < interval (ic_cfg c)" "i64 (interval (ic_cfg c))"
  shows "\<exists>rl evs bufs' r'. appendInstanceLogs G c logs bufs r = Some (rl, evs, bufs', r') \<and>
    rl_resource rl = ic_resource c \<and> length (rl_records rl) = nat logs \<and>
    stats_of evs = map (\<lambda>lr. (ic_shard c, entry_of (rl_resource rl) lr)) (rl_records rl) \<and>
    length (hits_of evs) \<le> nat logs \<and>
    (\<forall>lr \<in> set (rl_records rl). lr_sev_text lr = severityText (lr_severity lr) \<and> jittered G c lr)"
  using append_yields [OF assms(1,2), of G logs bufs r] stamped_jittered [OF _ assms(3,4)]
  by (auto simp: yields_ex records_match_def)

definition sample_ctx :: instance_ctx where
  "sample_ctx =
     \<lparr>ic_cfg = create_default_config\<lparr>interval := second_ns\<rparr>, ic_time = zero_time, ic_scenario = sample_scenario,
      ic_prepared = PrepareProfile sample_profile, ic_resource = [(''service.name'', PStr ''sample'')], ic_shard = 0\<rparr>"

lemma sample_prepared_ok: "prepared_ok (PrepareProfile sample_profile)"
  by (rule prepare_ok) (simp add: profile_ok_def sample_profile_def sample_template_def template_ok_def total_gen_def verb_chars_def)

text \<open>A deviation of 3 seconds where every draw is 1: the jitter is cut to one nanosecond below the interval.\<close>

lemma instance_records_witness:
  "\<exists>rl evs bufs' r' d. appendInstanceLogs (sample_lib\<lparr>norm_fn := \<lambda>r. (Fin 1, r)\<rparr>)
      (sample_ctx\<lparr>ic_cfg := create_default_config\<lparr>interval := second_ns, interval_jitter_std_dev := 3 * second_ns\<rparr>\<rparr>)
      2 ([], [], []) (new_rng [7]) = Some (rl, evs, bufs', r') \<and>
    length (rl_records rl) = 2 \<and> 0 \<le> d \<and> d < second_ns \<and>
    lr_time (rl_records rl ! 1) = word_of_int (unix_nano (add_time zero_time d))"
proof -
  let ?G = "sample_lib\<lparr>norm_fn := \<lambda>r. (Fin 1, r)\<rparr>"
  let ?c = "sample_ctx\<lparr>ic_cfg := create_default_config\<lparr>interval := second_ns, interval_jitter_std_dev := 3 * second_ns\<rparr>\<rparr>"
  have "of_i64 3000000000 = Fin 3000000000" by (simp add: of_i64_small)
  then have fits: "jitter_fits ?G (3 * second_ns) r" for r
    using rnd_int [of 3000000000] by (simp add: jitter_fits_def second_ns_def)
  obtain rl evs bufs' r' where run: "appendInstanceLogs ?G ?c 2 ([], [], []) (new_rng [7]) = Some (rl, evs, bufs', r')"
    and "length (rl_records rl) = 2" "\<forall>lr \<in> set (rl_records rl). jittered ?G ?c lr"
    using instance_records [of ?c ?G 2 "([], [], [])" "new_rng [7]"] sample_prepared_ok
    by (auto simp: sample_ctx_def second_ns_def i64_def sample_profile_def)
  then have "jittered ?G ?c (rl_records rl ! 1)" by simp
  then obtain d where "0 \<le> d" "d < second_ns" "lr_time (rl_records rl ! 1) = word_of_int (unix_nano (add_time zero_time d))"
    using fits by (auto simp: jittered_def sample_ctx_def)
  then show ?thesis using run \<open>length (rl_records rl) = 2\<close> by (cases bufs') blast
qed

end
