(* ===== verification/Interleave.thy ===== *)
theory Interleave
  imports Main "HOL-Library.Multiset"
begin

text \<open>
  Interleavings of sequences of events, for the goroutines of an interval. The interface between
  the events and a part of the shared state is the locale \<open>observer\<close>: events that do not touch
  the part leave it alone. Where one sequence has all the events that touch a part, every
  interleaving has the same effect on it; where the effects commute (\<open>commuting_observer\<close>) no
  such ownership is needed.
\<close>

inductive shuffle :: "'e list list \<Rightarrow> 'e list \<Rightarrow> bool" where
  finished: "\<forall>t \<in> set ts. t = [] \<Longrightarrow> shuffle ts []"
| step: "k < length ts \<Longrightarrow> ts ! k = e # es \<Longrightarrow> shuffle (ts[k := es]) tr \<Longrightarrow> shuffle ts (e # tr)"

inductive_cases shuffle_NilE: "shuffle ts []"
inductive_cases shuffle_ConsE: "shuffle ts (e # tr)"

lemma mset_concat_update:
  assumes "k < length ts" and "ts ! k = e # es"
  shows "mset (concat ts) = add_mset e (mset (concat (ts[k := es])))"
proof -
  have "mset (concat ts) = mset (ts ! k) + mset (concat (take k ts @ drop (Suc k) ts))"
    using id_take_nth_drop [OF assms(1)] by (metis append.assoc append_Cons append_Nil concat.simps(2) concat_append mset_append union_ac(1,3))
  then show ?thesis using assms by (simp add: upd_conv_take_nth_drop)
qed

lemma shuffle_mset: "shuffle ts tr \<Longrightarrow> mset tr = mset (concat ts)"
  by (induction rule: shuffle.induct) (simp_all add: mset_concat_update)

text \<open>At most one of the sequences has events with a property.\<close>

definition owned :: "('e \<Rightarrow> bool) \<Rightarrow> 'e list list \<Rightarrow> bool" where
  "owned P ts \<longleftrightarrow> (\<forall>i < length ts. \<forall>j < length ts. i \<noteq> j \<longrightarrow> filter P (ts ! i) = [] \<or> filter P (ts ! j) = [])"

lemma filter_concat_owner:
  assumes "owned P ts" and "k < length ts" and "filter P (ts ! k) \<noteq> []"
  shows "filter P (concat ts) = filter P (ts ! k)"
proof -
  have "filter P (ts ! j) = []" if "j < length ts" "j \<noteq> k" for j
    using assms that unfolding owned_def by blast
  then have "\<forall>t \<in> set (take k ts) \<union> set (drop (Suc k) ts). filter P t = []"
    using assms(2) by (auto simp: in_set_conv_nth)
  moreover from this have "\<And>xs. set xs \<subseteq> set (take k ts) \<union> set (drop (Suc k) ts) \<Longrightarrow> filter P (concat xs) = []"
    by (auto simp: filter_concat)
  ultimately have "filter P (concat (take k ts)) = []" "filter P (concat (drop (Suc k) ts)) = []" by simp_all
  moreover have "concat ts = concat (take k ts) @ ts ! k @ concat (drop (Suc k) ts)"
    using id_take_nth_drop [OF assms(2)] by (metis concat.simps(2) concat_append)
  ultimately show ?thesis by (simp only: filter_append) simp
qed

lemma owned_step:
  assumes "owned P ts" and k: "k < length ts" "ts ! k = e # es"
  shows "owned P (ts[k := es])" "filter P (concat ts) = (if P e then [e] else []) @ filter P (concat (ts[k := es]))"
proof -
  have sub: "filter P (ts ! i) = [] \<Longrightarrow> filter P (ts[k := es] ! i) = []" for i
    using k by (cases "i = k") (auto split: if_splits)
  show o: "owned P (ts[k := es])"
    unfolding owned_def
  proof (intro allI impI)
    fix i j assume "i < length (ts[k := es])" "j < length (ts[k := es])" "i \<noteq> j"
    then show "filter P (ts[k := es] ! i) = [] \<or> filter P (ts[k := es] ! j) = []"
      using assms(1) sub [of i] sub [of j] unfolding owned_def by fastforce
  qed
  show "filter P (concat ts) = (if P e then [e] else []) @ filter P (concat (ts[k := es]))"
  proof (cases "filter P (ts ! k) = []")
    case True
    then have "map (filter P) (ts[k := es]) = map (filter P) ts"
      using k by (auto simp: map_update list_update_same_conv split: if_splits)
    then show ?thesis using True k by (auto simp: filter_concat split: if_splits)
  next
    case False
    have rest: "filter P (concat (ts[k := es])) = filter P es"
    proof (cases "filter P es = []")
      case True
      have "filter P (ts ! j) = []" if "j < length ts" "j \<noteq> k" for j
        using assms(1) k(1) False that unfolding owned_def by blast
      then have "\<forall>t \<in> set (ts[k := es]). filter P t = []"
        using True k(1) by (metis in_set_conv_nth length_list_update nth_list_update)
      with True show ?thesis by (simp add: filter_concat)
    next
      case F: False
      then show ?thesis using filter_concat_owner [OF o, of k] k by simp
    qed
    show ?thesis using filter_concat_owner [OF assms(1) k(1) False] k(2) rest by simp
  qed
qed

lemma shuffle_owned: "shuffle ts tr \<Longrightarrow> owned P ts \<Longrightarrow> filter P tr = filter P (concat ts)"
proof (induction rule: shuffle.induct)
  case (step k ts e es tr)
  show ?case using owned_step [OF step.prems step.hyps(1,2)] step.IH by simp
qed (auto simp: filter_concat)

subsection \<open>Parts of the shared state\<close>

locale observer =
  fixes effect :: "'e \<Rightarrow> 's \<Rightarrow> 's" and touches :: "'e \<Rightarrow> bool"
  assumes frame: "\<not> touches e \<Longrightarrow> effect e s = s"
begin

lemma fold_touching: "fold effect tr s = fold effect (filter touches tr) s"
  by (induction tr arbitrary: s) (simp_all add: frame)

lemma owned_deterministic:
  assumes "shuffle ts tr" and "owned touches ts"
  shows "fold effect tr s = fold effect (concat ts) s"
  using shuffle_owned [OF assms] fold_touching by metis

end

locale commuting_observer = observer +
  assumes commute: "effect e (effect f s) = effect f (effect e s)"
begin

lemma mset_deterministic:
  assumes "mset tr = mset tr'" shows "fold effect tr s = fold effect tr' s"
  using assms by (intro fold_multiset_equiv [THEN fun_cong]) (auto simp: commute)

lemma shuffle_deterministic: "shuffle ts tr \<Longrightarrow> fold effect tr s = fold effect (concat ts) s"
  by (rule mset_deterministic) (rule shuffle_mset)

end

end
