(* ===== verification/Receiver.thy ===== *)
theory Receiver
  imports Records Interleave
begin

text \<open>
  One interval of the receiver (\<open>produceLogs\<close> in \<open>receiver.go\<close>). The goroutine that calls
  it is a list of actions: events it does itself and workers it starts, each worker being the
  list of its events. A worker reads only its own generator, its own buffers and data that
  nobody writes, so its events are known when it is started; what depends on the schedule is
  the order in which the events of different goroutines reach the shards, the needles' counters
  and the consumer, the relation \<open>schedule\<close>.
\<close>

subsection \<open>Scenarios\<close>

record log_scenario =
  ls_config :: scenario_cfg
  ls_resources :: "attrs list"
  ls_prepared :: prepared_profile
  ls_volume :: volume_state
  ls_multipliers :: "f64 list option"

datatype action = Do event | Spawn "event list"

text \<open>The buffers of a fresh call: an empty map, \<open>MaxArgs\<close> operands, no body.\<close>

definition fresh_buffers :: "prepared_profile \<Rightarrow> buffers" where
  "fresh_buffers pp = ([], replicate (nat (MaxArgs pp)) ANil, [])"

definition getNewRand :: "golib \<Rightarrow> rng \<Rightarrow> rng \<times> rng" where
  "getNewRand G r = (let (v, r') = int63_go r in (new_rand G v, r'))"

subsection \<open>The instances of a scenario\<close>

text \<open>One iteration of the loop over instances: the instance's share, and its records if any.\<close>

definition log_instance ::
    "golib \<Rightarrow> config \<Rightarrow> gotime \<Rightarrow> log_scenario \<Rightarrow> int \<Rightarrow> int \<Rightarrow> int \<Rightarrow> buffers \<Rightarrow> rng \<Rightarrow>
      (batch \<times> event list \<times> buffers \<times> rng) option" where
  "log_instance G cfg t scn shard logs idx bufs r =
     do { n \<leftarrow> applyInstanceMultiplier logs (ls_multipliers scn) idx;
          if n \<le> 0 then Some ([], [], bufs, r)
          else do {
            res \<leftarrow> nth_go (ls_resources scn) idx;
            (rl, evs, bufs', r') \<leftarrow> appendInstanceLogs G
              \<lparr>ic_cfg = cfg, ic_time = t, ic_scenario = ls_config scn, ic_prepared = ls_prepared scn,
               ic_resource = res, ic_shard = shard\<rparr> n bufs r;
            Some ([rl], evs, bufs', r') } }"

fun log_instances ::
    "golib \<Rightarrow> config \<Rightarrow> gotime \<Rightarrow> log_scenario \<Rightarrow> int \<Rightarrow> int \<Rightarrow> int list \<Rightarrow> buffers \<Rightarrow> rng \<Rightarrow>
      (batch \<times> event list \<times> buffers \<times> rng) option" where
  "log_instances G cfg t scn shard logs [] bufs r = Some ([], [], bufs, r)"
| "log_instances G cfg t scn shard logs (idx # idxs) bufs r =
     do { (b, evs, bufs1, r1) \<leftarrow> log_instance G cfg t scn shard logs idx bufs r;
          (b', evs', bufs2, r2) \<leftarrow> log_instances G cfg t scn shard logs idxs bufs1 r1;
          Some (b @ b', evs @ evs', bufs2, r2) }"

text \<open>
  The calling goroutine logs every instance, adds the batch to the count and hands it to the
  consumer.
\<close>

definition log_inline ::
    "golib \<Rightarrow> config \<Rightarrow> gotime \<Rightarrow> log_scenario \<Rightarrow> int \<Rightarrow> rng \<Rightarrow> (event list \<times> rng) option" where
  "log_inline G cfg t scn logs r =
     do { (b, evs, _, r') \<leftarrow> log_instances G cfg t scn 0 logs [0..scale (ls_config scn) - 1]
            (fresh_buffers (ls_prepared scn)) r;
          Some (evs @ [TotalLoad, TotalStore (of_nat (LogRecordCount b)), Consume b], r') }"

text \<open>The instances of worker \<open>wi\<close>: \<open>j + wi*scale/concurrency\<close>, where it has a resource.\<close>

definition worker_indices :: "int \<Rightarrow> int \<Rightarrow> int \<Rightarrow> nat \<Rightarrow> int list" where
  "worker_indices scal conc wi nres =
     filter (\<lambda>idx. \<not> int nres \<le> idx) (map (\<lambda>j. j + div_go (w64 (wi * scal)) conc) [0..div_go scal conc - 1])"

definition log_worker ::
    "golib \<Rightarrow> config \<Rightarrow> gotime \<Rightarrow> log_scenario \<Rightarrow> int \<Rightarrow> int \<Rightarrow> int \<Rightarrow> rng \<Rightarrow> event list option" where
  "log_worker G cfg t scn shard wi logs r =
     do { (b, evs, _, _) \<leftarrow> log_instances G cfg t scn shard logs
            (worker_indices (scale (ls_config scn)) (concurrency (ls_config scn)) wi (length (ls_resources scn)))
            (fresh_buffers (ls_prepared scn)) r;
          Some (evs @ [TotalAdd (of_nat (LogRecordCount b)), Consume b]) }"

text \<open>The loop that starts the workers \<open>i, i + 1, ...\<close>, \<open>n\<close> of them.\<close>

primrec start_workers ::
    "golib \<Rightarrow> config \<Rightarrow> gotime \<Rightarrow> log_scenario \<Rightarrow> int \<Rightarrow> int \<Rightarrow> nat \<Rightarrow> int \<Rightarrow> rng \<Rightarrow> (event list list \<times> rng) option" where
  "start_workers G cfg t scn shard_base logs 0 i r = Some ([], r)"
| "start_workers G cfg t scn shard_base logs (Suc n) i r =
     (let (wr, r1) = getNewRand G r
      in do { w \<leftarrow> log_worker G cfg t scn (shard_base + i) i logs wr;
              (ws, r2) \<leftarrow> start_workers G cfg t scn shard_base logs n (i + 1) r1;
              Some (w # ws, r2) })"

subsection \<open>An interval\<close>

text \<open>
  One iteration over the scenarios: its actions, the scenario with its new volume state, the
  shard base for the next one, and the generator. A scenario without
  records is skipped before the shard base moves.
\<close>

definition produce_scenario ::
    "golib \<Rightarrow> config \<Rightarrow> gotime \<Rightarrow> log_scenario \<Rightarrow> int \<Rightarrow> rng \<Rightarrow>
      (action list \<times> log_scenario \<times> int \<times> rng) option" where
  "produce_scenario G cfg t scn shard_base r =
     (if logs_per_interval (ls_config scn) = 0 then Some ([], scn, shard_base, r)
      else do {
        dm \<leftarrow> diurnalMultiplier G t (diurnal_profile (ls_config scn));
        (vm, vs, r1) \<leftarrow> resolveVolumeMultiplier (volume_profile (ls_config scn)) (ls_volume scn) r;
        let scn' = scn\<lparr>ls_volume := vs\<rparr>;
        let logs = effective_logs (logs_per_interval (ls_config scn)) dm vm;
        if concurrency (ls_config scn) = 0 then do {
          (evs, r2) \<leftarrow> log_inline G cfg t scn' logs r1;
          Some (map Do evs, scn', shard_base, r2) }
        else do {
          (ws, r2) \<leftarrow> start_workers G cfg t scn' shard_base logs (nat (concurrency (ls_config scn))) 0 r1;
          Some (map Spawn ws, scn', shard_base + concurrency (ls_config scn), r2) } })"

fun produce_scenarios ::
    "golib \<Rightarrow> config \<Rightarrow> gotime \<Rightarrow> log_scenario list \<Rightarrow> int \<Rightarrow> rng \<Rightarrow>
      (action list \<times> log_scenario list \<times> rng) option" where
  "produce_scenarios G cfg t [] shard_base r = Some ([], [], r)"
| "produce_scenarios G cfg t (scn # scns) shard_base r =
     do { (as, scn', shard_base', r1) \<leftarrow> produce_scenario G cfg t scn shard_base r;
          (as', scns', r2) \<leftarrow> produce_scenarios G cfg t scns shard_base' r1;
          Some (as @ as', scn' # scns', r2) }"

definition produceLogs ::
    "golib \<Rightarrow> config \<Rightarrow> gotime \<Rightarrow> log_scenario list \<Rightarrow> rng \<Rightarrow> (action list \<times> log_scenario list \<times> rng) option" where
  "produceLogs G cfg t scns r = produce_scenarios G cfg t scns 1 r"

subsection \<open>Schedules\<close>

text \<open>
  The orders in which the events of an interval can happen: the calling goroutine goes through
  its actions, a started worker through its events, and the interval ends when all are done.
\<close>

inductive schedule :: "action list \<Rightarrow> event list list \<Rightarrow> event list \<Rightarrow> bool" where
  finish: "\<forall>w \<in> set ws. w = [] \<Longrightarrow> schedule [] ws []"
| caller: "schedule as ws tr \<Longrightarrow> schedule (Do e # as) ws (e # tr)"
| start: "schedule as (ws @ [evs]) tr \<Longrightarrow> schedule (Spawn evs # as) ws tr"
| worker: "k < length ws \<Longrightarrow> ws ! k = e # evs \<Longrightarrow> schedule as (ws[k := evs]) tr \<Longrightarrow> schedule as ws (e # tr)"

text \<open>
  The state that goroutines share, and what an event does to it. \<open>sh_loaded\<close> is the value that
  the caller has loaded and not yet stored back; \<open>sh_sent\<close> is what the consumer has received.
\<close>

record shared =
  sh_stats :: sharded
  sh_needles :: counts
  sh_total :: "64 word"
  sh_loaded :: "64 word"
  sh_sent :: "batch list"

definition count_needle :: "string \<Rightarrow> counts \<Rightarrow> counts" where
  "count_needle n occ = (case map_of occ n of None \<Rightarrow> occ | Some c \<Rightarrow> put_go n (c + 1) occ)"

fun apply_event :: "golib \<Rightarrow> event \<Rightarrow> shared \<Rightarrow> shared option" where
  "apply_event G (Stat i e) s = do { st \<leftarrow> record_at G i e (sh_stats s); Some (s\<lparr>sh_stats := st\<rparr>) }"
| "apply_event G (NeedleHit n) s = Some (s\<lparr>sh_needles := count_needle n (sh_needles s)\<rparr>)"
| "apply_event G (TotalAdd n) s = Some (s\<lparr>sh_total := sh_total s + n\<rparr>)"
| "apply_event G TotalLoad s = Some (s\<lparr>sh_loaded := sh_total s\<rparr>)"
| "apply_event G (TotalStore n) s = Some (s\<lparr>sh_total := sh_loaded s + n\<rparr>)"
| "apply_event G (Consume b) s = Some (s\<lparr>sh_sent := sh_sent s @ [b]\<rparr>)"

fun apply_events :: "golib \<Rightarrow> event list \<Rightarrow> shared \<Rightarrow> shared option" where
  "apply_events G [] s = Some s"
| "apply_events G (ev # evs) s = do { s' \<leftarrow> apply_event G ev s; apply_events G evs s' }"

subsection \<open>Scenarios that are ready\<close>

text \<open>
  What the constructor establishes for a scenario, and an interval keeps: a validated
  configuration, a resource and a share for every instance, and a profile that generates.
\<close>

definition scenario_ready :: "golib \<Rightarrow> log_scenario \<Rightarrow> bool" where
  "scenario_ready G scn \<longleftrightarrow>
     (let c = ls_config scn in
      0 \<le> scale c \<and> 0 \<le> concurrency c \<and> (0 < concurrency c \<longrightarrow> concurrency c dvd scale c) \<and>
      i64 (scale c * concurrency c) \<and> 0 \<le> logs_per_interval c \<and>
      int (length (ls_resources scn)) = scale c \<and> pred_option (\<lambda>ms. int (length ms) = scale c) (ls_multipliers scn) \<and>
      prepared_ok (ls_prepared scn) \<and> app_messages (pp_profile (ls_prepared scn)) \<noteq> [] \<and>
      pred_option roll_ok (volume_profile c) \<and>
      pred_option (\<lambda>dp. \<forall>cb \<in> set (cron_bursts dp). cron_interval cb \<noteq> 0) (diurnal_profile c))"

lemma cron_max_total: "\<forall>cb \<in> set cbs. cron_interval cb \<noteq> 0 \<Longrightarrow> yields (cron_max u cbs m) (\<lambda>_. True)"
  by (induction cbs arbitrary: m) (auto simp: cron_mod_def Let_def)

lemma diurnal_total: "scenario_ready G scn \<Longrightarrow> yields (diurnalMultiplier G t (diurnal_profile (ls_config scn))) (\<lambda>_. True)"
  by (auto simp: scenario_ready_def diurnalMultiplier_def Let_def split: option.splits intro!: cron_max_total)

lemma resolve_total: "pred_option roll_ok v \<Longrightarrow> yields (resolveVolumeMultiplier v vs r) (\<lambda>_. True)"
proof (cases v)
  case (Some vp)
  assume "pred_option roll_ok v"
  then have ok: "roll_ok vp" by (simp add: Some)
  show ?thesis
  proof (cases "0 < remaining_intervals vs")
    case True
    then show ?thesis by (simp add: Some resolveVolumeMultiplier_def)
  next
    case False
    then have "remaining_intervals vs \<le> 0" by simp
    from resolve_idle [OF ok this] show ?thesis unfolding Some by (rule yields_mono) simp
  qed
qed (simp add: resolveVolumeMultiplier_def)

subsection \<open>The plan of an interval\<close>

text \<open>
  The specification: for each instance its resource and its number of records. \<open>blocks\<close> reads
  the same off a batch.
\<close>

definition instance_plan :: "log_scenario \<Rightarrow> int \<Rightarrow> int list \<Rightarrow> (attrs \<times> int) list" where
  "instance_plan scn logs idxs =
     map (\<lambda>i. (ls_resources scn ! nat i, the (applyInstanceMultiplier logs (ls_multipliers scn) i))) idxs"

definition blocks :: "batch \<Rightarrow> (attrs \<times> int) list" where
  "blocks b = map (\<lambda>rl. (rl_resource rl, int (length (rl_records rl)))) b"

text \<open>The entries that the records of a batch amount to, and a batch with the events of its records.\<close>

definition batch_entries :: "batch \<Rightarrow> log_entry list" where
  "batch_entries b = concat (map (\<lambda>rl. map (entry_of (rl_resource rl)) (rl_records rl)) b)"

definition batch_match :: "int \<Rightarrow> batch \<Rightarrow> event list \<Rightarrow> bool" where
  "batch_match shard b evs \<longleftrightarrow> stats_of evs = map (Pair shard) (batch_entries b) \<and> list_all record_event evs"

lemma batch_match_append: "batch_match shard b evs \<Longrightarrow> batch_match shard b' evs' \<Longrightarrow> batch_match shard (b @ b') (evs @ evs')"
  by (simp add: batch_match_def batch_entries_def)

lemma blocks_append [simp]: "blocks (b @ b') = blocks b @ blocks b'" "blocks [] = []"
  by (simp_all add: blocks_def)

lemma batch_entries_length: "length (batch_entries b) = LogRecordCount b"
  by (induction b) (simp_all add: batch_entries_def LogRecordCount_def)

definition in_scale :: "log_scenario \<Rightarrow> int list \<Rightarrow> bool" where
  "in_scale scn idxs \<longleftrightarrow> (\<forall>i \<in> set idxs. 0 \<le> i \<and> i < scale (ls_config scn))"

lemma log_instance_yields:
  assumes ready: "scenario_ready G scn" and i: "in_scale scn [idx]" and logs: "0 < logs"
  shows "yields (log_instance G cfg t scn shard logs idx bufs r)
    (\<lambda>(b, evs, _). blocks b = instance_plan scn logs [idx] \<and> batch_match shard b evs)"
proof -
  have idx: "0 \<le> idx" "idx < scale (ls_config scn)" using i by (simp_all add: in_scale_def)
  have ms: "pred_option (\<lambda>ms. int (length ms) = scale (ls_config scn)) (ls_multipliers scn)"
    using ready by (simp add: scenario_ready_def Let_def)
  obtain n where n: "applyInstanceMultiplier logs (ls_multipliers scn) idx = Some n" "1 \<le> n"
    using apply_multiplier_yields [OF ms idx logs] by (auto simp: yields_ex)
  have res: "nth_go (ls_resources scn) idx = Some (ls_resources scn ! nat idx)"
    using ready idx by (simp add: nth_go_def scenario_ready_def Let_def)
  let ?c = "\<lparr>ic_cfg = cfg, ic_time = t, ic_scenario = ls_config scn, ic_prepared = ls_prepared scn,
    ic_resource = ls_resources scn ! nat idx, ic_shard = shard\<rparr>"
  have "prepared_ok (ic_prepared ?c)" "app_messages (pp_profile (ic_prepared ?c)) \<noteq> []"
    using ready by (simp_all add: scenario_ready_def Let_def)
  from append_yields [OF this, of G n bufs r] show ?thesis
    using n res
    by (auto simp: log_instance_def instance_plan_def blocks_def batch_match_def batch_entries_def records_match_def
        elim!: yields_mono)
qed

lemma log_instances_yields:
  assumes "scenario_ready G scn" and "in_scale scn idxs" and "0 < logs"
  shows "yields (log_instances G cfg t scn shard logs idxs bufs r)
    (\<lambda>(b, evs, _). blocks b = instance_plan scn logs idxs \<and> batch_match shard b evs)"
  using assms(2)
proof (induction idxs arbitrary: bufs r)
  case Nil
  then show ?case by (simp add: instance_plan_def batch_match_def batch_entries_def)
next
  case (Cons idx idxs)
  have i: "in_scale scn [idx]" and rest: "in_scale scn idxs" using Cons.prems by (simp_all add: in_scale_def)
  show ?case
    unfolding log_instances.simps yields_bind
    by (rule yields_mono [OF log_instance_yields [OF assms(1) i assms(3)]], clarsimp,
        rule yields_mono [OF Cons.IH [OF rest]])
      (auto simp: instance_plan_def intro: batch_match_append)
qed

subsection \<open>Workers and the calling goroutine\<close>

text \<open>A goroutine's events: those of its records, an update of the count, and the batch.\<close>

definition delivers :: "(64 word \<Rightarrow> event list) \<Rightarrow> int \<Rightarrow> (attrs \<times> int) list \<Rightarrow> event list \<Rightarrow> bool" where
  "delivers upd shard plan evs \<longleftrightarrow> (\<exists>b evs0. evs = evs0 @ upd (of_nat (LogRecordCount b)) @ [Consume b] \<and>
     blocks b = plan \<and> batch_match shard b evs0)"

abbreviation (input) atomic_add :: "64 word \<Rightarrow> event list" where
  "atomic_add n \<equiv> [TotalAdd n]"

abbreviation (input) load_store :: "64 word \<Rightarrow> event list" where
  "load_store n \<equiv> [TotalLoad, TotalStore n]"

lemma worker_indices_block:
  assumes "0 < c" and "c dvd n" and "0 \<le> n" and "0 \<le> i" "i < c" and "i64 (n * c)"
  shows "worker_indices n c i (nat n) = [i * (n div c)..i * (n div c) + n div c - 1]"
proof -
  obtain k where k: "n = c * k" using assms(2) by blast
  have k0: "0 \<le> k" using assms(1,3) by (auto simp: k zero_le_mult_iff)
  have "i * n \<le> n * c" using assms(3,5) mult_right_mono [of i c n] by (simp add: mult.commute)
  then have "w64 (i * n) = i * n" using assms(3,4,6) by (intro i64_w64) (auto simp: i64_def intro: order_trans [of _ 0])
  then have d: "div_go (w64 (i * n)) c = i * k" using assms k0 by (simp add: k mult.left_commute)
  have m: "map (\<lambda>j. j + i * k) [0..k - 1] = [i * k..i * k + k - 1]"
  proof -
    have "map (\<lambda>j. j + d) [a..b] = [a + d..b + d]" for a b d :: int
    proof (induction a b rule: upto.induct)
      case (1 a b)
      then show ?case by (simp add: upto.simps [of a b] upto.simps [of "a + d" "b + d"] algebra_simps)
    qed
    from this [of "i * k" 0 "k - 1"] show ?thesis by (simp add: algebra_simps)
  qed
  have "i * k + k = (i + 1) * k" by (simp add: algebra_simps)
  moreover have "(i + 1) * k \<le> c * k" using assms(5) k0 by (intro mult_right_mono) simp_all
  ultimately have "\<forall>x \<in> set [i * k..i * k + k - 1]. \<not> n \<le> x" by (auto simp: k)
  then have "filter (\<lambda>x. \<not> n \<le> x) [i * k..i * k + k - 1] = [i * k..i * k + k - 1]" by simp
  then show ?thesis using assms k0 d m by (simp add: worker_indices_def k)
qed

lemma concat_upto_blocks: "0 \<le> k \<Longrightarrow> concat (map (\<lambda>i. [int i * k..int i * k + k - 1]) [0..<n]) = [0..int n * k - 1]"
proof (induction n)
  case (Suc n)
  have "[0..int n * k - 1] @ [int n * k..int n * k + k - 1] = [0..int n * k + k - 1]"
    using Suc.prems upto_split1 [of 0 "int n * k" "int n * k + k - 1"] by (cases "k = 0") simp_all
  then show ?case using Suc by (simp add: algebra_simps)
qed simp

lemma worker_indices_cover:
  assumes "0 < c" and "c dvd n" and "0 \<le> n" and "i64 (n * c)"
  shows "concat (map (\<lambda>i. worker_indices n c (int i) (nat n)) [0..<nat c]) = [0..n - 1]"
proof -
  have "map (\<lambda>i. worker_indices n c (int i) (nat n)) [0..<nat c] =
      map (\<lambda>i. [int i * (n div c)..int i * (n div c) + n div c - 1]) [0..<nat c]"
    using assms by (intro map_cong) (auto intro!: worker_indices_block)
  then show ?thesis using assms by (simp only:) (simp add: concat_upto_blocks pos_imp_zdiv_nonneg_iff)
qed

lemma log_inline_yields:
  assumes "scenario_ready G scn" and "0 < logs"
  shows "yields (log_inline G cfg t scn logs r)
    (\<lambda>(evs, _). delivers load_store 0 (instance_plan scn logs [0..scale (ls_config scn) - 1]) evs)"
proof -
  have "in_scale scn [0..scale (ls_config scn) - 1]" by (simp add: in_scale_def)
  from log_instances_yields [OF assms(1) this assms(2)] show ?thesis
    by (auto simp: log_inline_def delivers_def intro: yields_mono)
qed

lemma log_worker_yields:
  assumes ready: "scenario_ready G scn" and "0 < logs" and i: "0 \<le> i" "i < concurrency (ls_config scn)"
  shows "yields (log_worker G cfg t scn shard i logs r) (delivers atomic_add shard (instance_plan scn logs
    (worker_indices (scale (ls_config scn)) (concurrency (ls_config scn)) i (length (ls_resources scn)))))"
proof -
  let ?n = "scale (ls_config scn)" and ?c = "concurrency (ls_config scn)"
  have n: "0 \<le> ?n" "?c dvd ?n" "i64 (?n * ?c)" and len: "int (length (ls_resources scn)) = ?n"
    using ready i by (auto simp: scenario_ready_def Let_def)
  from len have len': "length (ls_resources scn) = nat ?n" by linarith
  have "worker_indices ?n ?c i (nat ?n) = [i * (?n div ?c)..i * (?n div ?c) + ?n div ?c - 1]"
    using n i by (intro worker_indices_block) simp_all
  moreover have "0 \<le> i * (?n div ?c)" using n i by (simp add: pos_imp_zdiv_nonneg_iff)
  ultimately have "0 \<le> x" if "x \<in> set (worker_indices ?n ?c i (nat ?n))" for x using that by auto
  moreover have "x < ?n" if "x \<in> set (worker_indices ?n ?c i (nat ?n))" for x
    using that n by (auto simp: worker_indices_def)
  ultimately have "in_scale scn (worker_indices ?n ?c i (length (ls_resources scn)))"
    by (simp add: in_scale_def len')
  from log_instances_yields [OF ready this assms(2)] show ?thesis
    by (auto simp: log_worker_def delivers_def intro: yields_mono)
qed

lemma start_workers_yields:
  assumes "scenario_ready G scn" and "0 < logs"
  shows "0 \<le> i \<Longrightarrow> i + int n \<le> concurrency (ls_config scn) \<Longrightarrow>
    yields (start_workers G cfg t scn base logs n i r) (\<lambda>(ws, _). length ws = n \<and> (\<forall>k < n. delivers atomic_add (base + (i + int k))
      (instance_plan scn logs (worker_indices (scale (ls_config scn)) (concurrency (ls_config scn)) (i + int k) (length (ls_resources scn))))
      (ws ! k)))"
proof (induction n arbitrary: i r)
  case (Suc n)
  have i: "0 \<le> i" "i < concurrency (ls_config scn)" "0 \<le> i + 1" "i + 1 + int n \<le> concurrency (ls_config scn)" using Suc.prems by simp_all
  show ?case
    unfolding start_workers.simps split_beta Let_def yields_bind
    by (rule yields_mono [OF log_worker_yields [OF assms i(1,2)]], clarsimp,
        rule yields_mono [OF Suc.IH [OF i(3,4)]])
      (auto simp: less_Suc_eq_0_disj algebra_simps)
qed simp

subsection \<open>The goroutines of an interval\<close>

fun caller_events :: "action list \<Rightarrow> event list" where
  "caller_events [] = []"
| "caller_events (Do e # as) = e # caller_events as"
| "caller_events (Spawn evs # as) = caller_events as"

fun started :: "action list \<Rightarrow> event list list" where
  "started [] = []"
| "started (Do e # as) = started as"
| "started (Spawn evs # as) = evs # started as"

definition goroutines :: "action list \<Rightarrow> event list list" where
  "goroutines as = caller_events as # started as"

lemma actions_append [simp]:
  "caller_events (as @ as') = caller_events as @ caller_events as'" "started (as @ as') = started as @ started as'"
  by (induction as rule: started.induct) simp_all

lemma actions_map [simp]:
  "caller_events (map Do evs) = evs" "started (map Do evs) = []"
  "caller_events (map Spawn ws) = []" "started (map Spawn ws) = ws"
proof -
  show "caller_events (map Do evs) = evs" "started (map Do evs) = []" by (induction evs) simp_all
  show "caller_events (map Spawn ws) = []" "started (map Spawn ws) = ws" by (induction ws) simp_all
qed

text \<open>What one iteration over the scenarios does.\<close>

definition scenario_actions :: "log_scenario \<Rightarrow> int \<Rightarrow> int \<Rightarrow> action list \<Rightarrow> bool" where
  "scenario_actions scn logs base as \<longleftrightarrow>
     (let n = scale (ls_config scn); c = concurrency (ls_config scn) in
      if c = 0 then \<exists>evs. as = map Do evs \<and> delivers load_store 0 (instance_plan scn logs [0..n - 1]) evs
      else \<exists>ws. as = map Spawn ws \<and> length ws = nat c \<and>
        (\<forall>k < length ws. delivers atomic_add (base + int k)
           (instance_plan scn logs (worker_indices n c (int k) (length (ls_resources scn)))) (ws ! k)))"

lemma ready_volume [simp]: "scenario_ready G (scn\<lparr>ls_volume := vs\<rparr>) = scenario_ready G scn"
  by (simp add: scenario_ready_def)

lemma plan_volume [simp]: "instance_plan (scn\<lparr>ls_volume := vs\<rparr>) = instance_plan scn"
  by (intro ext) (simp add: instance_plan_def)

definition next_base :: "log_scenario \<Rightarrow> int \<Rightarrow> int" where
  "next_base scn base = (if logs_per_interval (ls_config scn) = 0 then base else base + concurrency (ls_config scn))"

lemma produce_scenario_yields:
  assumes ready: "scenario_ready G scn"
  shows "yields (produce_scenario G cfg t scn base r) (\<lambda>(as, scn', base', r').
    (\<exists>vs. scn' = scn\<lparr>ls_volume := vs\<rparr>) \<and> base' = next_base scn base \<and>
    (if logs_per_interval (ls_config scn) = 0 then as = []
     else \<exists>dm vm vs r1. diurnalMultiplier G t (diurnal_profile (ls_config scn)) = Some dm \<and>
       resolveVolumeMultiplier (volume_profile (ls_config scn)) (ls_volume scn) r = Some (vm, vs, r1) \<and>
       scenario_actions scn (effective_logs (logs_per_interval (ls_config scn)) dm vm) base as))"
proof (cases "logs_per_interval (ls_config scn) = 0")
  case True
  then show ?thesis
    by (simp add: produce_scenario_def next_base_def exI [of _ "ls_volume scn"])
next
  case False
  have lpi: "0 < logs_per_interval (ls_config scn)" and vol: "pred_option roll_ok (volume_profile (ls_config scn))"
    and c0: "0 \<le> concurrency (ls_config scn)" using ready False by (auto simp: scenario_ready_def Let_def)
  obtain dm where dm: "diurnalMultiplier G t (diurnal_profile (ls_config scn)) = Some dm"
    using diurnal_total [OF ready, of t] by (auto simp: yields_ex)
  obtain vm vs r1 where vm: "resolveVolumeMultiplier (volume_profile (ls_config scn)) (ls_volume scn) r = Some (vm, vs, r1)"
    using resolve_total [OF vol, of "ls_volume scn" r] by (auto simp: yields_ex)
  let ?logs = "effective_logs (logs_per_interval (ls_config scn)) dm vm"
  have logs: "0 < ?logs" using effective_logs_pos [OF lpi, of dm vm] by linarith
  let ?scn = "scn\<lparr>ls_volume := vs\<rparr>"
  have ready': "scenario_ready G ?scn" using ready by simp
  show ?thesis
  proof (cases "concurrency (ls_config scn) = 0")
    case True
    then show ?thesis
      using False dm vm log_inline_yields [OF ready' logs, of cfg t r1]
      by (auto simp: produce_scenario_def scenario_actions_def next_base_def Let_def elim!: yields_mono)
  next
    case c: False
    from start_workers_yields [OF ready' logs, of 0 "nat (concurrency (ls_config scn))" cfg t base r1] c0 c False dm vm
    show ?thesis
      by (auto simp: produce_scenario_def scenario_actions_def next_base_def Let_def elim!: yields_mono)
  qed
qed

lemma delivers_blocks:
  "delivers upd shard plan evs \<Longrightarrow> (\<And>n. batches_of (upd n) = []) \<Longrightarrow> blocks (concat (batches_of evs)) = plan"
  by (auto simp: delivers_def batch_match_def)

lemma scenario_actions_blocks:
  assumes "scenario_ready G scn" and acts: "scenario_actions scn logs base as"
  shows "blocks (concat (concat (map batches_of (goroutines as)))) = instance_plan scn logs [0..scale (ls_config scn) - 1]"
proof (cases "concurrency (ls_config scn) = 0")
  case True
  with acts obtain evs where "as = map Do evs" "delivers load_store 0 (instance_plan scn logs [0..scale (ls_config scn) - 1]) evs"
    by (auto simp: scenario_actions_def Let_def)
  then show ?thesis by (simp add: goroutines_def delivers_blocks)
next
  case False
  let ?n = "scale (ls_config scn)" and ?c = "concurrency (ls_config scn)"
  have r: "0 < ?c" "?c dvd ?n" "0 \<le> ?n" "i64 (?n * ?c)" and "int (length (ls_resources scn)) = ?n"
    using assms(1) False by (auto simp: scenario_ready_def Let_def)
  then have len: "length (ls_resources scn) = nat ?n" by linarith
  let ?plan = "\<lambda>k. instance_plan scn logs (worker_indices ?n ?c (int k) (nat ?n))"
  obtain ws where as: "as = map Spawn ws" and ws: "length ws = nat ?c"
    and del: "\<forall>k < length ws. delivers atomic_add (base + int k) (?plan k) (ws ! k)"
    using acts False unfolding scenario_actions_def Let_def len by auto
  have "blocks (concat (batches_of (ws ! k))) = ?plan k" if "k < length ws" for k
    using del that delivers_blocks [of atomic_add "base + int k" "?plan k"] by auto
  then have "map (\<lambda>w. blocks (concat (batches_of w))) ws = map ?plan [0..<length ws]"
    by (intro nth_equalityI) simp_all
  moreover have "blocks (concat (concat (map batches_of ws))) = concat (map (\<lambda>w. blocks (concat (batches_of w))) ws)" for ws
    by (induction ws) simp_all
  ultimately have "blocks (concat (concat (map batches_of ws))) = concat (map ?plan [0..<length ws])" by simp
  also have "\<dots> = instance_plan scn logs (concat (map (\<lambda>k. worker_indices ?n ?c (int k) (nat ?n)) [0..<nat ?c]))"
    by (simp add: instance_plan_def map_concat comp_def ws)
  finally show ?thesis by (simp add: as goroutines_def worker_indices_cover [OF r])
qed

text \<open>
  C5. Concurrency does not change what is produced. In an interval a scenario hands over, in
  the order of its workers, exactly one block of records for each instance, in the order of the
  instances, under the instance's resource and with as many records as its share of the
  interval's volume, whether one goroutine logs all instances or any number of workers share
  them.
\<close>

theorem scenario_delivers_plan:
  assumes "scenario_ready G scn" and "0 < logs_per_interval (ls_config scn)"
  shows "\<exists>as scn' base' r' dm vm vs r1. produce_scenario G cfg t scn base r = Some (as, scn', base', r') \<and>
    diurnalMultiplier G t (diurnal_profile (ls_config scn)) = Some dm \<and>
    resolveVolumeMultiplier (volume_profile (ls_config scn)) (ls_volume scn) r = Some (vm, vs, r1) \<and>
    blocks (concat (concat (map batches_of (goroutines as)))) =
      instance_plan scn (effective_logs (logs_per_interval (ls_config scn)) dm vm) [0..scale (ls_config scn) - 1]"
proof -
  from produce_scenario_yields [OF assms(1), of cfg t base r] assms(2)
  obtain as scn' base' r' dm vm vs r1 where run: "produce_scenario G cfg t scn base r = Some (as, scn', base', r')"
    and dv: "diurnalMultiplier G t (diurnal_profile (ls_config scn)) = Some dm"
      "resolveVolumeMultiplier (volume_profile (ls_config scn)) (ls_volume scn) r = Some (vm, vs, r1)"
    and acts: "scenario_actions scn (effective_logs (logs_per_interval (ls_config scn)) dm vm) base as"
    by (auto simp: yields_ex)
  show ?thesis using run dv scenario_actions_blocks [OF assms(1) acts] by blast
qed

definition sample_ls :: log_scenario where
  "sample_ls =
     \<lparr>ls_config = sample_scenario\<lparr>scale := 2, concurrency := 2, logs_per_interval := 3, volume_profile := None, diurnal_profile := None\<rparr>,
      ls_resources = [[(''k8s.pod.name'', PStr ''a'')], [(''k8s.pod.name'', PStr ''b'')]],
      ls_prepared = PrepareProfile sample_profile, ls_volume = \<lparr>multiplier = Fin 0, remaining_intervals = 0\<rparr>,
      ls_multipliers = None\<rparr>"

lemma sample_ls_ready: "scenario_ready sample_lib sample_ls"
  using sample_prepared_ok by (simp add: scenario_ready_def sample_ls_def Let_def i64_def sample_profile_def)

lemma effective_plain: "0 \<le> n \<Longrightarrow> n \<le> 2 ^ 53 \<Longrightarrow> effective_logs n (Fin 1) (Fin 1) = n"
  using to_i64_of_int [of n] by (simp add: effective_logs_def of_i64_small i64_def)

lemma scenario_delivers_plan_witness:
  "\<exists>as scn' base' r'. produce_scenario sample_lib sample_config zero_time sample_ls 1 (new_rng [4, 7]) = Some (as, scn', base', r') \<and>
    blocks (concat (concat (map batches_of (goroutines as)))) =
      [([(''k8s.pod.name'', PStr ''a'')], 3), ([(''k8s.pod.name'', PStr ''b'')], 3)]"
proof -
  have "[0..(1 :: int)] = [0, 1]" by (simp add: upto.simps)
  then show ?thesis
    using scenario_delivers_plan [OF sample_ls_ready, of sample_config zero_time 1 "new_rng [4, 7]"]
    by (auto simp: sample_ls_def diurnalMultiplier_def resolveVolumeMultiplier_def effective_plain instance_plan_def
        applyInstanceMultiplier_def)
qed

end
