(* ===== verification/Schedules.thy ===== *)
theory Schedules
  imports Receiver
begin

text \<open>
  The goroutines of an interval together: the shards they record on, and what the order of
  their events can and cannot change. Each shard, the needles' counters and the record count are
  observers of the events; the locales of the theory of interleavings give their independence of the schedule.
\<close>

subsection \<open>Whole intervals\<close>

text \<open>
  The goroutines of an interval from a shard base: the caller's events come in groups, one for
  each scenario it logs itself, and worker \<open>k\<close> delivers on the \<open>k\<close>-th shard from the base.
\<close>

definition caller_ok :: "event list \<Rightarrow> bool" where
  "caller_ok evs \<longleftrightarrow> (\<exists>parts. evs = concat parts \<and> (\<forall>p \<in> set parts. \<exists>plan. delivers load_store 0 plan p))"

definition interval_actions :: "int \<Rightarrow> action list \<Rightarrow> bool" where
  "interval_actions base as \<longleftrightarrow> caller_ok (caller_events as) \<and>
     (\<forall>k < length (started as). \<exists>plan. delivers atomic_add (base + int k) plan (started as ! k))"

lemma caller_ok_append: "caller_ok xs \<Longrightarrow> caller_ok ys \<Longrightarrow> caller_ok (xs @ ys)"
  unfolding caller_ok_def by (metis Un_iff concat_append set_append)

lemma caller_ok_Nil [simp]: "caller_ok []"
  by (simp add: caller_ok_def exI [of _ "[]"])

lemma interval_actions_append:
  assumes "interval_actions base as" and "interval_actions (base + int (length (started as))) as'"
  shows "interval_actions base (as @ as')"
proof -
  let ?n = "length (started as)"
  have "\<exists>plan. delivers atomic_add (base + int k) plan ((started as @ started as') ! k)"
    if "k < length (started as @ started as')" for k
  proof (cases "k < ?n")
    case True
    with assms(1) show ?thesis by (simp add: interval_actions_def nth_append)
  next
    case False
    then have "k - ?n < length (started as')" and "base + int ?n + int (k - ?n) = base + int k" using that by simp_all
    with assms(2) False show ?thesis by (metis interval_actions_def nth_append)
  qed
  then show ?thesis using assms by (simp add: interval_actions_def caller_ok_append)
qed

lemma scenario_interval_actions:
  assumes "scenario_actions scn logs base as" and "0 \<le> concurrency (ls_config scn)"
  shows "interval_actions base as \<and> int (length (started as)) = concurrency (ls_config scn)"
proof (cases "concurrency (ls_config scn) = 0")
  case True
  with assms obtain evs where "as = map Do evs" and d: "delivers load_store 0 (instance_plan scn logs [0..scale (ls_config scn) - 1]) evs"
    by (auto simp: scenario_actions_def Let_def)
  moreover have "caller_ok evs" unfolding caller_ok_def using d by (intro exI [of _ "[evs]"]) auto
  ultimately show ?thesis using True by (simp add: interval_actions_def)
next
  case False
  with assms show ?thesis unfolding scenario_actions_def Let_def interval_actions_def by fastforce
qed

lemma interval_workers: "interval_actions base as \<Longrightarrow> \<forall>w \<in> set (started as). \<exists>shard plan. delivers atomic_add shard plan w"
  by (auto simp: interval_actions_def in_set_conv_nth) blast

text \<open>Two scenarios that differ in their volume state only.\<close>

definition same_scenario :: "log_scenario \<Rightarrow> log_scenario \<Rightarrow> bool" where
  "same_scenario scn scn' \<longleftrightarrow> (\<exists>vs. scn' = scn\<lparr>ls_volume := vs\<rparr>)"

lemma same_scenario_volume [simp]: "same_scenario scn (scn\<lparr>ls_volume := vs\<rparr>)"
  by (auto simp: same_scenario_def)

text \<open>The workers that an interval starts.\<close>

definition workers_of :: "log_scenario list \<Rightarrow> int" where
  "workers_of scns = (\<Sum>scn\<leftarrow>scns. if logs_per_interval (ls_config scn) = 0 then 0 else concurrency (ls_config scn))"

lemma produce_scenarios_yields:
  "\<forall>scn \<in> set scns. scenario_ready G scn \<Longrightarrow>
   yields (produce_scenarios G cfg t scns base r) (\<lambda>(as, scns', r').
     interval_actions base as \<and> int (length (started as)) = workers_of scns \<and> list_all2 same_scenario scns scns')"
proof (induction scns arbitrary: base r)
  case Nil
  then show ?case by (simp add: interval_actions_def workers_of_def)
next
  case (Cons scn scns)
  have ready: "scenario_ready G scn" and rest: "\<forall>scn \<in> set scns. scenario_ready G scn" using Cons.prems by simp_all
  have c: "0 \<le> concurrency (ls_config scn)" using ready by (simp add: scenario_ready_def Let_def)
  have "yields (produce_scenario G cfg t scn base r) (\<lambda>(as, scn', base', r1). same_scenario scn scn' \<and> base' = next_base scn base \<and>
      (if logs_per_interval (ls_config scn) = 0 then as = [] else \<exists>logs. scenario_actions scn logs base as))"
    by (rule yields_mono [OF produce_scenario_yields [OF ready]]) (clarsimp split: if_splits, blast)
  then obtain as scn' base' r1 where run: "produce_scenario G cfg t scn base r = Some (as, scn', base', r1)"
    and same: "same_scenario scn scn'" and base: "base' = next_base scn base"
    and acts: "if logs_per_interval (ls_config scn) = 0 then as = [] else \<exists>logs. scenario_actions scn logs base as"
    by (auto simp only: yields_ex prod.case)
  have one: "interval_actions base as" "base' = base + int (length (started as))"
    and len: "int (length (started as)) = (if logs_per_interval (ls_config scn) = 0 then 0 else concurrency (ls_config scn))"
    using acts base scenario_interval_actions [OF _ c]
    by (auto simp: next_base_def interval_actions_def split: if_splits)
  obtain as' scns' r2 where "produce_scenarios G cfg t scns base' r1 = Some (as', scns', r2)" "interval_actions base' as'"
    "int (length (started as')) = workers_of scns" "list_all2 same_scenario scns scns'"
    using Cons.IH [OF rest, of base' r1] by (auto simp: yields_ex)
  then show ?case
    using one interval_actions_append [of base as as'] same len by (simp add: run workers_of_def)
qed

lemma produceLogs_actions:
  assumes "\<forall>scn \<in> set scns. scenario_ready G scn" and "produceLogs G cfg t scns r = Some (as, scns', r')"
  shows "interval_actions 1 as" "int (length (started as)) = workers_of scns" "list_all2 same_scenario scns scns'"
  using produce_scenarios_yields [OF assms(1), of cfg t 1 r] assms(2) by (simp_all add: produceLogs_def)

subsection \<open>A schedule is an interleaving of the goroutines\<close>

lemma schedule_shuffle:
  "schedule as ws tr \<Longrightarrow> shuffle (caller_events as # ws @ started as) tr"
proof (induction rule: schedule.induct)
  case (finish ws)
  then show ?case by (intro shuffle.finished) simp
next
  case (caller as ws tr e)
  show ?case by (rule shuffle.step [of 0]) (use caller.IH in simp_all)
next
  case (start as ws evs tr)
  then show ?case by simp
next
  case (worker k ws e evs as tr)
  show ?case
    by (rule shuffle.step [of "Suc k" _ e evs]) (use worker in \<open>simp_all add: nth_append list_update_append\<close>)
qed

lemma schedule_goroutines: "schedule as [] tr \<Longrightarrow> shuffle (goroutines as) tr"
  using schedule_shuffle [of as "[]" tr] by (simp add: goroutines_def)

subsection \<open>What an event does to each part of the shared state\<close>

fun shard_effect :: "golib \<Rightarrow> nat \<Rightarrow> nat \<Rightarrow> event \<Rightarrow> log_stats \<Rightarrow> log_stats" where
  "shard_effect G n j (Stat i e) s = (if rem_go i (int n) = int j then Record G e s else s)"
| "shard_effect G n j ev s = s"

fun on_shard :: "nat \<Rightarrow> nat \<Rightarrow> event \<Rightarrow> bool" where
  "on_shard n j (Stat i e) = (rem_go i (int n) = int j)"
| "on_shard n j ev = False"

fun needle_effect :: "event \<Rightarrow> counts \<Rightarrow> counts" where
  "needle_effect (NeedleHit n) occ = count_needle n occ"
| "needle_effect ev occ = occ"

fun total_effect :: "event \<Rightarrow> 64 word \<times> 64 word \<Rightarrow> 64 word \<times> 64 word" where
  "total_effect (TotalAdd n) (tot, l) = (tot + n, l)"
| "total_effect TotalLoad (tot, l) = (tot, tot)"
| "total_effect (TotalStore n) (tot, l) = (l + n, l)"
| "total_effect ev s = s"

interpretation shard: observer "shard_effect G n j" "on_shard n j" for G n j
  by unfold_locales (auto elim: on_shard.elims shard_effect.elims)

lemma count_needle_commute: "count_needle m (count_needle n occ) = count_needle n (count_needle m occ)"
proof -
  have "put_go n (c + 1) (put_go m (d + 1) occ) = put_go m (d + 1) (put_go n (c + 1) occ)"
    if "m \<noteq> n" "map_of occ n = Some c" "map_of occ m = Some d" for c d :: "64 word"
    using that by (induction occ) (auto split: if_splits)
  then show ?thesis by (cases "m = n") (auto simp: count_needle_def map_of_put_go split: option.splits)
qed

interpretation needle: commuting_observer needle_effect "\<lambda>ev. hits_of [ev] \<noteq> []"
proof unfold_locales
  show "\<not> hits_of [ev] \<noteq> [] \<Longrightarrow> needle_effect ev occ = occ" for ev occ by (cases ev) simp_all
  show "needle_effect e (needle_effect f occ) = needle_effect f (needle_effect e occ)" for e f occ
    by (cases e; cases f) (simp_all add: count_needle_commute)
qed

text \<open>Atomic additions alone commute.\<close>

fun add_effect :: "event \<Rightarrow> 64 word \<Rightarrow> 64 word" where
  "add_effect (TotalAdd n) tot = tot + n"
| "add_effect ev tot = tot"

interpretation adds: commuting_observer add_effect "\<lambda>ev. \<exists>n. ev = TotalAdd n"
proof unfold_locales
  show "\<not> (\<exists>n. ev = TotalAdd n) \<Longrightarrow> add_effect ev tot = tot" for ev tot by (cases ev) simp_all
  show "add_effect e (add_effect f tot) = add_effect f (add_effect e tot)" for e f tot
    by (cases e; cases f) simp_all
qed

lemma fold_shard_effect: "fold (shard_effect G n j) evs s = fold (Record G) (part n (stats_of evs) j) s"
  by (induction evs arbitrary: s rule: stats_of.induct) (simp_all add: LogStats.part_def)

lemma apply_events_eq:
  "apply_events G evs s =
     (case run_records G (stats_of evs) (sh_stats s) of None \<Rightarrow> None
      | Some st \<Rightarrow> Some \<lparr>sh_stats = st, sh_needles = fold needle_effect evs (sh_needles s),
          sh_total = fst (fold total_effect evs (sh_total s, sh_loaded s)),
          sh_loaded = snd (fold total_effect evs (sh_total s, sh_loaded s)),
          sh_sent = sh_sent s @ batches_of evs\<rparr>)"
proof (induction evs arbitrary: s)
  case (Cons ev evs)
  then show ?case by (cases ev) (auto split: option.splits bind_splits)
qed simp

lemma apply_events_run:
  assumes "\<forall>(i, e) \<in> set (stats_of evs). 0 \<le> i" and "sh_stats s \<noteq> []"
  shows "\<exists>s'. apply_events G evs s = Some s' \<and>
    sh_stats s' = map (\<lambda>j. fold (shard_effect G (length (sh_stats s)) j) evs (sh_stats s ! j)) [0..<length (sh_stats s)] \<and>
    sh_needles s' = fold needle_effect evs (sh_needles s) \<and>
    (sh_total s', sh_loaded s') = fold total_effect evs (sh_total s, sh_loaded s) \<and>
    sh_sent s' = sh_sent s @ batches_of evs"
proof -
  obtain st where st: "run_records G (stats_of evs) (sh_stats s) = Some st" using run_records_total [OF assms] by blast
  from run_records_shards [OF this assms(2)] show ?thesis
    by (simp add: apply_events_eq st fold_shard_effect)
qed

subsection \<open>Shards have one writer\<close>

lemma delivers_stats:
  assumes "delivers upd shard plan evs" and "\<And>n. stats_of (upd n) = []" and "(i, e) \<in> set (stats_of evs)"
  shows "i = shard"
  using assms by (auto simp: delivers_def batch_match_def)

lemma caller_stats: "caller_ok evs \<Longrightarrow> (i, e) \<in> set (stats_of evs) \<Longrightarrow> i = 0"
proof -
  have "(i, e) \<in> set (stats_of (concat parts)) \<Longrightarrow> \<exists>p \<in> set parts. (i, e) \<in> set (stats_of p)" for parts
    by (induction parts) auto
  then show "caller_ok evs \<Longrightarrow> (i, e) \<in> set (stats_of evs) \<Longrightarrow> i = 0"
    unfolding caller_ok_def using delivers_stats [where upd = load_store] by fastforce
qed

text \<open>The caller is goroutine 0 and records on shard 0; worker \<open>k\<close> is goroutine and shard \<open>k + 1\<close>.\<close>

lemma goroutine_shard:
  assumes "interval_actions 1 as" and "t < length (goroutines as)" and "(i, e) \<in> set (stats_of (goroutines as ! t))"
  shows "i = int t"
proof (cases t)
  case 0
  with assms show ?thesis using caller_stats by (auto simp: goroutines_def interval_actions_def)
next
  case (Suc k)
  with assms obtain plan where "delivers atomic_add (1 + int k) plan (started as ! k)" "(i, e) \<in> set (stats_of (started as ! k))"
    by (auto simp: goroutines_def interval_actions_def)
  from delivers_stats [OF this(1) _ this(2)] Suc show ?thesis by simp
qed

lemma interval_owned:
  assumes "interval_actions 1 as" and "length (goroutines as) \<le> n"
  shows "owned (on_shard n j) (goroutines as)"
proof -
  have "t = j" if t: "t < length (goroutines as)" and ne: "filter (on_shard n j) (goroutines as ! t) \<noteq> []" for t
  proof -
    from ne obtain i e where ie: "Stat i e \<in> set (goroutines as ! t)" and on: "rem_go i (int n) = int j"
      by (auto simp: filter_empty_conv elim!: on_shard.elims)
    have "Stat i e \<in> set evs \<Longrightarrow> (i, e) \<in> set (stats_of evs)" for evs
      by (induction evs rule: stats_of.induct) auto
    with ie have "i = int t" using goroutine_shard [OF assms(1) t] by blast
    with on t assms(2) show ?thesis by simp
  qed
  then show ?thesis unfolding owned_def by blast
qed

text \<open>
  C7. No two goroutines of an interval share a shard. An interval never panics, and the
  shards on which its goroutines record exist and are pairwise different, so that \<open>LogStats\<close>
  needs no lock, provided there is a shard for each worker of the scenarios and one more.
\<close>

theorem goroutines_own_shards:
  assumes "\<forall>scn \<in> set scns. scenario_ready G scn" and "workers_of scns < int (length st)"
  shows "\<exists>as scns' r'. produceLogs G cfg t scns r = Some (as, scns', r') \<and>
    (\<forall>u < length (goroutines as). \<forall>(i, e) \<in> set (stats_of (goroutines as ! u)). Shard st i = Some u)"
proof -
  obtain as scns' r' where run: "produceLogs G cfg t scns r = Some (as, scns', r')" and acts: "interval_actions 1 as"
    and len: "int (length (started as)) = workers_of scns"
    using produce_scenarios_yields [OF assms(1), of cfg t 1 r] by (auto simp: produceLogs_def yields_ex)
  have "Shard st (int u) = Some u" if "u < length (goroutines as)" for u
  proof -
    have "u < length st" using that len assms(2) by (simp add: goroutines_def)
    then show ?thesis by (auto simp: Shard_def Let_def)
  qed
  then show ?thesis using run goroutine_shard [OF acts] by blast
qed

lemma sample_workers: "workers_of [sample_ls] < int (length (NewShardedLogStats 3 cs))"
  by (simp add: workers_of_def NewShardedLogStats_def sample_ls_def)

lemma goroutines_own_shards_witness:
  "\<exists>as scns' r'. produceLogs sample_lib sample_config zero_time [sample_ls] (new_rng [4, 7]) = Some (as, scns', r') \<and>
    (\<forall>u < length (goroutines as). \<forall>(i, e) \<in> set (stats_of (goroutines as ! u)). Shard (NewShardedLogStats 3 [0, 1]) i = Some u)"
  by (rule goroutines_own_shards [OF _ sample_workers]) (simp add: sample_ls_ready)

subsection \<open>The order of events\<close>

lemma batches_filter: "batches_of evs = map (\<lambda>ev. case ev of Consume b \<Rightarrow> b | _ \<Rightarrow> []) (filter (\<lambda>ev. \<exists>b. ev = Consume b) evs)"
proof (induction evs)
  case (Cons ev evs)
  then show ?case by (cases ev) simp_all
qed simp

lemma mset_batches: "mset tr = mset tr' \<Longrightarrow> mset (batches_of tr) = mset (batches_of tr')"
  unfolding batches_filter mset_map mset_filter by (rule arg_cong [where f = "\<lambda>m. image_mset _ (filter_mset _ m)"])

lemma set_stats: "(i, e) \<in> set (stats_of evs) \<longleftrightarrow> Stat i e \<in> set evs"
  by (induction evs rule: stats_of.induct) simp_all

lemma schedule_nonneg:
  assumes "interval_actions 1 as" and "schedule as [] tr"
  shows "\<forall>(i, e) \<in> set (stats_of tr). 0 \<le> i"
proof -
  have "set tr = set (concat (goroutines as))"
    using shuffle_mset [OF schedule_goroutines [OF assms(2)]] by (metis set_mset_mset)
  then have "\<exists>u < length (goroutines as). (i, e) \<in> set (stats_of (goroutines as ! u))" if "(i, e) \<in> set (stats_of tr)" for i e
    using that unfolding set_stats by (metis UN_iff in_set_conv_nth set_concat)
  then show ?thesis using goroutine_shard [OF assms(1)] by fastforce
qed

text \<open>
  C2. The schedule does not matter. Whatever the order in which the events of an interval's
  goroutines happen, no call panics, every shard ends in the same state (totals, counts, tracked
  values), every needle's counter is the same, and the consumer receives the same batches.
\<close>

theorem schedules_agree:
  assumes "\<forall>scn \<in> set scns. scenario_ready G scn" and "workers_of scns < int (length (sh_stats s))"
    and "produceLogs G cfg t scns r = Some (as, scns', r')" and "schedule as [] tr" and "schedule as [] tr'"
  shows "\<exists>s1 s2. apply_events G tr s = Some s1 \<and> apply_events G tr' s = Some s2 \<and> sh_stats s1 = sh_stats s2 \<and>
    sh_needles s1 = sh_needles s2 \<and> mset (sh_sent s1) = mset (sh_sent s2)"
proof -
  have acts: "interval_actions 1 as" and len: "int (length (started as)) = workers_of scns"
    using produceLogs_actions [OF assms(1,3)] by simp_all
  then have own: "owned (on_shard (length (sh_stats s)) j) (goroutines as)" for j
    using assms(2) by (intro interval_owned) (simp_all add: goroutines_def)
  have ne: "sh_stats s \<noteq> []" using assms(2) len by auto
  note sh = schedule_goroutines [OF assms(4)] schedule_goroutines [OF assms(5)]
  have m: "mset tr = mset tr'" using shuffle_mset [OF sh(1)] shuffle_mset [OF sh(2)] by simp
  have "fold (shard_effect G (length (sh_stats s)) j) tr x = fold (shard_effect G (length (sh_stats s)) j) tr' x" for j x
    using shard.owned_deterministic [OF sh(1) own] shard.owned_deterministic [OF sh(2) own] by simp
  moreover have "fold needle_effect tr x = fold needle_effect tr' x" for x
    by (rule needle.mset_deterministic [OF m])
  moreover obtain s1 where "apply_events G tr s = Some s1"
    "sh_stats s1 = map (\<lambda>j. fold (shard_effect G (length (sh_stats s)) j) tr (sh_stats s ! j)) [0..<length (sh_stats s)]"
    "sh_needles s1 = fold needle_effect tr (sh_needles s)" "sh_sent s1 = sh_sent s @ batches_of tr"
    using apply_events_run [OF schedule_nonneg [OF acts assms(4)] ne, of G] by blast
  moreover obtain s2 where "apply_events G tr' s = Some s2"
    "sh_stats s2 = map (\<lambda>j. fold (shard_effect G (length (sh_stats s)) j) tr' (sh_stats s ! j)) [0..<length (sh_stats s)]"
    "sh_needles s2 = fold needle_effect tr' (sh_needles s)" "sh_sent s2 = sh_sent s @ batches_of tr'"
    using apply_events_run [OF schedule_nonneg [OF acts assms(5)] ne, of G] by blast
  ultimately show ?thesis using mset_batches [OF m] by simp
qed

subsection \<open>Schedules exist\<close>

lemma schedule_one_worker: "schedule as (us @ [] # vs) tr \<Longrightarrow> schedule as (us @ w # vs) (w @ tr)"
proof (induction w)
  case (Cons e w)
  show ?case
    using schedule.worker [of "length us" "us @ (e # w) # vs" e w as "w @ tr"] Cons by simp
qed simp

lemma schedule_workers: "schedule as (us @ map (\<lambda>_. []) ws) tr \<Longrightarrow> schedule as (us @ ws) (concat ws @ tr)"
proof (induction ws arbitrary: us)
  case (Cons w ws)
  then have "schedule as ((us @ [[]]) @ ws) (concat ws @ tr)" by (intro Cons.IH) simp
  then show ?case using schedule_one_worker [of as us ws "concat ws @ tr" w] by simp
qed simp

lemma schedule_caller: "schedule as ws tr \<Longrightarrow> schedule (map Do es @ as) ws (es @ tr)"
  by (induction es) (simp_all add: schedule.caller)

lemma schedule_start: "schedule as (us @ ws) tr \<Longrightarrow> schedule (map Spawn ws @ as) us tr"
proof (induction ws arbitrary: us)
  case (Cons w ws)
  then show ?case by (auto intro!: schedule.start Cons.IH)
qed simp

lemma schedule_exists: "\<exists>tr. schedule as ws tr"
proof (induction as arbitrary: ws)
  case Nil
  have "schedule [] ([] @ map (\<lambda>_. []) ws) []" by (rule schedule.finish) simp
  from schedule_workers [OF this] show ?case by auto
next
  case (Cons a as)
  then show ?case by (cases a) (auto intro: schedule.intros)
qed

lemma schedules_agree_witness:
  "\<exists>as scns' r' tr s1. produceLogs sample_lib sample_config zero_time [sample_ls] (new_rng [4, 7]) = Some (as, scns', r') \<and>
    schedule as [] tr \<and> apply_events sample_lib tr \<lparr>sh_stats = NewShardedLogStats 3 [0, 1], sh_needles = [], sh_total = 0,
      sh_loaded = 0, sh_sent = []\<rparr> = Some s1"
proof -
  let ?s = "\<lparr>sh_stats = NewShardedLogStats 3 [0, 1], sh_needles = [], sh_total = 0, sh_loaded = 0, sh_sent = []\<rparr>"
  have ready: "\<forall>scn \<in> set [sample_ls]. scenario_ready sample_lib scn" by (simp add: sample_ls_ready)
  obtain as scns' r' where run: "produceLogs sample_lib sample_config zero_time [sample_ls] (new_rng [4, 7]) = Some (as, scns', r')"
    using produce_scenarios_yields [OF ready, of sample_config zero_time 1 "new_rng [4, 7]"] by (auto simp: produceLogs_def yields_ex)
  obtain tr where tr: "schedule as [] tr" using schedule_exists by blast
  have "workers_of [sample_ls] < int (length (sh_stats ?s))" using sample_workers by simp
  from schedules_agree [OF ready this run tr tr] show ?thesis using run tr by blast
qed

subsection \<open>The count that an interval returns\<close>

definition delivered :: "event list \<Rightarrow> nat" where
  "delivered evs = (\<Sum>b\<leftarrow>batches_of evs. LogRecordCount b)"

lemma delivered_append [simp]: "delivered (xs @ ys) = delivered xs + delivered ys" "delivered [] = 0"
  by (simp_all add: delivered_def)

lemma record_events_total [simp]: "list_all record_event evs \<Longrightarrow> fold total_effect evs s = s"
  by (induction evs arbitrary: s rule: batches_of.induct) simp_all

lemma delivers_delivered: "delivers upd shard plan evs \<Longrightarrow> (\<And>n. batches_of (upd n) = []) \<Longrightarrow>
   \<exists>evs0. list_all record_event evs0 \<and> (\<exists>b. evs = evs0 @ upd (of_nat (delivered evs)) @ [Consume b])"
  by (auto simp: delivers_def batch_match_def delivered_def)

lemma caller_total: "caller_ok evs \<Longrightarrow> fst (fold total_effect evs (tot, l)) = tot + of_nat (delivered evs)"
proof -
  have one: "\<exists>l'. fold total_effect p (tot, l) = (tot + of_nat (delivered p), l')" if d: "delivers load_store 0 plan p" for p plan tot l
  proof -
    obtain evs0 b where e: "list_all record_event evs0" "p = evs0 @ [TotalLoad, TotalStore (of_nat (delivered p)), Consume b]"
      using delivers_delivered [OF d] by auto
    from e(1) have "fold total_effect (evs0 @ [TotalLoad, TotalStore (of_nat (delivered p)), Consume b]) (tot, l) =
      (tot + of_nat (delivered p), tot)" by simp
    with e(2) show ?thesis by metis
  qed
  have "\<exists>l'. fold total_effect (concat parts) (tot, l) = (tot + of_nat (delivered (concat parts)), l')"
    if "\<forall>p \<in> set parts. \<exists>plan. delivers load_store 0 plan p" for parts
    using that
  proof (induction parts arbitrary: tot l)
    case (Cons p parts)
    obtain l' where "fold total_effect p (tot, l) = (tot + of_nat (delivered p), l')" using one Cons.prems by fastforce
    moreover obtain l'' where "fold total_effect (concat parts) (tot + of_nat (delivered p), l') =
        (tot + of_nat (delivered p) + of_nat (delivered (concat parts)), l'')"
      using Cons.IH [of "tot + of_nat (delivered p)" l'] Cons.prems by auto
    ultimately show ?case by (simp add: add.assoc)
  qed simp
  then show "caller_ok evs \<Longrightarrow> ?thesis" unfolding caller_ok_def by fastforce
qed

lemma worker_total:
  assumes "delivers atomic_add shard plan evs"
  shows "fold add_effect evs tot = tot + of_nat (delivered evs)" and "TotalLoad \<notin> set evs" and "TotalStore n \<notin> set evs"
proof -
  obtain evs0 b where evs0: "list_all record_event evs0" and evs: "evs = evs0 @ [TotalAdd (of_nat (delivered evs)), Consume b]"
    using delivers_delivered [OF assms] by auto
  have "fold add_effect evs0 tot = tot" using evs0 by (induction evs0 arbitrary: tot rule: batches_of.induct) simp_all
  then have "fold add_effect (evs0 @ [TotalAdd (of_nat (delivered evs)), Consume b]) tot = tot + of_nat (delivered evs)" by simp
  then show "fold add_effect evs tot = tot + of_nat (delivered evs)" by (simp only: evs [symmetric])
  have "x \<in> set evs0 \<Longrightarrow> record_event x" for x using evs0 by (simp add: list_all_iff)
  then have "TotalLoad \<notin> set evs0" "TotalStore n \<notin> set evs0" by fastforce+
  then show "TotalLoad \<notin> set evs" "TotalStore n \<notin> set evs" by (subst evs, simp)+
qed

lemma only_adds_total:
  "TotalLoad \<notin> set evs \<Longrightarrow> \<forall>n. TotalStore n \<notin> set evs \<Longrightarrow> fold total_effect evs (tot, l) = (fold add_effect evs tot, l)"
proof (induction evs arbitrary: tot)
  case (Cons ev evs)
  then show ?case by (cases ev) (simp_all, blast)
qed simp

text \<open>Workers alone: whatever their interleaving, their additions reach the count.\<close>

lemma workers_total:
  assumes ws: "\<forall>w \<in> set ws. w = [] \<or> (\<exists>shard plan. delivers atomic_add shard plan w)" and "shuffle ws tr"
  shows "fst (fold total_effect tr (tot, l)) = tot + of_nat (delivered (concat ws))"
proof -
  have "fold add_effect (concat ws) tot = tot + of_nat (delivered (concat ws))" for tot
    using ws by (induction ws arbitrary: tot) (auto simp: worker_total(1) add.assoc)
  moreover have "set tr = set (concat ws)" using shuffle_mset [OF assms(2)] by (metis set_mset_mset)
  then have "TotalLoad \<notin> set tr" "TotalStore n \<notin> set tr" for n using ws worker_total(2,3) by fastforce+
  ultimately show ?thesis by (simp add: only_adds_total adds.shuffle_deterministic [OF assms(2)])
qed

text \<open>Scenarios of which none is logged by the caller once workers have been started.\<close>

definition logs_inline :: "log_scenario \<Rightarrow> bool" where
  "logs_inline scn \<longleftrightarrow> logs_per_interval (ls_config scn) \<noteq> 0 \<and> concurrency (ls_config scn) = 0"

definition starts_workers :: "log_scenario \<Rightarrow> bool" where
  "starts_workers scn \<longleftrightarrow> logs_per_interval (ls_config scn) \<noteq> 0 \<and> concurrency (ls_config scn) \<noteq> 0"

fun race_free :: "log_scenario list \<Rightarrow> bool" where
  "race_free [] = True"
| "race_free (scn # scns) = ((starts_workers scn \<longrightarrow> (\<forall>s \<in> set scns. \<not> logs_inline s)) \<and> race_free scns)"

lemma scenario_actions_shape:
  "scenario_actions scn logs base as \<Longrightarrow>
   as = (if concurrency (ls_config scn) = 0 then map Do (caller_events as) else map Spawn (started as))"
  by (auto simp: scenario_actions_def Let_def)

lemma actions_shape:
  assumes "scenario_ready G scn" and "produce_scenario G cfg t scn base r = Some (as, scn', base', r')"
  shows "(logs_inline scn \<and> as = map Do (caller_events as) \<or> starts_workers scn \<and> as = map Spawn (started as) \<or>
    \<not> logs_inline scn \<and> \<not> starts_workers scn \<and> as = [])"
  using produce_scenario_yields [OF assms(1), of cfg t base r] assms(2)
  by (auto simp: logs_inline_def starts_workers_def split: if_splits dest: scenario_actions_shape)

lemma produce_race_free:
  assumes "\<forall>scn \<in> set scns. scenario_ready G scn" and "produce_scenarios G cfg t scns base r = Some (as, scns', r')"
  shows "(race_free scns \<longrightarrow> as = map Do (caller_events as) @ map Spawn (started as)) \<and>
    ((\<forall>s \<in> set scns. \<not> logs_inline s) \<longrightarrow> caller_events as = [] \<and> race_free scns)"
  using assms
proof (induction scns arbitrary: base r as scns')
  case (Cons scn scns)
  then obtain as1 scn1 base1 r1 as2 scns2 where one: "produce_scenario G cfg t scn base r = Some (as1, scn1, base1, r1)"
    and rest: "produce_scenarios G cfg t scns base1 r1 = Some (as2, scns2, r')" and as: "as = as1 @ as2"
    by (auto split: bind_splits)
  have ready: "scenario_ready G scn" "\<forall>scn \<in> set scns. scenario_ready G scn" using Cons.prems by simp_all
  note IH = Cons.IH [OF ready(2) rest]
  from actions_shape [OF ready(1) one] consider
      (inline) evs where "logs_inline scn" "\<not> starts_workers scn" "as1 = map Do evs"
    | (workers) ws where "starts_workers scn" "\<not> logs_inline scn" "as1 = map Spawn ws"
    | (none) "\<not> logs_inline scn" "\<not> starts_workers scn" "as1 = []"
    by (auto simp: logs_inline_def starts_workers_def)
  then show ?case
  proof cases
    case inline
    then show ?thesis using IH by (simp add: as)
  next
    case workers
    then show ?thesis using IH by (auto simp: as)
  next
    case none
    then show ?thesis using IH by (auto simp: as)
  qed
qed simp

inductive_cases schedule_DoE: "schedule (Do e # as) [] tr"

lemma schedule_caller_first: "schedule (map Do es @ as) [] tr \<Longrightarrow> \<exists>tr'. tr = es @ tr' \<and> schedule as [] tr'"
  by (induction es arbitrary: tr) (auto elim!: schedule_DoE)

lemma count_exact:
  assumes "\<forall>scn \<in> set scns. scenario_ready G scn" and "race_free scns"
    and "produceLogs G cfg t scns r = Some (as, scns', r')" and "schedule as [] tr"
    and "apply_events G tr s = Some s'" and "sh_total s = 0"
  shows "sh_total s' = of_nat (delivered tr)"
proof -
  have run: "produce_scenarios G cfg t scns 1 r = Some (as, scns', r')" using assms(3) by (simp add: produceLogs_def)
  have acts: "interval_actions 1 as" by (rule produceLogs_actions(1) [OF assms(1,3)])
  have "as = map Do (caller_events as) @ map Spawn (started as)" using produce_race_free [OF assms(1) run] assms(2) by blast
  then have "schedule (map Do (caller_events as) @ map Spawn (started as)) [] tr" using assms(4) by simp
  then obtain tr' where tr: "tr = caller_events as @ tr'" and "schedule (map Spawn (started as)) [] tr'"
    using schedule_caller_first by blast
  then have sh: "shuffle ([] # started as) tr'" using schedule_goroutines by (fastforce simp: goroutines_def)
  have ws: "\<forall>w \<in> set ([] # started as). w = [] \<or> (\<exists>shard plan. delivers atomic_add shard plan w)"
    using interval_workers [OF acts] by simp
  have "mset tr' = mset (concat (started as))" using shuffle_mset [OF sh] by simp
  then have d: "delivered tr' = delivered (concat (started as))"
    unfolding delivered_def using mset_batches by (metis mset_map sum_mset_sum_list)
  obtain l where l: "fold total_effect (caller_events as) (0, sh_loaded s) = (of_nat (delivered (caller_events as)), l)"
    using caller_total [of "caller_events as" 0 "sh_loaded s"] acts
    by (cases "fold total_effect (caller_events as) (0, sh_loaded s)") (simp add: interval_actions_def)
  have "sh_total s' = fst (fold total_effect tr (sh_total s, sh_loaded s))"
    using assms(5) by (auto simp: apply_events_eq split: option.splits)
  also have "\<dots> = of_nat (delivered tr)" using workers_total [OF ws sh] by (simp add: assms(6) tr l d)
  finally show ?thesis .
qed

text \<open>
  C15. The count of an interval. When no scenario is logged by the caller after another one has
  started workers, the count that the interval returns is the number of records handed to the
  consumer, whatever the schedule.
\<close>

theorem interval_count_exact:
  assumes "\<forall>scn \<in> set scns. scenario_ready G scn" and "race_free scns"
    and "produceLogs G cfg t scns r = Some (as, scns', r')" and "schedule as [] tr"
    and "apply_events G tr s = Some s'" and "sh_total s = 0"
  shows "sh_total s' = of_nat (delivered tr)"
  using assms by (rule count_exact)

lemma sample_interval:
  "\<exists>as scns' r' tr s1. produceLogs sample_lib sample_config zero_time [sample_ls] (new_rng [4, 7]) = Some (as, scns', r') \<and>
    schedule as [] tr \<and> apply_events sample_lib tr \<lparr>sh_stats = NewShardedLogStats 3 [0, 1], sh_needles = [], sh_total = 0,
      sh_loaded = 0, sh_sent = []\<rparr> = Some s1"
proof -
  let ?s = "\<lparr>sh_stats = NewShardedLogStats 3 [0, 1], sh_needles = [], sh_total = 0, sh_loaded = 0, sh_sent = []\<rparr>"
  have ready: "\<forall>scn \<in> set [sample_ls]. scenario_ready sample_lib scn" by (simp add: sample_ls_ready)
  obtain as scns' r' where run: "produceLogs sample_lib sample_config zero_time [sample_ls] (new_rng [4, 7]) = Some (as, scns', r')"
    and acts: "interval_actions 1 as"
    using produce_scenarios_yields [OF ready, of sample_config zero_time 1 "new_rng [4, 7]"] by (auto simp: produceLogs_def yields_ex)
  obtain tr where tr: "schedule as [] tr" using schedule_exists by blast
  obtain s1 where "apply_events sample_lib tr ?s = Some s1"
    using apply_events_run [OF schedule_nonneg [OF acts tr], of ?s sample_lib] new_sharded_shape(1) by auto
  with run tr show ?thesis by blast
qed

lemma interval_count_exact_witness:
  "\<exists>as scns' r' tr s1. produceLogs sample_lib sample_config zero_time [sample_ls] (new_rng [4, 7]) = Some (as, scns', r') \<and>
    schedule as [] tr \<and> apply_events sample_lib tr \<lparr>sh_stats = NewShardedLogStats 3 [0, 1], sh_needles = [], sh_total = 0,
      sh_loaded = 0, sh_sent = []\<rparr> = Some s1 \<and> sh_total s1 = of_nat (delivered tr)"
proof -
  obtain as scns' r' tr s1 where run: "produceLogs sample_lib sample_config zero_time [sample_ls] (new_rng [4, 7]) = Some (as, scns', r')"
    "schedule as [] tr" "apply_events sample_lib tr \<lparr>sh_stats = NewShardedLogStats 3 [0, 1], sh_needles = [], sh_total = 0,
      sh_loaded = 0, sh_sent = []\<rparr> = Some s1" using sample_interval by blast
  have "\<forall>scn \<in> set [sample_ls]. scenario_ready sample_lib scn" "race_free [sample_ls]" by (simp_all add: sample_ls_ready)
  from interval_count_exact [OF this run] run show ?thesis by auto
qed

lemma batches_concat: "batches_of (concat ws) = concat (map batches_of ws)"
  by (induction ws) simp_all

lemma count_concat: "LogRecordCount (concat bs) = (\<Sum>b\<leftarrow>bs. LogRecordCount b)"
  by (induction bs) (simp_all add: LogRecordCount_def)

lemma produce_active:
  assumes "scenario_ready G scn" and "logs_per_interval (ls_config scn) \<noteq> 0"
  shows "\<exists>as scn' base' r' logs. produce_scenario G cfg t scn base r = Some (as, scn', base', r') \<and> 0 < logs \<and>
    scenario_actions scn logs base as"
proof -
  have "0 < logs_per_interval (ls_config scn)" using assms by (auto simp: scenario_ready_def Let_def)
  then have "0 < effective_logs (logs_per_interval (ls_config scn)) dm vm" for dm vm
    using effective_logs_pos [of _ dm vm] by fastforce
  then show ?thesis
    using produce_scenario_yields [OF assms(1), of cfg t base r] assms(2) unfolding yields_ex by (auto simp only: prod.case if_False) blast
qed

text \<open>Every block of a plan has a record.\<close>

lemma plan_count:
  assumes "scenario_ready G scn" and "0 < logs" and "blocks b = instance_plan scn logs [0..scale (ls_config scn) - 1]"
  shows "scale (ls_config scn) \<le> int (LogRecordCount b)"
proof -
  have "1 \<le> int (length (rl_records rl))" if "rl \<in> set b" for rl
  proof -
    have "(rl_resource rl, int (length (rl_records rl))) \<in> set (blocks b)" using that by (auto simp: blocks_def)
    then obtain i where "0 \<le> i" "i < scale (ls_config scn)"
      "int (length (rl_records rl)) = the (applyInstanceMultiplier logs (ls_multipliers scn) i)"
      unfolding assms(3) by (auto simp: instance_plan_def)
    moreover have "pred_option (\<lambda>ms. int (length ms) = scale (ls_config scn)) (ls_multipliers scn)"
      using assms(1) by (simp add: scenario_ready_def Let_def)
    ultimately show ?thesis using apply_multiplier_yields assms(2) by (fastforce simp: yields_ex)
  qed
  then have "(\<Sum>rl\<leftarrow>b. 1) \<le> (\<Sum>rl\<leftarrow>b. length (rl_records rl))" by (intro sum_list_mono) simp
  then have "length b \<le> LogRecordCount b" by (simp add: LogRecordCount_def sum_list_triv)
  moreover have "length b = length [0..scale (ls_config scn) - 1]"
    using assms(3) by (metis blocks_def instance_plan_def length_map)
  ultimately show ?thesis by simp
qed

text \<open>
  C14. The count of an interval can lose every record of the workers. This is about a receiver
  with exactly two scenarios, the first with workers and the second logged by the caller itself:
  there is a schedule after which the returned count is that of the caller's batch alone,
  although the consumer has received the workers' batches, with at least one record for each
  of their instances. (With more scenarios, workers that the caller starts after its store add to
  the count as they should.) The caller's
  \<open>totalLogs += n\<close> is not atomic, and the workers' additions fall between its load and its
  store.
\<close>

theorem caller_count_race:
  assumes "scenario_ready G w" "scenario_ready G c" and "starts_workers w" and "logs_inline c"
    and "sh_stats s \<noteq> []" and "sh_total s = 0"
  shows "\<exists>as scns' r' tr s' bs b. produceLogs G cfg t [w, c] r = Some (as, scns', r') \<and> schedule as [] tr \<and>
    apply_events G tr s = Some s' \<and> sh_sent s' = sh_sent s @ bs @ [b] \<and>
    sh_total s' = of_nat (LogRecordCount b) \<and> scale (ls_config w) \<le> int (\<Sum>b\<leftarrow>bs. LogRecordCount b)"
proof -
  obtain as1 w' base r1 lw where w: "produce_scenario G cfg t w 1 r = Some (as1, w', base, r1)"
    and lw: "0 < lw" and aw: "scenario_actions w lw 1 as1"
    using produce_active [OF assms(1), of cfg t 1 r] assms(3) by (auto simp: starts_workers_def)
  obtain as2 c' base2 r2 lc where c: "produce_scenario G cfg t c base r1 = Some (as2, c', base2, r2)"
    and ac: "scenario_actions c lc base as2"
    using produce_active [OF assms(2), of cfg t base r1] assms(4) by (auto simp: logs_inline_def)
  from aw assms(3) have ws: "as1 = map Spawn (started as1)" using scenario_actions_shape by (metis starts_workers_def)
  have batches: "blocks (concat (concat (map batches_of (started as1)))) = instance_plan w lw [0..scale (ls_config w) - 1]"
    using scenario_actions_blocks [OF assms(1) aw] ws by (metis actions_map(3) goroutines_def append_Nil batches_of.simps(1) concat.simps(2) list.simps(9))
  from ac assms(4) obtain evs where as2: "as2 = map Do evs" and "\<exists>plan. delivers load_store 0 plan evs"
    by (auto simp: scenario_actions_def Let_def logs_inline_def)
  then obtain evs0 b where evs: "evs = evs0 @ [TotalLoad, TotalStore (of_nat (LogRecordCount b)), Consume b]"
    and evs0: "list_all record_event evs0" by (auto simp: delivers_def batch_match_def)
  let ?ws = "started as1"
  let ?tr = "(evs0 @ [TotalLoad]) @ concat ?ws @ [TotalStore (of_nat (LogRecordCount b)), Consume b]"
  have run: "produceLogs G cfg t [w, c] r = Some (map Spawn ?ws @ map Do evs, [w', c'], r2)"
    using w c ws as2 by (simp add: produceLogs_def)
  have "schedule (map Do [TotalStore (of_nat (LogRecordCount b)), Consume b] @ []) ([] @ map (\<lambda>_. []) ?ws)
      ([TotalStore (of_nat (LogRecordCount b)), Consume b] @ [])"
    by (rule schedule_caller) (auto intro: schedule.finish)
  from schedule_start [OF schedule_caller [OF schedule_workers [OF this]], of "evs0 @ [TotalLoad]"]
  have sched: "schedule (map Spawn ?ws @ map Do evs) [] ?tr" by (simp add: evs)
  have acts: "interval_actions 1 (map Spawn ?ws @ map Do evs)"
    by (rule produceLogs_actions(1) [OF _ run]) (simp add: assms(1,2))
  obtain s' where s': "apply_events G ?tr s = Some s'" "sh_sent s' = sh_sent s @ batches_of ?tr"
    "(sh_total s', sh_loaded s') = fold total_effect ?tr (sh_total s, sh_loaded s)"
    using apply_events_run [OF schedule_nonneg [OF acts sched] assms(5), of G] by blast
  have "\<forall>x \<in> set ?ws. \<exists>sh plan. delivers atomic_add sh plan x" using interval_workers [OF acts] by simp
  then have "TotalLoad \<notin> set (concat ?ws)" "\<forall>n. TotalStore n \<notin> set (concat ?ws)" using worker_total(2,3) by fastforce+
  then have "fold total_effect ?tr (0, l) = (of_nat (LogRecordCount b), 0)" for l
    using evs0 by (simp add: only_adds_total)
  then have "sh_total s' = of_nat (LogRecordCount b)" using s'(3) assms(6) by (metis prod.inject)
  moreover have "batches_of ?tr = concat (map batches_of ?ws) @ [b]"
    using evs0 by (simp add: batches_concat)
  moreover have "scale (ls_config w) \<le> int (\<Sum>b\<leftarrow>concat (map batches_of ?ws). LogRecordCount b)"
    using plan_count [OF assms(1) lw batches] by (simp add: count_concat)
  ultimately show ?thesis using run sched s'(1,2) by auto
qed

definition sample_inline :: log_scenario where
  "sample_inline = sample_ls\<lparr>ls_config := (ls_config sample_ls)\<lparr>concurrency := 0\<rparr>\<rparr>"

lemma sample_inline_ready: "scenario_ready sample_lib sample_inline"
  using sample_ls_ready by (simp add: scenario_ready_def sample_inline_def Let_def i64_def)

lemma caller_count_race_witness:
  "\<exists>as scns' r' tr s' bs b. produceLogs sample_lib sample_config zero_time [sample_ls, sample_inline] (new_rng [4, 7]) = Some (as, scns', r') \<and>
    schedule as [] tr \<and> apply_events sample_lib tr \<lparr>sh_stats = NewShardedLogStats 3 [0, 1], sh_needles = [], sh_total = 0,
      sh_loaded = 0, sh_sent = []\<rparr> = Some s' \<and> sh_sent s' = bs @ [b] \<and>
    sh_total s' = of_nat (LogRecordCount b) \<and> 2 \<le> int (\<Sum>b\<leftarrow>bs. LogRecordCount b)"
proof -
  have "starts_workers sample_ls" "logs_inline sample_inline"
    by (simp_all add: starts_workers_def logs_inline_def sample_ls_def sample_inline_def)
  from caller_count_race [OF sample_ls_ready sample_inline_ready this, of "\<lparr>sh_stats = NewShardedLogStats 3 [0, 1],
      sh_needles = [], sh_total = 0, sh_loaded = 0, sh_sent = []\<rparr>" sample_config zero_time "new_rng [4, 7]"]
  show ?thesis using new_sharded_shape(1) by (simp add: sample_ls_def)
qed

end
