(* ===== verification/Progress.thy ===== *)
theory Progress
  imports Config
begin

text \<open>
  The progress of a run (\<open>logsProgress\<close> in \<open>receiver.go\<close>) and the messages that the receiver
  writes to the collector's log: the share of the time range that is done, the records sent so
  far, and their rate. A reading of the wall clock is an argument, one for each reading. The lemmas
  show that the percentage is one.
\<close>

subsection \<open>Durations\<close>

text \<open>\<open>Time.Sub\<close> saturates.\<close>

definition sub_time :: "gotime \<Rightarrow> gotime \<Rightarrow> int" where
  "sub_time t u = max (- (2 ^ 63)) (min (2 ^ 63 - 1) (unix_ns t - unix_ns u))"

text \<open>\<open>Duration.Round\<close> and \<open>Duration.String\<close>\<close>

definition round_duration :: "int \<Rightarrow> int \<Rightarrow> int" where
  "round_duration d m =
     (if m \<le> 0 then d
      else let r = \<bar>rem_go d m\<bar>
        in if d < 0
           then (if r + r < m then d + r else if - (2 ^ 63) \<le> d - m + r then d - m + r else - (2 ^ 63))
           else (if r + r < m then d - r else if d + m - r < 2 ^ 63 then d + m - r else 2 ^ 63 - 1))"

definition frac_text :: "nat \<Rightarrow> nat \<Rightarrow> string" where
  "frac_text v prec =
     (let ds = fmt_nat 10 (v mod 10 ^ prec);
          shown = rev (dropWhile (\<lambda>c. c = CHR ''0'') (rev (replicate (prec - length ds) (CHR ''0'') @ ds)))
      in if shown = [] then [] else CHR ''.'' # shown)"

definition duration_text :: "nat \<Rightarrow> string" where
  "duration_text u =
     (if u = 0 then ''0s''
      else if u < 1000 then fmt_nat 10 u @ ''ns''
      else if u < 1000000 then fmt_nat 10 (u div 1000) @ frac_text u 3 @ [CHR 0xC2, CHR 0xB5, CHR ''s'']
      else if u < 1000000000 then fmt_nat 10 (u div 1000000) @ frac_text u 6 @ ''ms''
      else let s = u div 1000000000; m = s div 60; h = m div 60
        in (if h = 0 then [] else fmt_nat 10 h @ ''h'') @ (if m = 0 then [] else fmt_nat 10 (m mod 60) @ ''m'') @
           fmt_nat 10 (s mod 60) @ frac_text u 9 @ ''s'')"

definition duration_string :: "int \<Rightarrow> string" where
  "duration_string d = (if d < 0 then CHR ''-'' # duration_text (nat (- d)) else duration_text (nat d))"

subsection \<open>Progress\<close>

record logs_progress =
  progress_start :: gotime
  log_count :: "64 word"

definition newLogsProgress :: "gotime \<Rightarrow> logs_progress" where
  "newLogsProgress now = \<lparr>progress_start = now, log_count = 0\<rparr>"

definition progress_duration :: "logs_progress \<Rightarrow> gotime \<Rightarrow> int" where
  "progress_duration p now = sub_time now (progress_start p)"

definition logsPerSecond :: "logs_progress \<Rightarrow> gotime \<Rightarrow> f64" where
  "logsPerSecond p now = fdiv (of_i64 (uint (log_count p))) (seconds (progress_duration p now))"

subsection \<open>Messages\<close>

datatype message =
    GeneratingLogs int "64 word" f64
  | WaitingBeforeExit int
  | ExitingImmediately
  | RunSummary string
  | FinishedLogs "64 word" string f64

definition progress_percent :: "config \<Rightarrow> gotime \<Rightarrow> int" where
  "progress_percent cfg t =
     to_i64 (fmul (fdiv (seconds (sub_time t (start_time cfg))) (seconds (sub_time (end_time cfg) (start_time cfg)))) (Fin 100))"

text \<open>
  The report at the beginning of an iteration, ten seconds after the previous one at the
  earliest: the time of the next report and the messages. The clock is read twice, for the comparison and for the rate.
\<close>

definition report_interval :: int where
  "report_interval = 10 * second_ns"

definition report_progress ::
    "config \<Rightarrow> logs_progress \<Rightarrow> gotime \<Rightarrow> gotime \<Rightarrow> gotime \<Rightarrow> gotime \<Rightarrow> gotime \<times> message list" where
  "report_progress cfg p t next_log now now' =
     (if after_time now next_log
      then (add_time next_log report_interval, [GeneratingLogs (progress_percent cfg t) (log_count p) (logsPerSecond p now')])
      else (next_log, []))"

subsection \<open>The percentage\<close>

lemma seconds_split:
  assumes "0 \<le> d" and "i64 d"
  obtains v where "rnd (of_int (d mod second_ns) / 1000000000) = Fin v" and "0 \<le> v" and "v \<le> 1"
    and "seconds d = rnd (of_int (d div second_ns) + v)" and "d div second_ns \<le> 2 ^ 34"
proof -
  have r: "0 \<le> d mod second_ns" "d mod second_ns \<le> 1000000000" by (simp_all add: second_ns_def)
  have q: "0 \<le> d div second_ns" "d div second_ns \<le> 2 ^ 34"
    using assms zdiv_mono1 [of d "2 ^ 63" second_ns] by (simp_all add: second_ns_def i64_def pos_imp_zdiv_nonneg_iff)
  have "of_int (d mod second_ns) \<le> (of_int 1000000000 :: rat)" unfolding of_int_le_iff by (rule r)
  then have "of_int (d mod second_ns) / 1000000000 \<le> (1 :: rat)" by simp
  from rnd_le [OF this rnd_1] have "fle (rnd (of_int (d mod second_ns) / 1000000000)) (Fin 1)" .
  moreover have "nonneg (rnd (of_int (d mod second_ns) / 1000000000))" using r by (intro nonneg_rnd) simp
  ultimately obtain v where v: "rnd (of_int (d mod second_ns) / 1000000000) = Fin v" "0 \<le> v" "v \<le> 1"
    by (cases "rnd (of_int (d mod second_ns) / 1000000000)") auto
  moreover have "of_i64 (d div second_ns) = Fin (of_int (d div second_ns))" using q by (intro of_i64_small) simp
  moreover have "of_i64 (d mod second_ns) = Fin (of_int (d mod second_ns))" using r by (intro of_i64_small) simp
  moreover have "div_go d second_ns = d div second_ns" "rem_go d second_ns = d mod second_ns"
    using assms(1) by (simp_all add: second_ns_def)
  ultimately show ?thesis using that q(2) by (simp add: seconds_def)
qed

lemma seconds_mono:
  assumes "0 \<le> d" and "d \<le> e" and "i64 e"
  shows "fle (seconds d) (seconds e)"
proof -
  have i: "0 \<le> e" "i64 d" using assms by (auto simp: i64_def)
  obtain v where v: "rnd (of_int (d mod second_ns) / 1000000000) = Fin v" "v \<le> 1" "seconds d = rnd (of_int (d div second_ns) + v)"
    using seconds_split [OF assms(1) i(2)] by blast
  obtain w where w: "rnd (of_int (e mod second_ns) / 1000000000) = Fin w" "0 \<le> w" "seconds e = rnd (of_int (e div second_ns) + w)"
    using seconds_split [OF i(1) assms(3)] by blast
  have le: "d div second_ns \<le> e div second_ns" using assms(2) by (rule zdiv_mono1) (simp add: second_ns_def)
  have "of_int (d div second_ns) + v \<le> of_int (e div second_ns) + w"
  proof (cases "d div second_ns = e div second_ns")
    case True
    then have "d mod second_ns \<le> e mod second_ns"
      using assms(2) by (simp add: minus_div_mult_eq_mod [symmetric])
    then have "of_int (d mod second_ns) / 1000000000 \<le> (of_int (e mod second_ns) / 1000000000 :: rat)"
      by (intro divide_right_mono) simp_all
    from rnd_mono [OF this] True show ?thesis by (simp add: v w)
  next
    case False
    then have "of_int (d div second_ns + 1) \<le> (of_int (e div second_ns) :: rat)" unfolding of_int_le_iff using le by simp
    then show ?thesis using v(2) w(2) by simp
  qed
  then show ?thesis unfolding v(3) w(3) by (rule rnd_mono)
qed

lemma seconds_pos:
  assumes "0 < d" and "i64 d"
  obtains x where "seconds d = Fin x" and "0 < x"
proof -
  obtain v where v: "rnd (of_int (d mod second_ns) / 1000000000) = Fin v" "0 \<le> v" "v \<le> 1" "seconds d = rnd (of_int (d div second_ns) + v)"
    "d div second_ns \<le> 2 ^ 34" using seconds_split [of d] assms by auto
  have q: "0 \<le> d div second_ns" using assms(1) by (simp add: second_ns_def pos_imp_zdiv_nonneg_iff)
  have ints: "rnd (of_int n) = Fin (of_int n)" if "0 \<le> n" "n \<le> 2 ^ 34 + 1" for n
    using that by (intro rnd_int) simp
  have "fle (seconds d) (Fin (of_int (d div second_ns + 1)))"
    unfolding v(4) using v(3,5) q by (intro rnd_le ints) simp_all
  moreover have "\<exists>e > 0. fle (Fin e) (seconds d)"
  proof (cases "d < second_ns")
    case True
    then have m: "d div second_ns = 0" "d mod second_ns = d" using assms(1) by simp_all
    have "rnd_pos (of_int 1 * 2 powi (- 30)) = of_int 1 * 2 powi (- 30)" by (rule rnd_pos_exact) simp_all
    then have rr: "rnd_rat (1 / 1073741824) = 1 / 1073741824" by (simp add: rnd_rat_def power_int_def power_divide)
    have "(1::rat) < fbound" unfolding fbound_def by (rule one_less_power) simp_all
    then have "\<not> fbound \<le> 1 / 1073741824" and "\<not> 1 / 1073741824 \<le> - fbound" by linarith+
    then have c: "rnd (1 / 1073741824) = Fin (1 / 1073741824)" by (simp add: rnd_def rr)
    have "of_int 1 \<le> (of_int d :: rat)" unfolding of_int_le_iff using assms(1) by simp
    then have "1 / 1073741824 \<le> (of_int d / 1000000000 :: rat)" by (simp add: field_simps)
    from rnd_ge [OF this c] have "1 / 1073741824 \<le> v" using v(1) m by simp
    then have "fle (Fin (1 / 1073741824)) (seconds d)" unfolding v(4) using m by (intro rnd_ge c) simp
    then show ?thesis by (intro exI [of _ "1 / 1073741824"]) simp
  next
    case False
    then have "1 \<le> d div second_ns" using zdiv_mono1 [of second_ns d second_ns] by (simp add: second_ns_def)
    then have "of_int 1 \<le> (of_int (d div second_ns) :: rat)" unfolding of_int_le_iff .
    then have "fle (Fin 1) (seconds d)" unfolding v(4) using v(2) by (intro rnd_ge rnd_1) simp
    then show ?thesis by (intro exI [of _ 1]) simp
  qed
  ultimately show ?thesis using that by (cases "seconds d") auto
qed

text \<open>The values that the source computes, one after the other.\<close>

lemma percent_steps:
  assumes "unix_ns (start_time cfg) \<le> unix_ns t" and "unix_ns t < unix_ns (end_time cfg)"
  obtains y x q p where "seconds (sub_time (end_time cfg) (start_time cfg)) = Fin y" and "0 < y"
    and "seconds (sub_time t (start_time cfg)) = Fin x" and "rnd (x / y) = Fin q" and "rnd (q * 100) = Fin p"
    and "0 \<le> p" and "p \<le> 100" and "progress_percent cfg t = \<lfloor>p\<rfloor>"
proof -
  define d e where "d = sub_time t (start_time cfg)" and "e = sub_time (end_time cfg) (start_time cfg)"
  have de: "0 \<le> d" "d \<le> e" "0 < e" "i64 d" "i64 e" using assms by (auto simp: d_def e_def sub_time_def i64_def)
  obtain y where y: "seconds e = Fin y" "0 < y" using seconds_pos de by blast
  have le: "fle (seconds d) (Fin y)" using seconds_mono [OF de(1,2,5)] y by simp
  have "seconds 0 = Fin 0" by (simp add: seconds_def of_i64_small second_ns_def)
  then have "fle (Fin 0) (seconds d)" using seconds_mono [of 0 d] de by simp
  with le obtain x where x: "seconds d = Fin x" "0 \<le> x" "x \<le> y" by (cases "seconds d") auto
  have "fle (rnd (x / y)) (Fin 1)" using x y by (intro rnd_le rnd_1) simp
  moreover have "nonneg (rnd (x / y))" using x y by (intro nonneg_rnd) simp
  ultimately obtain q where q: "rnd (x / y) = Fin q" "0 \<le> q" "q \<le> 1" by (cases "rnd (x / y)") auto
  have "fle (rnd (q * 100)) (Fin 100)" using q rnd_int [of 100] by (intro rnd_le) simp_all
  moreover have "nonneg (rnd (q * 100))" using q by (intro nonneg_rnd) simp
  ultimately obtain p where p: "rnd (q * 100) = Fin p" "0 \<le> p" "p \<le> 100" by (cases "rnd (q * 100)") auto
  have "progress_percent cfg t = to_i64 (Fin p)"
    unfolding progress_percent_def d_def [symmetric] e_def [symmetric] using x y q p by simp
  moreover have "0 \<le> \<lfloor>p\<rfloor>" "\<lfloor>p\<rfloor> \<le> 100" using p by (simp_all add: floor_le_iff)
  ultimately have "progress_percent cfg t = \<lfloor>p\<rfloor>" using p by (simp add: trunc_rat_def Let_def)
  with y x q p that show ?thesis by (simp add: d_def e_def)
qed

lemma progress_percent_range:
  "unix_ns (start_time cfg) \<le> unix_ns t \<Longrightarrow> unix_ns t < unix_ns (end_time cfg) \<Longrightarrow>
   0 \<le> progress_percent cfg t \<and> progress_percent cfg t \<le> 100"
  by (erule (1) percent_steps) (simp add: floor_le_iff)

lemma progress_percent_start:
  assumes "unix_ns (start_time cfg) < unix_ns (end_time cfg)"
  shows "progress_percent cfg (start_time cfg) = 0"
proof -
  have "seconds (sub_time (start_time cfg) (start_time cfg)) = Fin 0" by (simp add: sub_time_def seconds_def of_i64_small second_ns_def)
  then show ?thesis using percent_steps [OF order_refl assms] by (metis div_0 f64.inject floor_zero mult_zero_left rnd_0)
qed

lemma progress_percent_mono:
  assumes "unix_ns (start_time cfg) \<le> unix_ns t" and "unix_ns t \<le> unix_ns u" and "unix_ns u < unix_ns (end_time cfg)"
  shows "progress_percent cfg t \<le> progress_percent cfg u"
proof -
  have t: "unix_ns t < unix_ns (end_time cfg)" and u: "unix_ns (start_time cfg) \<le> unix_ns u" using assms by simp_all
  obtain y x q p where 1: "seconds (sub_time (end_time cfg) (start_time cfg)) = Fin y" "0 < y"
    "seconds (sub_time t (start_time cfg)) = Fin x" "rnd (x / y) = Fin q" "rnd (q * 100) = Fin p" "progress_percent cfg t = \<lfloor>p\<rfloor>"
    using percent_steps [OF assms(1) t] by metis
  obtain y' x' q' p' where 2: "seconds (sub_time (end_time cfg) (start_time cfg)) = Fin y'"
    "seconds (sub_time u (start_time cfg)) = Fin x'" "rnd (x' / y') = Fin q'" "rnd (q' * 100) = Fin p'" "progress_percent cfg u = \<lfloor>p'\<rfloor>"
    using percent_steps [OF u assms(3)] by metis
  have "fle (seconds (sub_time t (start_time cfg))) (seconds (sub_time u (start_time cfg)))"
    using assms by (intro seconds_mono) (auto simp: sub_time_def i64_def)
  then have "x \<le> x'" by (simp add: 1 2)
  then have "fle (rnd (x / y)) (rnd (x' / y))" using 1(2) by (intro rnd_mono) (simp add: divide_right_mono)
  then have "q \<le> q'" using 1 2 by simp
  then have "fle (rnd (q * 100)) (rnd (q' * 100))" by (intro rnd_mono) simp
  then show ?thesis using 1 2 by (simp add: floor_mono)
qed

end
