(* ===== verification/Construct.thy ===== *)
theory Construct
  imports Schedules Profiles LogTmpl Progress
begin

text \<open>
  The constructor of the receiver (\<open>newLogsGenReceiver\<close> and \<open>createLogsReceiver\<close>): the time
  range, the scenarios with their resources, profiles and shares, the counters of the needles
  and the shards of the statistics. It may return an error or panic; what a receiver it returns
  is ready for is \<open>receiver_ready\<close>.
\<close>

subsection \<open>The receiver\<close>

record logs_gen_receiver =
  rcv_cfg :: config
  base_rand :: rng
  rcv_scenarios :: "log_scenario list"
  needle_occurrences :: counts
  rcv_stats :: sharded
  rcv_progress :: logs_progress

datatype receiver_error = ObsReportFailed | ResolvingScenarios cfg_error | TemplateFailed tmpl_error

definition resolve_times :: "gotime \<Rightarrow> config \<Rightarrow> config" where
  "resolve_times now cfg =
     (let nowish = truncate_second now;
          cfg1 = (if is_zero_time (start_time cfg) then cfg\<lparr>start_time := add_time nowish (w64 (- start_now_minus cfg))\<rparr> else cfg)
      in if is_zero_time (end_time cfg1) then cfg1\<lparr>end_time := add_time nowish (w64 (- end_now_minus cfg1))\<rparr> else cfg1)"

text \<open>The name for the profile of a template that is not built in: \<open>Str\<close> of another type is empty.\<close>

definition service_name_of :: "attrs list \<Rightarrow> string" where
  "service_name_of resources =
     (case resources of [] \<Rightarrow> ''unknown''
      | res # _ \<Rightarrow> (case map_of res ''service.name'' of None \<Rightarrow> ''unknown'' | Some (PStr s) \<Rightarrow> s | Some _ \<Rightarrow> []))"

text \<open>One iteration of the loop that builds the scenarios; shares come later.\<close>

definition build_scenario ::
    "golib \<Rightarrow> ('t, 'm) tmpl_lib \<Rightarrow> gotime \<Rightarrow> scenario_cfg \<Rightarrow> rng \<Rightarrow> ((receiver_error + log_scenario) \<times> rng) option" where
  "build_scenario G L start scn r =
     do { (res, r1) \<leftarrow> GetLogResources G L (scn_path scn) start (scale scn) (template_vars scn) r;
          case res of Inl e \<Rightarrow> Some (Inl (TemplateFailed e), r1)
          | Inr rs \<Rightarrow> do {
              let ip_cfg = map_option (\<lambda>p. \<lparr>pool_cidrs = cfg_cidrs p, pool_size = 0, pool_skew = cfg_zipf_skew p\<rparr>) (ip_pool scn);
              (po, _, r2) \<leftarrow> GetAppProfile G (scn_path scn) (Some r1) ip_cfg (scale scn);
              let prof = (case po of Some p \<Rightarrow> p | None \<Rightarrow> GenericProfile G (service_name_of rs));
              let prepared = PrepareProfile prof;
              let prepared' = (case severity_weights scn of None \<Rightarrow> prepared | Some w \<Rightarrow> OverrideSeverityWeights w prepared);
              Some (Inr \<lparr>ls_config = scn, ls_resources = rs, ls_prepared = prepared',
                         ls_volume = \<lparr>multiplier = Fin 0, remaining_intervals = 0\<rparr>, ls_multipliers = None\<rparr>, r2) } }"

fun build_scenarios ::
    "golib \<Rightarrow> ('t, 'm) tmpl_lib \<Rightarrow> gotime \<Rightarrow> scenario_cfg list \<Rightarrow> rng \<Rightarrow> ((receiver_error + log_scenario list) \<times> rng) option" where
  "build_scenarios G L start [] r = Some (Inr [], r)"
| "build_scenarios G L start (scn # scns) r =
     do { (x, r1) \<leftarrow> build_scenario G L start scn r;
          case x of Inl e \<Rightarrow> Some (Inl e, r1)
          | Inr ls \<Rightarrow> do { (rest, r2) \<leftarrow> build_scenarios G L start scns r1; Some (map_sum id ((#) ls) rest, r2) } }"

fun build_multipliers :: "golib \<Rightarrow> log_scenario list \<Rightarrow> rng \<Rightarrow> (log_scenario list \<times> rng) option" where
  "build_multipliers G [] r = Some ([], r)"
| "build_multipliers G (ls # lss) r =
     do { (ms, r1) \<leftarrow> buildInstanceMultipliers G (scale (ls_config ls)) (instance_volume_skew (ls_config ls)) r;
          (rest, r2) \<leftarrow> build_multipliers G lss r1;
          Some (ls\<lparr>ls_multipliers := ms\<rparr> # rest, r2) }"

definition needle_names :: "scenario_cfg list \<Rightarrow> string list" where
  "needle_names scns = fold (\<lambda>n names. List.insert (needle_name n) names) (concat (map needles scns)) []"

text \<open>The number of workers of all scenarios, and the shards that track cardinality.\<close>

fun concurrent_shards :: "scenario_cfg list \<Rightarrow> int \<times> int list \<Rightarrow> int \<times> int list" where
  "concurrent_shards [] (tot, track) = (tot, track)"
| "concurrent_shards (scn # scns) (tot, track) =
     concurrent_shards scns (if 0 < concurrency scn then (tot + concurrency scn, track @ [1 + tot]) else (tot, track))"

definition make_stats :: "scenario_cfg list \<Rightarrow> sharded" where
  "make_stats scns =
     (let (tot, track) = concurrent_shards scns (0, [0]); n = 1 + tot
      in NewShardedLogStats (if n < 1 then 1 else n) track)"

text \<open>The wall clock is read twice, for the time range and for the progress.\<close>

definition newLogsGenReceiver ::
    "golib \<Rightarrow> ('t, 'm) tmpl_lib \<Rightarrow> profiles_file \<Rightarrow> bool \<Rightarrow> gotime \<Rightarrow> gotime \<Rightarrow> config \<Rightarrow> (receiver_error + logs_gen_receiver) option" where
  "newLogsGenReceiver G L file obs_ok now now' cfg0 =
     (if \<not> obs_ok then Some (Inl ObsReportFailed)
      else let cfg = resolve_times now cfg0; r = new_rand G (seed cfg)
           in case EffectiveScenarios G file cfg of Inl e \<Rightarrow> Some (Inl (ResolvingScenarios e))
              | Inr scns0 \<Rightarrow> do {
                  let scns = map (\<lambda>scn. scn\<lparr>diurnal_profile := apply_diurnal_defaults (diurnal_profile scn)\<rparr>) scns0;
                  (built, r1) \<leftarrow> build_scenarios G L (start_time cfg) scns r;
                  case built of Inl e \<Rightarrow> Some (Inl e)
                  | Inr lss \<Rightarrow> do {
                      (lss', r2) \<leftarrow> build_multipliers G lss r1;
                      Some (Inr \<lparr>rcv_cfg = cfg, base_rand = r2, rcv_scenarios = lss',
                        needle_occurrences = map (\<lambda>n. (n, 0)) (needle_names scns),
                        rcv_stats = make_stats scns, rcv_progress = newLogsProgress now'\<rparr>) } })"

subsection \<open>A receiver that is ready\<close>

definition receiver_ready :: "golib \<Rightarrow> logs_gen_receiver \<Rightarrow> bool" where
  "receiver_ready G rc \<longleftrightarrow> (\<forall>scn \<in> set (rcv_scenarios rc). scenario_ready G scn) \<and>
     workers_of (rcv_scenarios rc) < int (length (rcv_stats rc)) \<and>
     (\<forall>scn \<in> set (rcv_scenarios rc). needle_name ` set (needles (ls_config scn)) \<subseteq> fst ` set (needle_occurrences rc))"

text \<open>The numbers of a configuration are in the ranges of their types, products included.\<close>

definition numbers_in_range :: "scenario_cfg \<Rightarrow> bool" where
  "numbers_in_range scn \<longleftrightarrow> i64 (scale scn * concurrency scn) \<and>
     pred_option (\<lambda>vp. durations_i64 vp \<and> f64_ok (burst_probability vp)) (volume_profile scn)"

text \<open>The networks of a built-in profile are in dotted notation, with prefixes of at most 31 bits.\<close>

definition pool_networks_ok :: "golib \<Rightarrow> scenario_cfg \<Rightarrow> bool" where
  "pool_networks_ok G scn \<longleftrightarrow> pred_option (\<lambda>p. \<forall>c \<in> set (cfg_cidrs p). host_cidr G c) (ip_pool scn)"

text \<open>
  The template of a scenario renders a resource for each instance, if it can be rendered: the
  document of none of them is one without resources, such as \<open>{}\<close>, which the
  unmarshaler accepts.
\<close>

definition instance_model :: "golib \<Rightarrow> gotime \<Rightarrow> scenario_cfg \<Rightarrow> int \<Rightarrow> tmpl_model" where
  "instance_model G start scn i =
     \<lparr>instance_id = i, instance_vars = template_vars scn, instance_start_time = fmt_time_fn G ''2006-01-02T15:04:05Z07:00'' start\<rparr>"

definition renders_resources :: "golib \<Rightarrow> ('t, 'm) tmpl_lib \<Rightarrow> gotime \<Rightarrow> scenario_cfg \<Rightarrow> bool" where
  "renders_resources G L start scn \<longleftrightarrow> (\<forall>i r. 0 \<le> i \<and> i < scale scn \<longrightarrow>
     fst (RenderLogsTemplate L (scn_path scn @ ''-resource-attributes'') (instance_model G start scn i) r) \<noteq> Inr [])"

lemma render_panics:
  "RenderLogResource L path i start vars r = None \<longleftrightarrow> fst (RenderLogsTemplate L (path @ ''-resource-attributes'')
     \<lparr>instance_id = i, instance_vars = vars, instance_start_time = start\<rparr> r) = Inr []"
  by (auto simp: RenderLogResource_def split: prod.splits sum.splits list.splits)

lemma render_total:
  assumes "\<And>k r. i \<le> k \<Longrightarrow> k < i + int n \<Longrightarrow> RenderLogResource L path k start vars r \<noteq> None"
  shows "yields (render_instances L path start vars n i r) (\<lambda>_. True)"
  using assms
proof (induction n arbitrary: i r)
  case (Suc n)
  have one: "yields (RenderLogResource L path i start vars r) (\<lambda>_. True)"
    using Suc.prems [of i r] by (auto simp: yields_ex)
  have rest: "yields (render_instances L path start vars n (i + 1) r') (\<lambda>_. True)" for r'
    using Suc.prems by (intro Suc.IH) simp
  show ?case by (auto split: sum.splits intro!: yields_mono [OF one] yields_mono [OF rest])
qed simp

lemma cron_intervals_pos: "validate_cron_bursts i cbs = None \<Longrightarrow> \<forall>cb \<in> set cbs. 0 < cron_interval cb"
  by (induction i cbs rule: validate_cron_bursts.induct) (auto split: if_splits)

lemma validated_scenario:
  assumes "validate_scenario G scn = None"
  shows "0 \<le> scale scn" "0 \<le> concurrency scn" "0 < concurrency scn \<longrightarrow> concurrency scn dvd scale scn"
    "0 \<le> logs_per_interval scn" "validate_volume_profile (volume_profile scn) = None"
    "validate_diurnal_profile (diurnal_profile scn) = None"
  using assms rem_go_dvd [of "concurrency scn" "scale scn"]
  by (auto simp: validate_scenario_def split: if_splits)

lemma generic_profile_ok: "profile_ok (GenericProfile G name) \<and> app_messages (GenericProfile G name) \<noteq> []"
  by (auto simp: GenericProfile_def profile_ok_def Let_def part_eval)

lemma make_stats_length: "\<forall>scn \<in> set scns. 0 \<le> concurrency scn \<Longrightarrow> int (length (make_stats scns)) = 1 + (\<Sum>scn\<leftarrow>scns. concurrency scn)"
proof -
  assume c: "\<forall>scn \<in> set scns. 0 \<le> concurrency scn"
  then have "fst (concurrent_shards scns (tot, track)) = tot + (\<Sum>scn\<leftarrow>scns. concurrency scn)" for tot track
  proof (induction scns arbitrary: tot track)
    case (Cons scn scns)
    then have "concurrency scn = 0" if "\<not> 0 < concurrency scn" using that by force
    with Cons show ?case by auto
  qed simp
  moreover have "0 \<le> (\<Sum>scn\<leftarrow>scns. concurrency scn)" using c by (intro sum_list_nonneg) auto
  ultimately show ?thesis by (simp add: make_stats_def NewShardedLogStats_def split_beta Let_def)
qed

lemma app_profile_yields:
  assumes "zipf_ok G" and "pred_option (\<lambda>c. \<forall>n \<in> set (pool_cidrs c). host_cidr G n) cfg"
  shows "yields (GetAppProfile G path ro cfg n) (\<lambda>(po, _, _). pred_option (\<lambda>p. profile_ok p \<and> app_messages p \<noteq> []) po)"
proof (cases "trim_prefix path ''builtin/'' \<in> set builtin_paths")
  case True
  have "\<forall>c \<in> set (networks cfg). host_cidr G c"
    using assms(2) host_cidr_10 by (auto simp: networks_def split: option.splits)
  from profile_yields [OF True assms(1) this, of ro n] show ?thesis
    by (rule yields_mono) (auto simp: profile_complete_def)
next
  case False
  then show ?thesis by (simp add: GetAppProfile_def builtin_paths_def Let_def)
qed

lemma resources_yields:
  assumes "renders_resources G L start scn" and "0 \<le> scale scn"
  shows "yields (GetLogResources G L (scn_path scn) start (scale scn) (template_vars scn) r)
    (\<lambda>(x, _). \<forall>rs. x = Inr rs \<longrightarrow> int (length rs) = scale scn)"
proof -
  let ?t = "fmt_time_fn G ''2006-01-02T15:04:05Z07:00'' start"
  have "RenderLogResource L (scn_path scn) k ?t (template_vars scn) r' \<noteq> None" if "0 \<le> k" "k < 0 + int (nat (scale scn))" for k r'
    using assms that by (simp add: render_panics renders_resources_def instance_model_def)
  then obtain x r' where x: "render_instances L (scn_path scn) ?t (template_vars scn) (nat (scale scn)) 0 r = Some (x, r')"
    using render_total [of 0 "nat (scale scn)" L "scn_path scn" ?t "template_vars scn" r] by (auto simp: yields_ex)
  moreover have "length rs = nat (scale scn)" if "x = Inr rs" for rs using render_instances_Inr x that by blast
  ultimately show ?thesis using assms(2) by (auto simp: GetLogResources_def)
qed

text \<open>A scenario's configuration after its defaults: what the constructor may rely on.\<close>

definition config_ready :: "golib \<Rightarrow> scenario_cfg \<Rightarrow> bool" where
  "config_ready G scn \<longleftrightarrow> 0 \<le> scale scn \<and> 0 \<le> concurrency scn \<and> (0 < concurrency scn \<longrightarrow> concurrency scn dvd scale scn) \<and>
     i64 (scale scn * concurrency scn) \<and> 0 \<le> logs_per_interval scn \<and> pred_option roll_ok (volume_profile scn) \<and>
     pred_option (\<lambda>dp. \<forall>cb \<in> set (cron_bursts dp). cron_interval cb \<noteq> 0) (diurnal_profile scn) \<and> pool_networks_ok G scn"

lemma config_readyI:
  assumes "validate_scenario G scn = None" and "numbers_in_range scn" and "pool_networks_ok G scn"
  shows "config_ready G (scn\<lparr>diurnal_profile := apply_diurnal_defaults (diurnal_profile scn)\<rparr>)"
proof -
  note v = validated_scenario [OF assms(1)]
  have "pred_option roll_ok (volume_profile scn)"
    using v(5) assms(2) by (cases "volume_profile scn") (simp_all add: roll_ok_def numbers_in_range_def)
  moreover have "pred_option (\<lambda>dp. \<forall>cb \<in> set (cron_bursts dp). cron_interval cb \<noteq> 0) (apply_diurnal_defaults (diurnal_profile scn))"
  proof (cases "diurnal_profile scn")
    case (Some dp)
    then obtain dp' where dp': "apply_diurnal_defaults (Some dp) = Some dp'" by (simp add: apply_diurnal_defaults_def)
    have "validate_cron_bursts 0 (cron_bursts dp') = None" using ready_after_defaults [OF _ dp'] v(6) Some by (simp add: diurnal_ready_def)
    from cron_intervals_pos [OF this] dp' Some show ?thesis by fastforce
  qed (simp add: apply_diurnal_defaults_def)
  ultimately show ?thesis
    using v assms by (simp add: config_ready_def numbers_in_range_def pool_networks_ok_def)
qed

lemma override_messages [simp]: "app_messages (pp_profile (OverrideSeverityWeights w pp)) = app_messages (pp_profile pp)"
  by (simp add: OverrideSeverityWeights_def)

lemma build_scenario_yields:
  assumes c: "config_ready G scn" and L: "renders_resources G L start scn" and G: "zipf_ok G"
  shows "yields (build_scenario G L start scn r) (\<lambda>(x, _). \<forall>ls. x = Inr ls \<longrightarrow>
    scenario_ready G ls \<and> ls_config ls = scn \<and> ls_multipliers ls = None)"
proof -
  have pool: "pred_option (\<lambda>c. \<forall>n \<in> set (pool_cidrs c). host_cidr G n)
      (map_option (\<lambda>p. \<lparr>pool_cidrs = cfg_cidrs p, pool_size = 0, pool_skew = cfg_zipf_skew p\<rparr>) (ip_pool scn))"
    using c by (simp add: config_ready_def pool_networks_ok_def option.pred_map comp_def)
  have n: "0 \<le> scale scn" using c by (simp add: config_ready_def)
  have prep: "prepared_ok pp \<and> app_messages (pp_profile pp) \<noteq> []"
    if "pred_option (\<lambda>p. profile_ok p \<and> app_messages p \<noteq> []) po"
      "pp = (let prepared = PrepareProfile (case po of Some p \<Rightarrow> p | None \<Rightarrow> GenericProfile G name)
        in case w of None \<Rightarrow> prepared | Some w \<Rightarrow> OverrideSeverityWeights w prepared)" for po pp w name
    using that generic_profile_ok [of G name] by (auto simp: Let_def split: option.splits)
  show ?thesis
    unfolding build_scenario_def yields_bind
    by (rule yields_mono [OF resources_yields [OF L n]], clarsimp split: sum.splits,
        rule yields_mono [OF app_profile_yields [OF G pool]])
      (use c prep in \<open>auto simp: scenario_ready_def config_ready_def Let_def\<close>)
qed

lemma build_scenarios_yields:
  assumes "zipf_ok G"
  shows "\<forall>scn \<in> set scns. config_ready G scn \<and> renders_resources G L start scn \<Longrightarrow> yields (build_scenarios G L start scns r) (\<lambda>(x, _). \<forall>lss. x = Inr lss \<longrightarrow>
    map ls_config lss = scns \<and> (\<forall>ls \<in> set lss. scenario_ready G ls \<and> ls_multipliers ls = None))"
proof (induction scns arbitrary: r)
  case (Cons scn scns)
  have c: "config_ready G scn" "renders_resources G L start scn"
    and cs: "\<forall>scn \<in> set scns. config_ready G scn \<and> renders_resources G L start scn" using Cons.prems by simp_all
  show ?case
    by (auto simp: map_sum_def split: sum.splits intro!: yields_mono [OF build_scenario_yields [OF c assms]] yields_mono [OF Cons.IH [OF cs]])
qed simp

lemma build_multipliers_all:
  "\<forall>ls \<in> set lss. scenario_ready G ls \<Longrightarrow>
   yields (build_multipliers G lss r) (\<lambda>(lss', _). map ls_config lss' = map ls_config lss \<and> (\<forall>ls \<in> set lss'. scenario_ready G ls))"
proof (induction lss arbitrary: r)
  case (Cons ls lss)
  have ls: "scenario_ready G ls" and lss: "\<forall>ls \<in> set lss. scenario_ready G ls" using Cons.prems by simp_all
  have n: "0 \<le> scale (ls_config ls)" using ls by (simp add: scenario_ready_def Let_def)
  have "scenario_ready G (ls\<lparr>ls_multipliers := ms\<rparr>)" if "pred_option (\<lambda>xs. int (length xs) = scale (ls_config ls)) ms" for ms
    using ls that by (simp add: scenario_ready_def Let_def)
  then show ?case
    by (auto intro!: yields_mono [OF build_multipliers_yields [OF n]] yields_mono [OF Cons.IH [OF lss]])
qed simp

lemma set_needle_names: "set (needle_names scns) = (\<Union>scn \<in> set scns. needle_name ` set (needles scn))"
proof -
  have "set (fold (\<lambda>n names. List.insert (needle_name n) names) ns acc) = needle_name ` set ns \<union> set acc" for ns acc
    by (induction ns arbitrary: acc) auto
  from this [of "concat (map needles scns)" "[]"] show ?thesis by (auto simp: needle_names_def)
qed

lemma workers_of_le:
  "\<forall>ls \<in> set lss. 0 \<le> concurrency (ls_config ls) \<Longrightarrow> workers_of lss \<le> (\<Sum>scn\<leftarrow>map ls_config lss. concurrency scn)"
  unfolding workers_of_def map_map comp_def by (intro sum_list_mono) auto

lemma built_ready:
  assumes ready: "\<forall>ls \<in> set lss. scenario_ready G ls" and cfgs: "map ls_config lss = scns"
    and stats: "rcv_stats rc = make_stats scns" "needle_occurrences rc = map (\<lambda>n. (n, 0)) (needle_names scns)" "rcv_scenarios rc = lss"
  shows "receiver_ready G rc"
proof -
  have c: "\<forall>ls \<in> set lss. 0 \<le> concurrency (ls_config ls)" using ready by (simp add: scenario_ready_def Let_def)
  then have "\<forall>scn \<in> set scns. 0 \<le> concurrency scn" using cfgs by auto
  from make_stats_length [OF this] workers_of_le [OF c] have "workers_of lss < int (length (make_stats scns))"
    by (simp add: cfgs)
  moreover have "needle_name ` set (needles (ls_config ls)) \<subseteq> set (needle_names scns)" if "ls \<in> set lss" for ls
    using that unfolding set_needle_names cfgs [symmetric] by fastforce
  ultimately show ?thesis using ready by (auto simp: receiver_ready_def stats image_image)
qed

text \<open>Validation and construction see the same scenarios, whatever the clock says.\<close>

lemma resolve_times_scenarios [simp]: "EffectiveScenarios G file (resolve_times now cfg) = EffectiveScenarios G file cfg"
proof -
  have "profile (resolve_times now cfg) = profile cfg" "scenarios (resolve_times now cfg) = scenarios cfg"
    by (simp_all add: resolve_times_def Let_def)
  then show ?thesis by (simp add: EffectiveScenarios_def split: sum.splits option.splits)
qed

text \<open>
  C4. The constructor. Take a validated configuration whose numbers are in the ranges of their
  types, whose networks are dotted ones with room for a host (C33 is about one without), and
  whose scenarios' templates render a resource for each instance wherever they render without
  an error (\<open>empty_document_panics\<close> is about one that does not). From it the constructor never panics,
  and a receiver that it returns is ready: every scenario has a resource and a share for each
  instance, a profile that generates, and settings that no interval can panic on; there is a
  shard for each worker and one more; every needle has a counter; nothing is counted yet.
\<close>

theorem new_receiver_ready:
  assumes "Validate G file cfg = None" and "zipf_ok G"
    and "\<forall>scns. EffectiveScenarios G file cfg = Inr scns \<longrightarrow>
      (\<forall>scn \<in> set scns. numbers_in_range scn \<and> pool_networks_ok G scn \<and>
        renders_resources G L (start_time (resolve_times now cfg)) scn)"
  shows "\<exists>res. newLogsGenReceiver G L file obs_ok now now' cfg = Some res \<and>
    (\<forall>rc. res = Inr rc \<longrightarrow> receiver_ready G rc \<and> log_count (rcv_progress rc) = 0 \<and> total_logs (Merge (rcv_stats rc)) = 0)"
proof -
  obtain scns0 where valid: "EffectiveScenarios G file cfg = Inr scns0" "validate_scenarios G scns0 = None"
    using effective_valid [OF assms(1)] by blast
  then have eff: "EffectiveScenarios G file (resolve_times now cfg) = Inr scns0" by simp
  define scns where "scns = map (\<lambda>scn. scn\<lparr>diurnal_profile := apply_diurnal_defaults (diurnal_profile scn)\<rparr>) scns0"
  have "\<forall>scn \<in> set scns0. validate_scenario G scn = None" using valid(2) by (induction scns0) auto
  moreover have "renders_resources G L t (scn\<lparr>diurnal_profile := d\<rparr>) = renders_resources G L t scn" for t scn d
    by (simp add: renders_resources_def instance_model_def)
  ultimately have cfgs: "\<forall>scn \<in> set scns. config_ready G scn \<and> renders_resources G L (start_time (resolve_times now cfg)) scn"
    using assms(3) valid(1) by (auto simp: scns_def intro!: config_readyI)
  have zero: "total_logs (Merge (make_stats scns)) = 0"
    by (simp add: Merge_sel make_stats_def NewShardedLogStats_def split_beta Let_def comp_def sum_list_triv)
  obtain built r1 where b: "build_scenarios G L (start_time (resolve_times now cfg)) scns (new_rand G (seed (resolve_times now cfg))) = Some (built, r1)"
    and ready: "\<And>lss. built = Inr lss \<Longrightarrow> map ls_config lss = scns \<and> (\<forall>ls \<in> set lss. scenario_ready G ls)"
    using build_scenarios_yields [OF assms(2) cfgs, of "new_rand G (seed (resolve_times now cfg))"]
    by (auto simp: yields_ex)
  show ?thesis
  proof (cases "obs_ok \<and> \<not> isl built")
    case False
    then show ?thesis
      using eff b by (cases built) (auto simp: newLogsGenReceiver_def Let_def scns_def [symmetric])
  next
    case True
    then obtain lss where lss: "built = Inr lss" by (cases built) auto
    from build_multipliers_all [of lss G r1] ready [OF lss]
    obtain lss' r2 where m: "build_multipliers G lss r1 = Some (lss', r2)" "map ls_config lss' = scns" "\<forall>ls \<in> set lss'. scenario_ready G ls"
      by (auto simp: yields_ex)
    then show ?thesis
      using True eff b lss zero built_ready [OF m(3,2)]
      by (auto simp: newLogsGenReceiver_def newLogsProgress_def Let_def scns_def [symmetric])
  qed
qed

lemma sample_times: "resolve_times now sample_config = sample_config"
  by (simp add: resolve_times_def sample_config_def create_default_config_def is_zero_time_def zero_time_def second_ns_def Let_def)

lemma sample_documents: "renders_resources sample_lib sample_tmpl_lib start scn"
proof -
  have "fst (render_exts sample_tmpl_lib p m exts r) \<noteq> Inr []" for p m exts r
    by (induction sample_tmpl_lib p m exts r rule: render_exts.induct)
      (auto simp: decode_template_def sample_tmpl_lib_def Let_def split: option.splits)
  then show ?thesis by (simp add: renders_resources_def RenderLogsTemplate_def)
qed

lemma sample_numbers: "numbers_in_range sample_scenario" "pool_networks_ok sample_lib sample_scenario"
  by (simp_all add: numbers_in_range_def pool_networks_ok_def sample_scenario_def i64_def)

lemma sample_effective: "EffectiveScenarios sample_lib file sample_config = Inr [sample_scenario]"
  by (simp add: EffectiveScenarios_def sample_config_def create_default_config_def)

lemma new_receiver_ready_witness:
  "\<exists>res. newLogsGenReceiver sample_lib sample_tmpl_lib (Profiles []) True zero_time zero_time sample_config = Some res \<and>
    (\<forall>rc. res = Inr rc \<longrightarrow> receiver_ready sample_lib rc \<and> log_count (rcv_progress rc) = 0 \<and> total_logs (Merge (rcv_stats rc)) = 0)"
  by (rule new_receiver_ready)
    (simp_all add: sample_times sample_config_valid sample_documents sample_lib_ok sample_effective sample_numbers)

text \<open>
  The constructor panics, and does not return an error, when the document of the first instance
  of the first scenario has no resource: \<open>At(0)\<close> is called on an empty list.
\<close>

lemma empty_document_panics:
  assumes "EffectiveScenarios G file cfg = Inr (scn # scns)" and "0 < scale scn"
    and "fst (RenderLogsTemplate L (scn_path scn @ ''-resource-attributes'')
      (instance_model G (start_time (resolve_times now cfg)) scn 0) (new_rand G (seed (resolve_times now cfg)))) = Inr []"
  shows "newLogsGenReceiver G L file True now now' cfg = None"
proof -
  obtain n where n: "nat (scale scn) = Suc n" using assms(2) by (cases "nat (scale scn)") auto
  have "RenderLogResource L (scn_path scn) 0 (fmt_time_fn G ''2006-01-02T15:04:05Z07:00'' (start_time (resolve_times now cfg)))
      (template_vars scn) (new_rand G (seed (resolve_times now cfg))) = None"
    using assms(3) unfolding render_panics instance_model_def .
  then show ?thesis
    using assms(1,2) n by (simp add: newLogsGenReceiver_def build_scenario_def GetLogResources_def Let_def)
qed

text \<open>A library whose one file renders the document \<open>{}\<close>, which has no resource.\<close>

lemma empty_document_panics_sample:
  "newLogsGenReceiver sample_lib (sample_tmpl_lib\<lparr>unmarshal_fn := \<lambda>s. Some []\<rparr>) (Profiles []) True zero_time zero_time
     sample_config = None"
  by (rule empty_document_panics [OF sample_effective])
    (simp_all add: sample_scenario_def RenderLogsTemplate_def template_exts_def sample_tmpl_lib_def has_suffix_def
      decode_template_def)

subsection \<open>Which workers track cardinality\<close>



text \<open>
  The shard of a scenario's first worker in an interval: the scenarios before it hand on the
  base by \<open>next_base\<close>, which leaves out those without records.
\<close>

lemma interval_base:
  assumes "\<forall>scn \<in> set pre. scenario_ready G scn"
    and "produce_scenarios G cfg t (pre @ post) base r = Some (as, scns', r')"
  shows "\<exists>as1 as2 post' r1. as = as1 @ as2 \<and>
    produce_scenarios G cfg t post (fold next_base pre base) r1 = Some (as2, post', r')"
  using assms
proof (induction pre arbitrary: base r as scns')
  case Nil
  have "as = [] @ as" by simp
  with Nil.prems(2) show ?case unfolding append_Nil fold_Nil id_apply by blast
next
  case (Cons scn pre)
  obtain as1 scn' base' r1 as2 scns2 where one: "produce_scenario G cfg t scn base r = Some (as1, scn', base', r1)"
    and rest: "produce_scenarios G cfg t (pre @ post) base' r1 = Some (as2, scns2, r')" and as: "as = as1 @ as2"
    using Cons.prems(2) by (auto split: bind_splits)
  have "scenario_ready G scn" using Cons.prems(1) by simp
  from produce_scenario_yields [OF this, of cfg t base r] one have "base' = next_base scn base" by simp
  moreover obtain as3 as4 post' r3 where "as2 = as3 @ as4" "produce_scenarios G cfg t post (fold next_base pre base') r3 = Some (as4, post', r')"
    using Cons.IH [OF _ rest] Cons.prems(1) by auto
  moreover have "as = (as1 @ as3) @ as4" using as calculation(2) by simp
  ultimately show ?case unfolding fold_Cons comp_apply by blast
qed




end
