(* ===== verification/Lifecycle.thy ===== *)
theory Lifecycle
  imports Construct
begin

text \<open>
  The life of a receiver (\<open>Start\<close>, \<open>Shutdown\<close>, \<open>createLogsReceiver\<close>): the loop over the
  instants of the configured range, which runs in a goroutine, cancellation, and the messages
  to the log. The loop, the caller of \<open>Shutdown\<close> and the clock interleave: \<open>lifecycle\<close> is a
  labelled step relation on \<open>run_state\<close>, and \<open>runs\<close> its finite executions. The collector calls
  \<open>Start\<close> at most once, \<open>Shutdown\<close> at most once, and never \<open>Start\<close> after \<open>Shutdown\<close>.
\<close>

subsection \<open>States and steps\<close>

text \<open>
  Where the goroutine of the loop is: at the head of the loop with the current time, waiting for
  the ticker after it has produced the interval of a time, sleeping before the exit, or done.
\<close>

datatype phase = NotStarted | Running gotime | Waiting gotime | Sleeping | Returned

definition active :: "phase \<Rightarrow> bool" where
  "active p \<longleftrightarrow> p \<noteq> NotStarted \<and> p \<noteq> Returned"

lemma active_simps [simp]:
  "\<not> active NotStarted" "active (Running t)" "active (Waiting t)" "active Sleeping" "\<not> active Returned"
  by (simp_all add: active_def)

text \<open>The call of \<open>Shutdown\<close>: not made, blocked on the channel, or done.\<close>

datatype stop = NotCalled | Stopping | Stopped

text \<open>
  \<open>rs_cancelled\<close> is the context of the loop, \<open>rs_closed\<close> the channel \<open>done\<close>, which the
  constructor closes; \<open>rs_next_log\<close> is the time of the next report; \<open>rs_sent\<close> is what the
  consumer has received, \<open>rs_fatal\<close> the status that makes the collector exit, \<open>rs_log\<close> the messages.
\<close>

record run_state =
  rs_receiver :: logs_gen_receiver
  rs_phase :: phase
  rs_cancelled :: bool
  rs_closed :: bool
  rs_stop :: stop
  rs_next_log :: gotime
  rs_sent :: "batch list"
  rs_fatal :: bool
  rs_log :: "message list"

definition created :: "logs_gen_receiver \<Rightarrow> run_state" where
  "created rc = \<lparr>rs_receiver = rc, rs_phase = NotStarted, rs_cancelled = False, rs_closed = True, rs_stop = NotCalled,
     rs_next_log = zero_time, rs_sent = [], rs_fatal = False, rs_log = []\<rparr>"

definition createLogsReceiver ::
    "golib \<Rightarrow> ('t, 'm) tmpl_lib \<Rightarrow> profiles_file \<Rightarrow> bool \<Rightarrow> gotime \<Rightarrow> gotime \<Rightarrow> config \<Rightarrow> (receiver_error + run_state) option" where
  "createLogsReceiver G L file obs_ok now now' cfg =
     do { res \<leftarrow> newLogsGenReceiver G L file obs_ok now now' cfg;
          case res of Inl e \<Rightarrow> Some (Inl e) | Inr rc \<Rightarrow> Some (Inr (created rc)) }"

text \<open>A call of \<open>produceLogs\<close> with some schedule, and the addition to the progress counter.\<close>

definition add_progress :: "64 word \<Rightarrow> logs_progress \<Rightarrow> logs_progress" where
  "add_progress n p = p\<lparr>log_count := log_count p + n\<rparr>"

inductive interval_step :: "golib \<Rightarrow> logs_gen_receiver \<Rightarrow> batch list \<Rightarrow> gotime \<Rightarrow> logs_gen_receiver \<Rightarrow> batch list \<Rightarrow> bool"
  for G where
  "produceLogs G (rcv_cfg rc) t (rcv_scenarios rc) (base_rand rc) = Some (as, scns, r) \<Longrightarrow> schedule as [] tr \<Longrightarrow>
   apply_events G tr \<lparr>sh_stats = rcv_stats rc, sh_needles = needle_occurrences rc, sh_total = 0, sh_loaded = 0, sh_sent = sent\<rparr> = Some s \<Longrightarrow>
   interval_step G rc sent t
     (rc\<lparr>base_rand := r, rcv_scenarios := scns, needle_occurrences := sh_needles s, rcv_stats := sh_stats s,
         rcv_progress := add_progress (sh_total s) (rcv_progress rc)\<rparr>) (sh_sent s)"

text \<open>What \<open>Shutdown\<close> logs, with two readings of the clock.\<close>

definition run_summary :: "golib \<Rightarrow> logs_gen_receiver \<Rightarrow> string" where
  "run_summary G rc = Summary G (Merge (rcv_stats rc)) (filter (\<lambda>(name, n). 0 < n) (needle_occurrences rc))"

definition shutdown_messages :: "golib \<Rightarrow> logs_gen_receiver \<Rightarrow> gotime \<Rightarrow> gotime \<Rightarrow> message list" where
  "shutdown_messages G rc now now' =
     [RunSummary (run_summary G rc),
      FinishedLogs (log_count (rcv_progress rc)) (duration_string (round_duration (progress_duration (rcv_progress rc) now) 1000000))
        (logsPerSecond (rcv_progress rc) now')]"

datatype label = Start | Tick gotime | Ticker | Exit | Wake | Cancel | Shutdown | Summarize

text \<open>
  \<open>Tick\<close> is an iteration of the loop up to the wait for the ticker, \<open>Exit\<close> leaves the loop,
  \<open>Cancel\<close> cancels the context that \<open>Start\<close> was given; \<open>Shutdown\<close> is a call up to the wait for
  the channel and \<open>Summarize\<close> the rest of it. \<open>time.NewTicker\<close> panics on an interval that is not positive.
\<close>

inductive lifecycle :: "golib \<Rightarrow> run_state \<Rightarrow> label \<Rightarrow> run_state \<Rightarrow> bool" for G where
  start: "rs_phase s = NotStarted \<Longrightarrow> rs_stop s = NotCalled \<Longrightarrow> cfg = rcv_cfg (rs_receiver s) \<Longrightarrow> 0 < interval cfg \<Longrightarrow>
    lifecycle G s Start (s\<lparr>rs_phase := Running (start_time cfg), rs_cancelled := False, rs_closed := False,
      rs_next_log := add_time (progress_start (rcv_progress (rs_receiver s))) report_interval\<rparr>)"
| tick: "rs_phase s = Running t \<Longrightarrow> cfg = rcv_cfg (rs_receiver s) \<Longrightarrow> unix_nano t < unix_nano (end_time cfg) \<Longrightarrow> \<not> rs_cancelled s \<Longrightarrow>
    report_progress cfg (rcv_progress (rs_receiver s)) t (rs_next_log s) now now' = (next_log, msgs) \<Longrightarrow>
    interval_step G (rs_receiver s) (rs_sent s) t rc sent \<Longrightarrow>
    lifecycle G s (Tick t) (s\<lparr>rs_receiver := rc, rs_sent := sent, rs_next_log := next_log, rs_log := rs_log s @ msgs,
      rs_phase := (if real_time cfg then Waiting t else Running (add_time t (interval cfg)))\<rparr>)"
| ticker: "rs_phase s = Waiting t \<Longrightarrow>
    lifecycle G s Ticker (s\<lparr>rs_phase := Running (add_time t (interval (rcv_cfg (rs_receiver s))))\<rparr>)"
| exit_cancelled: "rs_phase s = Running t \<Longrightarrow> unix_nano t < unix_nano (end_time (rcv_cfg (rs_receiver s))) \<Longrightarrow> rs_cancelled s \<Longrightarrow>
    lifecycle G s Exit (s\<lparr>rs_phase := Returned, rs_closed := True\<rparr>)"
| exit_end: "rs_phase s = Running t \<Longrightarrow> cfg = rcv_cfg (rs_receiver s) \<Longrightarrow> \<not> unix_nano t < unix_nano (end_time cfg) \<Longrightarrow>
    \<not> exit_after_end cfg \<Longrightarrow> lifecycle G s Exit (s\<lparr>rs_phase := Returned, rs_closed := True\<rparr>)"
| exit_sleep: "rs_phase s = Running t \<Longrightarrow> cfg = rcv_cfg (rs_receiver s) \<Longrightarrow> \<not> unix_nano t < unix_nano (end_time cfg) \<Longrightarrow>
    exit_after_end cfg \<Longrightarrow> 0 < exit_after_end_timeout cfg \<Longrightarrow>
    lifecycle G s Exit (s\<lparr>rs_phase := Sleeping, rs_log := rs_log s @ [WaitingBeforeExit (exit_after_end_timeout cfg)]\<rparr>)"
| exit_now: "rs_phase s = Running t \<Longrightarrow> cfg = rcv_cfg (rs_receiver s) \<Longrightarrow> \<not> unix_nano t < unix_nano (end_time cfg) \<Longrightarrow>
    exit_after_end cfg \<Longrightarrow> \<not> 0 < exit_after_end_timeout cfg \<Longrightarrow>
    lifecycle G s Exit (s\<lparr>rs_phase := Returned, rs_closed := True, rs_fatal := True, rs_log := rs_log s @ [ExitingImmediately]\<rparr>)"
| wake: "rs_phase s = Sleeping \<Longrightarrow> lifecycle G s Wake (s\<lparr>rs_phase := Returned, rs_closed := True, rs_fatal := True\<rparr>)"
| cancel: "rs_phase s \<noteq> NotStarted \<Longrightarrow> lifecycle G s Cancel (s\<lparr>rs_cancelled := True\<rparr>)"
| shutdown: "rs_stop s = NotCalled \<Longrightarrow>
    lifecycle G s Shutdown (s\<lparr>rs_stop := Stopping, rs_cancelled := rs_cancelled s \<or> rs_phase s \<noteq> NotStarted\<rparr>)"
| summarize: "rs_stop s = Stopping \<Longrightarrow> rs_closed s \<Longrightarrow>
    lifecycle G s Summarize (s\<lparr>rs_stop := Stopped, rs_log := rs_log s @ shutdown_messages G (rs_receiver s) now now'\<rparr>)"

inductive_cases TickE [elim!]: "lifecycle G s (Tick t) s'"
inductive_cases StartE [elim!]: "lifecycle G s Start s'"
inductive_cases SummarizeE: "lifecycle G s Summarize s'"

inductive runs :: "golib \<Rightarrow> run_state \<Rightarrow> label list \<Rightarrow> run_state \<Rightarrow> bool" for G where
  none: "runs G s [] s"
| more: "runs G s ls s' \<Longrightarrow> lifecycle G s' l s'' \<Longrightarrow> runs G s (ls @ [l]) s''"

subsection \<open>What an interval does to a receiver\<close>

lemma run_records_append:
  "run_records G (xs @ ys) s = (case run_records G xs s of None \<Rightarrow> None | Some s' \<Rightarrow> run_records G ys s')"
  by (induction G xs s rule: run_records.induct) (auto split: bind_splits option.splits)

definition sent_entries :: "batch list \<Rightarrow> log_entry list" where
  "sent_entries bs = concat (map batch_entries bs)"

lemma delivers_entries:
  assumes "delivers upd shard plan evs" and "\<And>n. stats_of (upd n) = []" and "\<And>n. batches_of (upd n) = []"
  shows "map snd (stats_of evs) = sent_entries (batches_of evs)"
  using assms by (auto simp: delivers_def batch_match_def sent_entries_def comp_def)

lemma sent_entries_append [simp]: "sent_entries (xs @ ys) = sent_entries xs @ sent_entries ys" "sent_entries [] = []"
  by (simp_all add: sent_entries_def)

lemma stats_concat: "stats_of (concat ws) = concat (map stats_of ws)"
  by (induction ws) simp_all

lemma stats_filter: "stats_of evs = map (\<lambda>ev. case ev of Stat i e \<Rightarrow> (i, e) | _ \<Rightarrow> undefined) (filter (\<lambda>ev. \<exists>i e. ev = Stat i e) evs)"
proof (induction evs)
  case (Cons ev evs)
  then show ?case by (cases ev) simp_all
qed simp

lemma mset_stats: "mset tr = mset tr' \<Longrightarrow> mset (stats_of tr) = mset (stats_of tr')"
  unfolding stats_filter mset_map mset_filter by (rule arg_cong [where f = "\<lambda>m. image_mset _ (filter_mset _ m)"])

lemma concat_entries:
  "\<forall>w \<in> set ws. map snd (stats_of w) = sent_entries (batches_of w) \<Longrightarrow>
   map snd (stats_of (concat ws)) = sent_entries (batches_of (concat ws))"
  by (induction ws) simp_all

text \<open>The statistics see exactly the records that are sent.\<close>

lemma interval_entries:
  assumes "interval_actions 1 as" and "schedule as [] tr"
  shows "mset (map snd (stats_of tr)) = mset (sent_entries (batches_of tr))"
proof -
  obtain parts where parts: "caller_events as = concat parts" "\<forall>p \<in> set parts. \<exists>plan. delivers load_store 0 plan p"
    using assms(1) by (auto simp: interval_actions_def caller_ok_def)
  have "\<forall>p \<in> set parts. map snd (stats_of p) = sent_entries (batches_of p)"
    using parts(2) delivers_entries [where upd = load_store] by fastforce
  moreover have "\<forall>w \<in> set (started as). map snd (stats_of w) = sent_entries (batches_of w)"
    using interval_workers [OF assms(1)] delivers_entries [where upd = atomic_add] by fastforce
  ultimately have "map snd (stats_of (concat (parts @ started as))) = sent_entries (batches_of (concat (parts @ started as)))"
    by (intro concat_entries) auto
  moreover have m: "mset tr = mset (concat (parts @ started as))"
    using shuffle_mset [OF schedule_goroutines [OF assms(2)]] parts(1) by (simp add: goroutines_def)
  moreover have "mset (sent_entries bs) = (\<Sum>b\<in>#mset bs. mset (batch_entries b))" for bs
    by (induction bs) (simp_all add: sent_entries_def)
  ultimately show ?thesis
    using mset_stats [OF m] mset_batches [OF m] by (metis mset_map)
qed

lemma sent_entries_length: "length (sent_entries bs) = (\<Sum>b\<leftarrow>bs. LogRecordCount b)"
  by (induction bs) (simp_all add: sent_entries_def batch_entries_length)

subsection \<open>The invariant of the lifecycle\<close>

text \<open>
  What holds of a receiver and the batches sent, from the shards \<open>st0\<close>: the shards are those
  after recording, in some order, the entries of the records sent.
\<close>

definition accounted :: "golib \<Rightarrow> sharded \<Rightarrow> logs_gen_receiver \<Rightarrow> batch list \<Rightarrow> bool" where
  "accounted G st0 rc sent \<longleftrightarrow>
     (\<exists>evs. run_records G evs st0 = Some (rcv_stats rc) \<and> (\<forall>(i, e) \<in> set evs. 0 \<le> i) \<and>
        mset (map snd evs) = mset (sent_entries sent)) \<and>
     (race_free (rcv_scenarios rc) \<longrightarrow> log_count (rcv_progress rc) = of_nat (length (sent_entries sent)))"

lemma same_scenario_simps:
  assumes "same_scenario scn scn'"
  shows "ls_config scn' = ls_config scn" "scenario_ready G scn' \<longleftrightarrow> scenario_ready G scn"
    "starts_workers scn' \<longleftrightarrow> starts_workers scn" "logs_inline scn' \<longleftrightarrow> logs_inline scn"
  using assms by (auto simp: same_scenario_def starts_workers_def logs_inline_def)

lemma same_scenarios:
  assumes "list_all2 same_scenario scns scns'"
  shows "(\<forall>s \<in> set scns'. P (ls_config s)) \<longleftrightarrow> (\<forall>s \<in> set scns. P (ls_config s))" "(\<forall>s \<in> set scns'. scenario_ready G s) \<longleftrightarrow> (\<forall>s \<in> set scns. scenario_ready G s)"
    "workers_of scns' = workers_of scns" "(\<forall>s \<in> set scns'. \<not> logs_inline s) \<longleftrightarrow> (\<forall>s \<in> set scns. \<not> logs_inline s)"
  using assms by (induction scns scns' rule: list_all2_induct) (auto simp: same_scenario_simps workers_of_def)

lemma same_race_free: "list_all2 same_scenario scns scns' \<Longrightarrow> race_free scns' \<longleftrightarrow> race_free scns"
  by (induction scns scns' rule: list_all2_induct) (simp_all add: same_scenario_simps same_scenarios(4))

lemma needle_keys: "fst ` set (fold needle_effect evs occ) = fst ` set occ"
proof (induction evs arbitrary: occ)
  case (Cons ev evs)
  have "n \<in> fst ` set occ" if "map_of occ n = Some c" for n c and occ :: counts
    using that by (force dest: map_of_SomeD)
  then have "fst ` set (needle_effect ev occ) = fst ` set occ" for occ
    by (cases ev) (auto simp: count_needle_def split: option.splits)
  with Cons show ?case by simp
qed simp

lemma interval_step_inv:
  assumes step: "interval_step G rc sent t rc' sent'" and ready: "receiver_ready G rc" and acc: "accounted G st0 rc sent"
  shows "receiver_ready G rc' \<and> accounted G st0 rc' sent' \<and> rcv_cfg rc' = rcv_cfg rc \<and>
    list_all2 same_scenario (rcv_scenarios rc) (rcv_scenarios rc')"
  using step
proof cases
  case (1 as scns r tr s)
  let ?s0 = "\<lparr>sh_stats = rcv_stats rc, sh_needles = needle_occurrences rc, sh_total = 0, sh_loaded = 0, sh_sent = sent\<rparr>"
  have scns: "\<forall>scn \<in> set (rcv_scenarios rc). scenario_ready G scn" using ready by (simp add: receiver_ready_def)
  note acts = produceLogs_actions [OF scns 1(3)]
  have ne: "rcv_stats rc \<noteq> []" using ready acts(2) by (auto simp: receiver_ready_def)
  have st: "run_records G (stats_of tr) (rcv_stats rc) = Some (sh_stats s)" and sent: "sh_sent s = sent @ batches_of tr"
    and nd: "sh_needles s = fold needle_effect tr (needle_occurrences rc)"
    using 1(5) by (auto simp: apply_events_eq split: option.splits)
  have len: "length (sh_stats s) = length (rcv_stats rc)" using run_records_shards [OF st ne] by simp
  have ready': "receiver_ready G rc'"
    using ready same_scenarios(2,3) [OF acts(3)] len
      same_scenarios(1) [OF acts(3), of "\<lambda>c. needle_name ` set (needles c) \<subseteq> fst ` set (needle_occurrences rc)"]
    by (simp add: receiver_ready_def 1(1) nd needle_keys)
  obtain evs where evs: "run_records G evs st0 = Some (rcv_stats rc)" "\<forall>(i, e) \<in> set evs. 0 \<le> i"
    "mset (map snd evs) = mset (sent_entries sent)"
    and count: "race_free (rcv_scenarios rc) \<longrightarrow> log_count (rcv_progress rc) = of_nat (length (sent_entries sent))"
    using acc by (auto simp: accounted_def)
  have "run_records G (evs @ stats_of tr) st0 = Some (sh_stats s)" using evs(1) st by (simp add: run_records_append)
  moreover have "\<forall>(i, e) \<in> set (evs @ stats_of tr). 0 \<le> i" using evs(2) schedule_nonneg [OF acts(1) 1(4)] by auto
  moreover have "mset (map snd (evs @ stats_of tr)) = mset (sent_entries (sh_sent s))"
    using evs(3) interval_entries [OF acts(1) 1(4)] by (simp add: sent)
  moreover have "sh_total s = of_nat (delivered tr)" if "race_free (rcv_scenarios rc)"
    using count_exact [OF scns that 1(3-5)] by simp
  ultimately have "\<exists>evs. run_records G evs st0 = Some (sh_stats s) \<and> (\<forall>(i, e) \<in> set evs. 0 \<le> i) \<and>
      mset (map snd evs) = mset (sent_entries (sh_sent s))"
    and "race_free (rcv_scenarios rc) \<longrightarrow> log_count (rcv_progress rc) + sh_total s = of_nat (length (sent_entries (sh_sent s)))"
    using count by (blast, simp add: sent sent_entries_length delivered_def)
  then have "accounted G st0 rc' sent'"
    using same_race_free [OF acts(3)] by (simp add: accounted_def add_progress_def 1(1,2))
  then show ?thesis using ready' acts(3) by (simp add: 1(1))
qed

text \<open>The invariant of a run, and that every step keeps it.\<close>

definition run_inv :: "golib \<Rightarrow> logs_gen_receiver \<Rightarrow> run_state \<Rightarrow> bool" where
  "run_inv G rc0 s \<longleftrightarrow> receiver_ready G (rs_receiver s) \<and> accounted G (rcv_stats rc0) (rs_receiver s) (rs_sent s) \<and>
     rcv_cfg (rs_receiver s) = rcv_cfg rc0 \<and> list_all2 same_scenario (rcv_scenarios rc0) (rcv_scenarios (rs_receiver s)) \<and>
     (rs_closed s \<longleftrightarrow> \<not> active (rs_phase s)) \<and>
     (rs_stop s \<noteq> NotCalled \<longrightarrow> rs_phase s = NotStarted \<or> rs_cancelled s)"

lemma same_scenario_trans: "list_all2 same_scenario xs ys \<Longrightarrow> list_all2 same_scenario ys zs \<Longrightarrow> list_all2 same_scenario xs zs"
  by (rule list_all2_trans) (auto simp: same_scenario_def)

lemma lifecycle_inv: "lifecycle G s l s' \<Longrightarrow> run_inv G rc0 s \<Longrightarrow> run_inv G rc0 s'"
proof (induction rule: lifecycle.induct)
  case (tick s t cfg now now' next_log msgs rc sent)
  then show ?case
    using interval_step_inv [OF tick.hyps(6)] same_scenario_trans by (fastforce simp: run_inv_def)
qed (auto simp: run_inv_def)

lemma same_scenario_refl: "list_all2 same_scenario xs xs"
proof (rule list_all2_refl)
  show "same_scenario scn scn" for scn unfolding same_scenario_def by (rule exI [of _ "ls_volume scn"]) simp
qed

lemma created_inv: "receiver_ready G rc \<Longrightarrow> log_count (rcv_progress rc) = 0 \<Longrightarrow> run_inv G rc (created rc)"
  using same_scenario_refl
  by (auto simp: run_inv_def created_def accounted_def intro!: exI [of _ "[]"])

lemma runs_inv: "runs G s ls s' \<Longrightarrow> run_inv G rc0 s \<Longrightarrow> run_inv G rc0 s'"
  by (induction rule: runs.induct) (auto intro: lifecycle_inv)

text \<open>
  C1. The summary is exact. At every point of every run of a new receiver, whatever the
  schedules, the merged statistics count exactly the records that the consumer has received:
  in total, by severity, by application, by node and by namespace; and where no scenario is
  logged by the caller after another has started workers the progress counter is their number.
\<close>

theorem summary_counts_sent:
  assumes "receiver_ready G rc" and "log_count (rcv_progress rc) = 0" and "rcv_stats rc = NewShardedLogStats n track"
    and "runs G (created rc) ls s"
  shows "total_logs (Merge (rcv_stats (rs_receiver s))) = of_nat (length (sent_entries (rs_sent s))) \<and>
    cnt (by_severity (Merge (rcv_stats (rs_receiver s)))) k = of_nat (count_list (map sev_text (sent_entries (rs_sent s))) k) \<and>
    cnt (by_app (Merge (rcv_stats (rs_receiver s)))) k =
      of_nat (count_list (concat (map (attr_keys G ''service.name'') (sent_entries (rs_sent s)))) k) \<and>
    cnt (by_node (Merge (rcv_stats (rs_receiver s)))) k =
      of_nat (count_list (concat (map (attr_keys G ''k8s.node.name'') (sent_entries (rs_sent s)))) k) \<and>
    cnt (by_namespace (Merge (rcv_stats (rs_receiver s)))) k =
      of_nat (count_list (concat (map (attr_keys G ''k8s.namespace.name'') (sent_entries (rs_sent s)))) k) \<and>
    (race_free (rcv_scenarios rc) \<longrightarrow> log_count (rcv_progress (rs_receiver s)) = of_nat (\<Sum>b\<leftarrow>rs_sent s. LogRecordCount b))"
proof -
  have inv: "run_inv G rc s" by (rule runs_inv [OF assms(4) created_inv [OF assms(1,2)]])
  then obtain evs where run: "run_records G evs (NewShardedLogStats n track) = Some (rcv_stats (rs_receiver s))"
    and nn: "\<forall>(i, e) \<in> set evs. 0 \<le> i" and m: "mset (map snd evs) = mset (sent_entries (rs_sent s))"
    by (auto simp: run_inv_def accounted_def assms(3))
  have cl: "of_nat (count_list (concat (map h (map snd evs))) k) = (of_nat (count_list (concat (map h (sent_entries (rs_sent s)))) k) :: 64 word)"
    for h :: "log_entry \<Rightarrow> string list" and k
  proof -
    have "(\<Sum>e\<leftarrow>es. of_nat (count_list (h e) k)) = (\<Sum>e\<in>#mset es. (of_nat (count_list (h e) k) :: 64 word))" for es
      by (induction es) simp_all
    then show ?thesis unfolding count_list_concat by (simp only: m)
  qed
  have sev: "concat (map (\<lambda>e. [sev_text e]) es) = map sev_text es" for es by (induction es) simp_all
  note mc = merged_count [OF nn run]
  have "total_logs (Merge (rcv_stats (rs_receiver s))) = of_nat (length (sent_entries (rs_sent s)))"
    using merged_total [OF nn run] mset_eq_length [OF m] by simp
  moreover have "cnt (by_severity (Merge (rcv_stats (rs_receiver s)))) k =
      of_nat (count_list (concat (map (\<lambda>e. [sev_text e]) (sent_entries (rs_sent s)))) k)"
    unfolding Merge_sel cl [symmetric] by (rule mc) (simp only: fold_Record_counts sev new_log_stats_sel)
  moreover have "cnt (by_app (Merge (rcv_stats (rs_receiver s)))) k =
      of_nat (count_list (concat (map (attr_keys G ''service.name'') (sent_entries (rs_sent s)))) k)"
    unfolding Merge_sel cl [symmetric] by (rule mc) (simp only: fold_Record_counts new_log_stats_sel)
  moreover have "cnt (by_node (Merge (rcv_stats (rs_receiver s)))) k =
      of_nat (count_list (concat (map (attr_keys G ''k8s.node.name'') (sent_entries (rs_sent s)))) k)"
    unfolding Merge_sel cl [symmetric] by (rule mc) (simp only: fold_Record_counts new_log_stats_sel)
  moreover have "cnt (by_namespace (Merge (rcv_stats (rs_receiver s)))) k =
      of_nat (count_list (concat (map (attr_keys G ''k8s.namespace.name'') (sent_entries (rs_sent s)))) k)"
    unfolding Merge_sel cl [symmetric] by (rule mc) (simp only: fold_Record_counts new_log_stats_sel)
  moreover have "race_free (rcv_scenarios rc) \<longrightarrow> log_count (rcv_progress (rs_receiver s)) = of_nat (\<Sum>b\<leftarrow>rs_sent s. LogRecordCount b)"
    using inv same_race_free unfolding run_inv_def accounted_def sent_entries_length by blast
  ultimately show ?thesis by (simp only: sev)
qed

subsection \<open>The loop over the instants\<close>

fun ticks :: "label list \<Rightarrow> gotime list" where
  "ticks [] = []"
| "ticks (Tick t # ls) = t # ticks ls"
| "ticks (l # ls) = ticks ls"

lemma ticks_append [simp]: "ticks (xs @ ys) = ticks xs @ ticks ys"
  by (induction xs rule: ticks.induct) simp_all

definition instant :: "config \<Rightarrow> nat \<Rightarrow> gotime" where
  "instant cfg k = add_time (start_time cfg) (int k * interval cfg)"

text \<open>How many instants lie before the end.\<close>

definition instants :: "config \<Rightarrow> nat" where
  "instants cfg = nat ((unix_ns (end_time cfg) - unix_ns (start_time cfg) + interval cfg - 1) div interval cfg)"

text \<open>The range and one interval more can be expressed in nanoseconds.\<close>

definition times_ok :: "config \<Rightarrow> bool" where
  "times_ok cfg \<longleftrightarrow> 0 < interval cfg \<and> i64 (unix_ns (start_time cfg)) \<and> i64 (unix_ns (end_time cfg) + interval cfg) \<and>
     unix_ns (start_time cfg) \<le> unix_ns (end_time cfg)"

lemma mult_le_iff_le_div: "0 < i \<Longrightarrow> n * i \<le> x \<longleftrightarrow> n \<le> x div i" for n i x :: int
proof
  show "n \<le> x div i" if "0 < i" "n * i \<le> x" using that zdiv_mono1 [of "n * i" x i] by simp
  show "n * i \<le> x" if "0 < i" "n \<le> x div i"
  proof -
    have "n * i \<le> x div i * i" using that by (intro mult_right_mono) simp_all
    also have "\<dots> \<le> x" using that pos_mod_sign [of i x] div_mult_mod_eq [of x i] by linarith
    finally show ?thesis .
  qed
qed

lemma instant_before:
  assumes "times_ok cfg"
  shows "unix_ns (instant cfg k) < unix_ns (end_time cfg) \<longleftrightarrow> k < instants cfg"
proof -
  let ?d = "unix_ns (end_time cfg) - unix_ns (start_time cfg)" and ?i = "interval cfg"
  have i: "0 < ?i" and d: "0 \<le> ?d" using assms by (simp_all add: times_ok_def)
  have "int k * ?i < ?d \<longleftrightarrow> (int k + 1) * ?i \<le> ?d + ?i - 1" by (simp add: algebra_simps) linarith
  also have "\<dots> \<longleftrightarrow> int k + 1 \<le> (?d + ?i - 1) div ?i" using i by (rule mult_le_iff_le_div)
  also have "\<dots> \<longleftrightarrow> k < nat ((?d + ?i - 1) div ?i)" by linarith
  finally show ?thesis by (simp add: instant_def add_time_def instants_def) linarith
qed

lemma clock_check:
  assumes ok: "times_ok cfg" and k: "k \<le> instants cfg"
  shows "unix_nano (instant cfg k) < unix_nano (end_time cfg) \<longleftrightarrow> k < instants cfg"
proof -
  have i: "0 < interval cfg" using ok by (simp add: times_ok_def)
  have lo: "unix_ns (start_time cfg) \<le> unix_ns (instant cfg k)" using i by (simp add: instant_def add_time_def)
  have hi: "unix_ns (instant cfg k) < unix_ns (end_time cfg) + interval cfg"
  proof (cases k)
    case 0
    then show ?thesis using ok by (simp add: instant_def add_time_def times_ok_def)
  next
    case (Suc j)
    then have "unix_ns (instant cfg j) < unix_ns (end_time cfg)" using instant_before [OF ok] k by simp
    then show ?thesis by (simp add: Suc instant_def add_time_def algebra_simps)
  qed
  have "unix_nano (instant cfg k) = unix_ns (instant cfg k)" "unix_nano (end_time cfg) = unix_ns (end_time cfg)"
    using ok lo hi by (auto simp: unix_nano_def times_ok_def i64_def intro!: w64_id)
  then show ?thesis using instant_before [OF ok] by simp
qed

lemma instant_Suc: "add_time (instant cfg k) (interval cfg) = instant cfg (Suc k)"
  by (simp add: instant_def add_time_def algebra_simps)

definition stop_requested :: "label list \<Rightarrow> bool" where
  "stop_requested ls \<longleftrightarrow> Cancel \<in> set ls \<or> Shutdown \<in> set ls"

definition clock_inv :: "config \<Rightarrow> label list \<Rightarrow> run_state \<Rightarrow> bool" where
  "clock_inv cfg ls s \<longleftrightarrow> rcv_cfg (rs_receiver s) = cfg \<and> ticks ls = map (instant cfg) [0..<length (ticks ls)] \<and>
     length (ticks ls) \<le> instants cfg \<and> (rs_cancelled s \<longrightarrow> stop_requested ls) \<and> (rs_fatal s \<longrightarrow> rs_phase s = Returned) \<and>
     (case rs_phase s of NotStarted \<Rightarrow> ticks ls = [] | Running t \<Rightarrow> t = instant cfg (length (ticks ls))
      | Waiting t \<Rightarrow> add_time t (interval cfg) = instant cfg (length (ticks ls))
      | Sleeping \<Rightarrow> length (ticks ls) = instants cfg \<and> exit_after_end cfg
      | Returned \<Rightarrow> stop_requested ls \<or> length (ticks ls) = instants cfg \<and> rs_fatal s = exit_after_end cfg)"

lemma interval_step_cfg: "interval_step G rc sent t rc' sent' \<Longrightarrow> rcv_cfg rc' = rcv_cfg rc"
  by (auto elim: interval_step.cases)

lemma stop_requested_append [simp]: "stop_requested (xs @ ys) \<longleftrightarrow> stop_requested xs \<or> stop_requested ys"
  by (auto simp: stop_requested_def)

lemma clock_running:
  assumes "times_ok cfg" and "clock_inv cfg ls s" and "rs_phase s = Running t"
  shows "t = instant cfg (length (ticks ls))" "rcv_cfg (rs_receiver s) = cfg"
    "unix_nano t < unix_nano (end_time cfg) \<longleftrightarrow> length (ticks ls) < instants cfg"
    "\<not> unix_nano t < unix_nano (end_time cfg) \<longleftrightarrow> length (ticks ls) = instants cfg"
  using assms clock_check [OF assms(1), of "length (ticks ls)"] by (auto simp: clock_inv_def)

lemma clock_step:
  assumes ok: "times_ok cfg" and inv: "clock_inv cfg ls s" and step: "lifecycle G s l s'"
  shows "clock_inv cfg (ls @ [l]) s'"
  using step
proof cases
  case start
  then show ?thesis using inv by (simp add: clock_inv_def instant_def add_time_def)
next
  case (tick t cfg' now now' next_log msgs rc sent)
  note run = clock_running [OF ok inv tick(3)]
  show ?thesis
    using inv tick run interval_step_cfg [OF tick(8)] by (auto simp: clock_inv_def instant_Suc)
next
  case (exit_end t)
  then show ?thesis using inv clock_running [OF ok inv exit_end(3)] by (auto simp: clock_inv_def)
next
  case (exit_sleep t)
  then show ?thesis using inv clock_running [OF ok inv exit_sleep(3)] by (auto simp: clock_inv_def)
next
  case (exit_now t)
  then show ?thesis using inv clock_running [OF ok inv exit_now(3)] by (auto simp: clock_inv_def)
qed (use inv in \<open>auto simp: clock_inv_def stop_requested_def split: phase.splits\<close>)

lemma runs_clock: "runs G s0 ls s \<Longrightarrow> s0 = created rc \<Longrightarrow> times_ok (rcv_cfg rc) \<Longrightarrow> clock_inv (rcv_cfg rc) ls s"
proof (induction rule: runs.induct)
  case none
  then show ?case by (simp add: clock_inv_def created_def)
qed (blast intro: clock_step)

lemma runs_clock_from: "runs G s ls' s' \<Longrightarrow> times_ok cfg \<Longrightarrow> clock_inv cfg ls s \<Longrightarrow> clock_inv cfg (ls @ ls') s'"
proof (induction rule: runs.induct)
  case (more s ls1 s1 l s2)
  then show ?case using clock_step [of cfg "ls @ ls1" s1 G l s2] by simp
qed simp

lemma runs_append: "runs G s' ls' s'' \<Longrightarrow> runs G s ls s' \<Longrightarrow> runs G s (ls @ ls') s''"
proof (induction rule: runs.induct)
  case (more s0 ls1 s1 l s2)
  then show ?case using runs.more [of G s "ls @ ls1" s1 l s2] by simp
qed simp

lemma runs_one: "lifecycle G s l s' \<Longrightarrow> runs G s [l] s'"
  using runs.more [OF runs.none] by fastforce

lemma runs_Cons: "lifecycle G s l s' \<Longrightarrow> runs G s' ls s'' \<Longrightarrow> runs G s (l # ls) s''"
  using runs_append [OF _ runs_one] by fastforce

text \<open>An interval of a ready receiver can always be produced.\<close>

lemma interval_progress:
  assumes "receiver_ready G rc"
  shows "\<exists>rc' sent'. interval_step G rc sent t rc' sent'"
proof -
  have scns: "\<forall>scn \<in> set (rcv_scenarios rc). scenario_ready G scn" using assms by (simp add: receiver_ready_def)
  obtain as scns' r where run: "produceLogs G (rcv_cfg rc) t (rcv_scenarios rc) (base_rand rc) = Some (as, scns', r)"
    using produce_scenarios_yields [OF scns, of "rcv_cfg rc" t 1 "base_rand rc"] by (auto simp: produceLogs_def yields_ex)
  obtain tr where tr: "schedule as [] tr" using schedule_exists by blast
  note acts = produceLogs_actions [OF scns run]
  have "rcv_stats rc \<noteq> []" using assms acts(2) by (auto simp: receiver_ready_def)
  then obtain s where "apply_events G tr \<lparr>sh_stats = rcv_stats rc, sh_needles = needle_occurrences rc, sh_total = 0, sh_loaded = 0,
      sh_sent = sent\<rparr> = Some s"
    using apply_events_run [OF schedule_nonneg [OF acts(1) tr], of "\<lparr>sh_stats = rcv_stats rc, sh_needles = needle_occurrences rc,
      sh_total = 0, sh_loaded = 0, sh_sent = sent\<rparr>" G] by auto
  with run tr show ?thesis using interval_step.intros by blast
qed

text \<open>One iteration, with the wait for the ticker.\<close>

lemma one_iteration:
  assumes ready: "receiver_ready G (rs_receiver s)" and run: "rs_phase s = Running t"
    and lt: "unix_nano t < unix_nano (end_time (rcv_cfg (rs_receiver s)))" and nc: "\<not> rs_cancelled s"
  shows "\<exists>ls' s'. runs G s ls' s' \<and> ticks ls' = [t] \<and> (\<exists>t'. rs_phase s' = Running t') \<and> \<not> rs_cancelled s' \<and> \<not> stop_requested ls'"
proof -
  obtain rc sent where i: "interval_step G (rs_receiver s) (rs_sent s) t rc sent" using interval_progress [OF ready] by blast
  obtain next_log msgs where m: "report_progress (rcv_cfg (rs_receiver s)) (rcv_progress (rs_receiver s)) t (rs_next_log s) zero_time zero_time =
    (next_log, msgs)" by (meson surj_pair)
  note step = lifecycle.tick [OF run refl lt nc m i]
  show ?thesis
  proof (cases "real_time (rcv_cfg (rs_receiver s))")
    case False
    with runs_one [OF step] show ?thesis by (intro exI conjI) (auto simp: nc stop_requested_def)
  next
    case True
    have "rs_phase (s\<lparr>rs_receiver := rc, rs_sent := sent, rs_next_log := next_log, rs_log := rs_log s @ msgs,
      rs_phase := (if real_time (rcv_cfg (rs_receiver s)) then Waiting t else Running (add_time t (interval (rcv_cfg (rs_receiver s)))))\<rparr>) = Waiting t"
      using True by simp
    from runs_Cons [OF step runs_one [OF lifecycle.ticker [OF this]]] show ?thesis
      by (intro exI conjI) (auto simp: nc stop_requested_def)
  qed
qed

lemma loop_exits:
  assumes "rs_phase s = Running t" and "\<not> unix_nano t < unix_nano (end_time (rcv_cfg (rs_receiver s))) \<or> rs_cancelled s"
  shows "\<exists>ls' s'. runs G s ls' s' \<and> ticks ls' = [] \<and> rs_phase s' = Returned \<and> \<not> stop_requested ls' \<and> rs_stop s' = rs_stop s \<and> length ls' \<le> 2"
proof -
  let ?cfg = "rcv_cfg (rs_receiver s)"
  consider (early) "unix_nano t < unix_nano (end_time ?cfg)" "rs_cancelled s"
    | (plain) "\<not> unix_nano t < unix_nano (end_time ?cfg)" "\<not> exit_after_end ?cfg"
    | (fatal) "\<not> unix_nano t < unix_nano (end_time ?cfg)" "exit_after_end ?cfg" "\<not> 0 < exit_after_end_timeout ?cfg"
    | (sleep) "\<not> unix_nano t < unix_nano (end_time ?cfg)" "exit_after_end ?cfg" "0 < exit_after_end_timeout ?cfg"
    using assms(2) by blast
  then show ?thesis
  proof cases
    case early
    from runs_one [OF lifecycle.exit_cancelled [OF assms(1) this], of G] show ?thesis
      by (intro exI conjI, assumption) (auto simp: stop_requested_def)
  next
    case plain
    from runs_one [OF lifecycle.exit_end [OF assms(1) refl this], of G] show ?thesis
      by (intro exI conjI, assumption) (auto simp: stop_requested_def)
  next
    case fatal
    from runs_one [OF lifecycle.exit_now [OF assms(1) refl this], of G] show ?thesis
      by (intro exI conjI, assumption) (auto simp: stop_requested_def)
  next
    case sleep
    note step = lifecycle.exit_sleep [OF assms(1) refl this]
    have "rs_phase (s\<lparr>rs_phase := Sleeping, rs_log := rs_log s @ [WaitingBeforeExit (exit_after_end_timeout ?cfg)]\<rparr>) = Sleeping" by simp
    from runs_Cons [OF step runs_one [OF lifecycle.wake [OF this], of G]] show ?thesis
      by (intro exI conjI, assumption) (auto simp: stop_requested_def)
  qed
qed

lemma running_completes:
  assumes ok: "times_ok (rcv_cfg rc)"
  shows "run_inv G rc s \<Longrightarrow> clock_inv (rcv_cfg rc) ls s \<Longrightarrow> rs_phase s = Running t \<Longrightarrow> \<not> rs_cancelled s \<Longrightarrow>
    \<exists>ls' s'. runs G s ls' s' \<and> rs_phase s' = Returned \<and> \<not> stop_requested ls' \<and> length (ticks (ls @ ls')) = instants (rcv_cfg rc)"
proof (induction "instants (rcv_cfg rc) - length (ticks ls)" arbitrary: s ls t)
  case 0
  note run = clock_running [OF ok 0(3,4)]
  have eq: "length (ticks ls) = instants (rcv_cfg rc)" using 0(1,3) by (simp add: clock_inv_def)
  then show ?case using loop_exits [OF 0(4), of G] run by fastforce
next
  case (Suc n)
  note run = clock_running [OF ok Suc.prems(2,3)]
  have lt: "unix_nano t < unix_nano (end_time (rcv_cfg (rs_receiver s)))" using run Suc.hyps(2) by simp
  have "receiver_ready G (rs_receiver s)" using Suc.prems(1) by (simp add: run_inv_def)
  from one_iteration [OF this Suc.prems(3) lt Suc.prems(4)]
  obtain ls1 s1 t1 where s1: "runs G s ls1 s1" "ticks ls1 = [t]" "rs_phase s1 = Running t1" "\<not> rs_cancelled s1" "\<not> stop_requested ls1"
    by blast
  have "\<exists>ls' s'. runs G s1 ls' s' \<and> rs_phase s' = Returned \<and> \<not> stop_requested ls' \<and>
      length (ticks ((ls @ ls1) @ ls')) = instants (rcv_cfg rc)"
  proof (rule Suc.hyps(1))
    show "n = instants (rcv_cfg rc) - length (ticks (ls @ ls1))" using Suc.hyps(2) s1(2) by simp
    show "run_inv G rc s1" by (rule runs_inv [OF s1(1) Suc.prems(1)])
    show "clock_inv (rcv_cfg rc) (ls @ ls1) s1" by (rule runs_clock_from [OF s1(1) ok Suc.prems(2)])
  qed (use s1 in simp_all)
  then obtain ls' s' where "runs G s1 ls' s'" "rs_phase s' = Returned" "\<not> stop_requested ls'"
    "length (ticks ((ls @ ls1) @ ls')) = instants (rcv_cfg rc)" by blast
  then show ?case using runs_append [OF _ s1(1)] s1(5) by (intro exI [of _ "ls1 @ ls'"] exI [of _ s']) simp
qed

lemma loop_completes:
  assumes ok: "times_ok (rcv_cfg rc)" and inv: "run_inv G rc s" and clock: "clock_inv (rcv_cfg rc) ls s"
    and act: "active (rs_phase s)" and nc: "\<not> rs_cancelled s"
  shows "\<exists>ls' s'. runs G s ls' s' \<and> rs_phase s' = Returned \<and> \<not> stop_requested ls' \<and> length (ticks (ls @ ls')) = instants (rcv_cfg rc)"
proof (cases "rs_phase s")
  case (Running t)
  then show ?thesis using running_completes [OF ok inv clock _ nc] by blast
next
  case (Waiting t)
  note step = lifecycle.ticker [OF Waiting, of G]
  define s1 where "s1 = s\<lparr>rs_phase := Running (add_time t (interval (rcv_cfg (rs_receiver s))))\<rparr>"
  have "\<exists>ls' s'. runs G s1 ls' s' \<and> rs_phase s' = Returned \<and> \<not> stop_requested ls' \<and> length (ticks ((ls @ [Ticker]) @ ls')) = instants (rcv_cfg rc)"
    by (rule running_completes [OF ok lifecycle_inv [OF step inv, folded s1_def] clock_step [OF ok clock step, folded s1_def]])
      (simp_all add: s1_def nc)
  then show ?thesis using runs_Cons [OF step] unfolding s1_def [symmetric] by (fastforce simp: stop_requested_def)
next
  case Sleeping
  from runs_one [OF lifecycle.wake [OF this], of G] show ?thesis
    using clock Sleeping by (intro exI conjI) (auto simp: stop_requested_def clock_inv_def)
qed (use act in simp_all)

text \<open>
  C3. The loop ends, having produced every instant once. In every run of a new receiver the
  intervals are those of the start time and its successors by the interval, in order, without
  gaps or repetition, and never more than lie before the end time; and as long as the loop is
  active and nobody has asked it to stop it can go on, through the waits for the ticker in real
  time and the sleep before the exit, to a state where it has returned after exactly all of
  them, the channel is closed, and the fatal status is reported if and only if
  \<open>exit_after_end\<close> asks for it.
\<close>

theorem loop_produces_instants:
  assumes "receiver_ready G rc" and "log_count (rcv_progress rc) = 0" and "times_ok (rcv_cfg rc)" and "runs G (created rc) ls s"
  shows "ticks ls = map (instant (rcv_cfg rc)) [0..<length (ticks ls)] \<and> length (ticks ls) \<le> instants (rcv_cfg rc) \<and>
    (active (rs_phase s) \<and> \<not> stop_requested ls \<longrightarrow>
      (\<exists>ls' s'. runs G s ls' s' \<and> rs_phase s' = Returned \<and> rs_closed s' \<and> rs_fatal s' = exit_after_end (rcv_cfg rc) \<and>
         ticks (ls @ ls') = map (instant (rcv_cfg rc)) [0..<instants (rcv_cfg rc)]))"
proof -
  have clock: "clock_inv (rcv_cfg rc) ls s" by (rule runs_clock [OF assms(4) refl assms(3)])
  have inv: "run_inv G rc s" by (rule runs_inv [OF assms(4) created_inv [OF assms(1,2)]])
  have "\<exists>ls' s'. runs G s ls' s' \<and> rs_phase s' = Returned \<and> rs_closed s' \<and> rs_fatal s' = exit_after_end (rcv_cfg rc) \<and>
      ticks (ls @ ls') = map (instant (rcv_cfg rc)) [0..<instants (rcv_cfg rc)]"
    if "active (rs_phase s)" "\<not> stop_requested ls"
  proof -
    have "\<not> rs_cancelled s" using clock that(2) by (auto simp: clock_inv_def)
    from loop_completes [OF assms(3) inv clock that(1) this]
    obtain ls' s' where run: "runs G s ls' s'" and ret: "rs_phase s' = Returned" "\<not> stop_requested ls'"
      and len: "length (ticks (ls @ ls')) = instants (rcv_cfg rc)" by blast
    have "clock_inv (rcv_cfg rc) (ls @ ls') s'" by (rule runs_clock_from [OF run assms(3) clock])
    then have "rs_fatal s' = exit_after_end (rcv_cfg rc)" "ticks (ls @ ls') = map (instant (rcv_cfg rc)) [0..<instants (rcv_cfg rc)]"
      using ret that(2) len by (auto simp: clock_inv_def)
    moreover have "rs_closed s'" using runs_inv [OF run inv] ret(1) by (simp add: run_inv_def)
    ultimately show ?thesis using run ret(1) by blast
  qed
  then show ?thesis using clock by (auto simp: clock_inv_def)
qed

subsection \<open>Reports of progress\<close>

fun percents :: "message list \<Rightarrow> int list" where
  "percents [] = []"
| "percents (GeneratingLogs p n v # ms) = p # percents ms"
| "percents (m # ms) = percents ms"

lemma percents_append [simp]: "percents (xs @ ys) = percents xs @ percents ys"
  by (induction xs rule: percents.induct) simp_all

text \<open>Every report is made at an instant of its own, later than those before it.\<close>

definition report_inv :: "config \<Rightarrow> label list \<Rightarrow> run_state \<Rightarrow> bool" where
  "report_inv cfg ls s \<longleftrightarrow> (\<exists>ks. percents (rs_log s) = map (\<lambda>k. progress_percent cfg (instant cfg k)) ks \<and>
     sorted_wrt (<) ks \<and> set ks \<subseteq> {..<length (ticks ls)})"

lemma report_messages: "report_progress cfg p t next_log now now' = (next_log', msgs) \<Longrightarrow>
   msgs = [] \<or> msgs = [GeneratingLogs (progress_percent cfg t) (log_count p) (logsPerSecond p now')]"
  by (auto simp: report_progress_def split: if_splits)

lemma report_step:
  assumes ok: "times_ok cfg" and clock: "clock_inv cfg ls s" and inv: "report_inv cfg ls s" and step: "lifecycle G s l s'"
  shows "report_inv cfg (ls @ [l]) s'"
proof -
  obtain ks where ks: "percents (rs_log s) = map (\<lambda>k. progress_percent cfg (instant cfg k)) ks" "sorted_wrt (<) ks"
    "set ks \<subseteq> {..<length (ticks ls)}" using inv by (auto simp: report_inv_def)
  then have weak: "set ks \<subseteq> {..<length (ticks (ls @ [l]))}" by auto
  show ?thesis
    using step
  proof cases
    case (tick t cfg' now now' next_log msgs rc sent)
    note run = clock_running [OF ok clock tick(3)]
    from report_messages [OF tick(7)] show ?thesis
    proof
      assume "msgs = []"
      then show ?thesis using ks weak unfolding report_inv_def by (intro exI [of _ ks]) (simp add: tick(2))
    next
      assume "msgs = [GeneratingLogs (progress_percent cfg' t) (log_count (rcv_progress (rs_receiver s)))
        (logsPerSecond (rcv_progress (rs_receiver s)) now')]"
      then show ?thesis using ks run unfolding report_inv_def
        by (intro exI [of _ "ks @ [length (ticks ls)]"]) (auto simp: tick(1,2,4) sorted_wrt_append)
    qed
  qed (use ks weak in \<open>auto simp: report_inv_def shutdown_messages_def intro!: exI [of _ ks]\<close>)
qed

lemma runs_report: "runs G s0 ls s \<Longrightarrow> s0 = created rc \<Longrightarrow> times_ok (rcv_cfg rc) \<Longrightarrow> report_inv (rcv_cfg rc) ls s"
proof (induction rule: runs.induct)
  case none
  then show ?case by (simp add: report_inv_def created_def)
next
  case (more s0 ls s l s')
  then show ?case using report_step runs_clock by blast
qed

lemma instant_percent:
  assumes "times_ok cfg" and "j \<le> k" and "k < instants cfg"
  shows "0 \<le> progress_percent cfg (instant cfg j)" "progress_percent cfg (instant cfg k) \<le> 100"
    "progress_percent cfg (instant cfg j) \<le> progress_percent cfg (instant cfg k)"
proof -
  have i: "0 \<le> interval cfg" using assms(1) by (simp add: times_ok_def)
  then have lo: "unix_ns (start_time cfg) \<le> unix_ns (instant cfg n)" for n by (simp add: instant_def add_time_def)
  have le: "unix_ns (instant cfg j) \<le> unix_ns (instant cfg k)"
    using i assms(2) by (simp add: instant_def add_time_def mult_right_mono)
  have hi: "unix_ns (instant cfg n) < unix_ns (end_time cfg)" if "n \<le> k" for n
    using instant_before [OF assms(1)] that assms(3) by simp
  show "0 \<le> progress_percent cfg (instant cfg j)" "progress_percent cfg (instant cfg k) \<le> 100"
    using progress_percent_range [OF lo hi] assms(2) by simp_all
  show "progress_percent cfg (instant cfg j) \<le> progress_percent cfg (instant cfg k)"
    by (rule progress_percent_mono [OF lo le hi]) simp
qed

text \<open>
  C26. The reports of progress. In every run of a new receiver the reported percentages lie
  between 0 and 100 and never decrease; and an iteration of the loop reports at most once, the
  number of records that the consumer has received up to then, where no scenario is logged by
  the caller after another has started workers.
\<close>

theorem progress_reports:
  assumes "receiver_ready G rc" and "log_count (rcv_progress rc) = 0" and "times_ok (rcv_cfg rc)" and "runs G (created rc) ls s"
  shows "sorted (percents (rs_log s)) \<and> set (percents (rs_log s)) \<subseteq> {0..100} \<and>
    (\<forall>t s'. lifecycle G s (Tick t) s' \<and> rs_log s' \<noteq> rs_log s \<longrightarrow>
      (\<exists>p n v. rs_log s' = rs_log s @ [GeneratingLogs p n v] \<and>
         (race_free (rcv_scenarios rc) \<longrightarrow> n = of_nat (\<Sum>b\<leftarrow>rs_sent s. LogRecordCount b))))"
proof -
  let ?p = "\<lambda>k. progress_percent (rcv_cfg rc) (instant (rcv_cfg rc) k)"
  have le: "length (ticks ls) \<le> instants (rcv_cfg rc)" using runs_clock [OF assms(4) refl assms(3)] by (simp add: clock_inv_def)
  obtain ks where ks: "percents (rs_log s) = map ?p ks" "sorted_wrt (<) ks" "set ks \<subseteq> {..<length (ticks ls)}"
    using runs_report [OF assms(4) refl assms(3)] by (auto simp: report_inv_def)
  note p = instant_percent [OF assms(3)]
  have k: "k < instants (rcv_cfg rc)" if "k \<in> set ks" for k using that ks(3) le by fastforce
  have "sorted (percents (rs_log s))"
    unfolding ks(1) sorted_map using ks(2) k by (intro sorted_wrt_mono_rel [OF _ ks(2)]) (simp add: p(3))
  moreover have "set (percents (rs_log s)) \<subseteq> {0..100}" using k p(1,2) [OF order_refl] by (auto simp: ks(1))
  moreover have "race_free (rcv_scenarios rc) \<longrightarrow> log_count (rcv_progress (rs_receiver s)) = of_nat (\<Sum>b\<leftarrow>rs_sent s. LogRecordCount b)"
    using runs_inv [OF assms(4) created_inv [OF assms(1,2)]] same_race_free
    unfolding run_inv_def accounted_def sent_entries_length by blast
  ultimately show ?thesis by (auto dest!: report_messages)
qed

subsection \<open>Shutting down\<close>

lemma returned_step: "lifecycle G s l s' \<Longrightarrow> rs_phase s = Returned \<Longrightarrow>
   rs_phase s' = Returned \<and> rs_sent s' = rs_sent s \<and> rs_receiver s' = rs_receiver s"
  by (cases rule: lifecycle.cases) auto

lemma returned_runs: "runs G s ls s' \<Longrightarrow> rs_phase s = Returned \<Longrightarrow>
   rs_phase s' = Returned \<and> rs_sent s' = rs_sent s \<and> rs_receiver s' = rs_receiver s"
  by (induction rule: runs.induct) (auto dest: returned_step)

text \<open>
  C27. \<open>Shutdown\<close> waits for the loop. It logs its messages only when the loop has returned or
  was never started; they are about the statistics at that moment, and once the loop has
  returned these never change again, nor is another batch sent.
\<close>

theorem shutdown_waits:
  assumes "receiver_ready G rc" and "log_count (rcv_progress rc) = 0" and "runs G (created rc) ls s" and "lifecycle G s Summarize s'"
  shows "\<not> active (rs_phase s) \<and> (\<exists>now now'. rs_log s' = rs_log s @ shutdown_messages G (rs_receiver s) now now') \<and>
    (rs_phase s = Returned \<longrightarrow> (\<forall>ls' s''. runs G s' ls' s'' \<longrightarrow> rs_sent s'' = rs_sent s \<and>
       run_summary G (rs_receiver s'') = run_summary G (rs_receiver s)))"
proof -
  have inv: "run_inv G rc s" by (rule runs_inv [OF assms(3) created_inv [OF assms(1,2)]])
  have closed: "rs_closed s" and log: "\<exists>now now'. rs_log s' = rs_log s @ shutdown_messages G (rs_receiver s) now now'"
    using assms(4) by (fastforce elim!: SummarizeE)+
  have "rs_sent s'' = rs_sent s \<and> run_summary G (rs_receiver s'') = run_summary G (rs_receiver s)"
    if "rs_phase s = Returned" "runs G s' ls' s''" for ls' s''
    using returned_step [OF assms(4) that(1)] returned_runs [OF that(2)] by simp
  then show ?thesis using inv closed log by (simp add: run_inv_def)
qed

text \<open>After a call of \<open>Shutdown\<close> the loop begins no interval, and soon returns.\<close>

definition winding_down :: "run_state \<Rightarrow> bool" where
  "winding_down s \<longleftrightarrow> rs_stop s \<noteq> NotCalled \<and> (rs_phase s = NotStarted \<or> rs_cancelled s)"

lemma winding_step: "lifecycle G s l s' \<Longrightarrow> winding_down s \<Longrightarrow> winding_down s' \<and> ticks [l] = []"
  by (cases rule: lifecycle.cases) (auto simp: winding_down_def)

lemma winding_runs: "runs G s ls s' \<Longrightarrow> winding_down s \<Longrightarrow> winding_down s' \<and> ticks ls = []"
  by (induction rule: runs.induct) (auto dest: winding_step)

lemma cancelled_returns:
  assumes "active (rs_phase s)" and "rs_cancelled s"
  shows "\<exists>ls' s'. runs G s ls' s' \<and> rs_phase s' = Returned \<and> rs_stop s' = rs_stop s \<and> length ls' \<le> 3"
proof (cases "rs_phase s")
  case (Running t)
  then show ?thesis using loop_exits [OF Running, of G] assms(2) by fastforce
next
  case (Waiting t)
  note step = lifecycle.ticker [OF Waiting, of G]
  have "rs_phase (s\<lparr>rs_phase := Running (add_time t (interval (rcv_cfg (rs_receiver s))))\<rparr>) = Running (add_time t (interval (rcv_cfg (rs_receiver s))))"
    by simp
  from loop_exits [OF this, of G] obtain ls' s' where
    "runs G (s\<lparr>rs_phase := Running (add_time t (interval (rcv_cfg (rs_receiver s))))\<rparr>) ls' s'"
    "rs_phase s' = Returned" "rs_stop s' = rs_stop s" "length ls' \<le> 2" using assms(2) by auto
  then show ?thesis using runs_Cons [OF step] by fastforce
next
  case Sleeping
  from runs_one [OF lifecycle.wake [OF this], of G] show ?thesis by (intro exI conjI, assumption) auto
qed (use assms(1) in simp_all)

text \<open>
  C6. \<open>Shutdown\<close> returns. Once it has been called, at whatever point of a run, the loop begins
  no further interval, and the call can complete: at most four more steps of the loop, one of
  them at most the ticker and one the end of a sleep, lead to a state in which it has returned.
\<close>

theorem shutdown_returns:
  assumes "receiver_ready G rc" and "log_count (rcv_progress rc) = 0" and "runs G (created rc) ls s" and "rs_stop s = Stopping"
  shows "(\<forall>ls' s'. runs G s ls' s' \<longrightarrow> ticks ls' = []) \<and> (\<exists>ls' s'. runs G s ls' s' \<and> rs_stop s' = Stopped \<and> length ls' \<le> 4)"
proof -
  have inv: "run_inv G rc s" by (rule runs_inv [OF assms(3) created_inv [OF assms(1,2)]])
  then have wind: "winding_down s" using assms(4) by (simp add: run_inv_def winding_down_def)
  obtain ls1 s1 where s1: "runs G s ls1 s1" "rs_stop s1 = Stopping" "\<not> active (rs_phase s1)" "length ls1 \<le> 3"
  proof (cases "active (rs_phase s)")
    case True
    then have "rs_cancelled s" using wind by (auto simp: winding_down_def)
    from cancelled_returns [OF True this, of G] that assms(4) show ?thesis by fastforce
  qed (use runs.none assms(4) that in fastforce)
  have "rs_closed s1" using runs_inv [OF s1(1) inv] s1(3) by (simp add: run_inv_def)
  from runs.more [OF s1(1) lifecycle.summarize [OF s1(2) this]]
  have "\<exists>ls' s'. runs G s ls' s' \<and> rs_stop s' = Stopped \<and> length ls' \<le> 4" using s1(4) by (intro exI conjI) auto
  then show ?thesis using winding_runs wind by blast
qed

subsection \<open>A small receiver\<close>

definition sample_receiver :: logs_gen_receiver where
  "sample_receiver =
     \<lparr>rcv_cfg = sample_config, base_rand = new_rng [4, 7], rcv_scenarios = [sample_ls], needle_occurrences = [],
      rcv_stats = NewShardedLogStats 3 [0, 1], rcv_progress = newLogsProgress zero_time\<rparr>"

lemma sample_receiver_ready: "receiver_ready sample_lib sample_receiver" "log_count (rcv_progress sample_receiver) = 0"
proof -
  have "needles (ls_config sample_ls) = []" by (simp add: sample_ls_def sample_scenario_def)
  then show "receiver_ready sample_lib sample_receiver"
    using sample_workers [of "[0, 1]"] by (simp add: receiver_ready_def sample_receiver_def sample_ls_ready)
qed (simp add: sample_receiver_def newLogsProgress_def)

lemma sample_times_ok: "times_ok sample_config" "instants sample_config = 10"
  by (simp_all add: times_ok_def instants_def sample_config_def create_default_config_def second_ns_def i64_def)

lemma sample_started:
  "\<exists>s. runs sample_lib (created sample_receiver) [Start] s \<and> rs_phase s = Running (start_time sample_config) \<and>
     rs_receiver s = sample_receiver \<and> \<not> rs_cancelled s \<and> rs_stop s = NotCalled \<and> rs_log s = []"
proof -
  have "rs_phase (created sample_receiver) = NotStarted" "rs_stop (created sample_receiver) = NotCalled"
    "0 < interval (rcv_cfg (rs_receiver (created sample_receiver)))"
    using sample_times_ok(1) by (simp_all add: created_def sample_receiver_def times_ok_def)
  from runs_one [OF lifecycle.start [OF this(1,2) refl this(3), of sample_lib]] show ?thesis
    by (intro exI conjI) (auto simp: created_def sample_receiver_def)
qed

lemma sample_ticked:
  "\<exists>s. runs sample_lib (created sample_receiver) [Start, Tick (start_time sample_config)] s \<and> rs_stop s = NotCalled \<and>
     (\<exists>n v. rs_log s = [GeneratingLogs 0 n v])"
proof -
  obtain s where s: "runs sample_lib (created sample_receiver) [Start] s" "rs_phase s = Running (start_time sample_config)"
    "rs_receiver s = sample_receiver" "\<not> rs_cancelled s" "rs_stop s = NotCalled" "rs_log s = []" using sample_started by blast
  have lt: "unix_nano (start_time sample_config) < unix_nano (end_time (rcv_cfg (rs_receiver s)))"
    unfolding s(3) by (simp add: sample_receiver_def sample_config_def create_default_config_def unix_nano_def second_ns_def w64_id)
  obtain rc' sent' where i: "interval_step sample_lib (rs_receiver s) (rs_sent s) (start_time sample_config) rc' sent'"
    using interval_progress sample_receiver_ready(1) s(3) by metis
  have "after_time (add_time (rs_next_log s) 1) (rs_next_log s)" by (simp add: after_time_def add_time_def)
  then have "report_progress (rcv_cfg (rs_receiver s)) (rcv_progress (rs_receiver s)) (start_time sample_config) (rs_next_log s)
      (add_time (rs_next_log s) 1) zero_time = (add_time (rs_next_log s) report_interval,
        [GeneratingLogs (progress_percent (rcv_cfg (rs_receiver s)) (start_time sample_config))
          (log_count (rcv_progress (rs_receiver s))) (logsPerSecond (rcv_progress (rs_receiver s)) zero_time)])"
    by (simp add: report_progress_def)
  moreover have "progress_percent (rcv_cfg (rs_receiver s)) (start_time sample_config) = 0"
    unfolding s(3) using progress_percent_start [of sample_config]
    by (simp add: sample_receiver_def sample_config_def create_default_config_def second_ns_def)
  ultimately show ?thesis
    using runs.more [OF s(1) lifecycle.tick [OF s(2) refl lt s(4) _ i]] s(5,6) by fastforce
qed

lemma summary_counts_sent_witness:
  "\<exists>s. runs sample_lib (created sample_receiver) [Start, Tick (start_time sample_config)] s \<and>
    total_logs (Merge (rcv_stats (rs_receiver s))) = of_nat (length (sent_entries (rs_sent s))) \<and>
    log_count (rcv_progress (rs_receiver s)) = of_nat (\<Sum>b\<leftarrow>rs_sent s. LogRecordCount b)"
proof -
  obtain s where s: "runs sample_lib (created sample_receiver) [Start, Tick (start_time sample_config)] s"
    using sample_ticked by blast
  have "rcv_stats sample_receiver = NewShardedLogStats 3 [0, 1]" "race_free (rcv_scenarios sample_receiver)"
    by (simp_all add: sample_receiver_def)
  then show ?thesis using summary_counts_sent [OF sample_receiver_ready _ s, of 3 "[0, 1]"] s by blast
qed

lemma loop_produces_instants_witness:
  "\<exists>ls' s'. runs sample_lib (created sample_receiver) (Start # ls') s' \<and> rs_phase s' = Returned \<and> length (ticks ls') = 10"
proof -
  obtain s where s: "runs sample_lib (created sample_receiver) [Start] s" "rs_phase s = Running (start_time sample_config)"
    using sample_started by blast
  have ok: "times_ok (rcv_cfg sample_receiver)" "instants (rcv_cfg sample_receiver) = 10"
    using sample_times_ok by (simp_all add: sample_receiver_def)
  have "active (rs_phase s) \<and> \<not> stop_requested [Start]" by (simp add: s(2) stop_requested_def)
  then obtain ls' s' where "runs sample_lib s ls' s'" "rs_phase s' = Returned"
    "ticks ([Start] @ ls') = map (instant (rcv_cfg sample_receiver)) [0..<10]"
    using loop_produces_instants [OF sample_receiver_ready ok(1) s(1)] ok(2) by auto
  moreover from this have "length (ticks ([Start] @ ls')) = 10" by simp
  ultimately show ?thesis using runs_append [OF _ s(1)] by fastforce
qed

lemma progress_reports_witness:
  "\<exists>s. runs sample_lib (created sample_receiver) [Start, Tick (start_time sample_config)] s \<and> percents (rs_log s) = [0] \<and>
     sorted (percents (rs_log s)) \<and> set (percents (rs_log s)) \<subseteq> {0..100}"
proof -
  obtain s n v where s: "runs sample_lib (created sample_receiver) [Start, Tick (start_time sample_config)] s"
    "rs_log s = [GeneratingLogs 0 n v]" using sample_ticked by blast
  have "times_ok (rcv_cfg sample_receiver)" using sample_times_ok by (simp add: sample_receiver_def)
  from progress_reports [OF sample_receiver_ready this s(1)] show ?thesis using s by (intro exI [of _ s]) simp
qed

lemma sample_stopping:
  "\<exists>s. runs sample_lib (created sample_receiver) [Shutdown] s \<and> rs_stop s = Stopping \<and> rs_closed s"
proof -
  have "rs_stop (created sample_receiver) = NotCalled" by (simp add: created_def)
  from runs_one [OF lifecycle.shutdown [OF this, of sample_lib]] show ?thesis
    by (intro exI conjI) (auto simp: created_def)
qed

lemma shutdown_waits_witness:
  "\<exists>s s'. runs sample_lib (created sample_receiver) [Shutdown] s \<and> lifecycle sample_lib s Summarize s' \<and> \<not> active (rs_phase s)"
proof -
  obtain s where s: "runs sample_lib (created sample_receiver) [Shutdown] s" "rs_stop s = Stopping" "rs_closed s"
    using sample_stopping by blast
  note step = lifecycle.summarize [OF s(2,3), of sample_lib]
  from shutdown_waits [OF sample_receiver_ready s(1) step] s(1) step show ?thesis by blast
qed

lemma shutdown_returns_witness:
  "\<exists>s ls' s'. runs sample_lib (created sample_receiver) [Start, Tick (start_time sample_config), Shutdown] s \<and>
     runs sample_lib s ls' s' \<and> rs_stop s' = Stopped \<and> ticks ls' = []"
proof -
  obtain s0 where s0: "runs sample_lib (created sample_receiver) [Start, Tick (start_time sample_config)] s0" "rs_stop s0 = NotCalled"
    using sample_ticked by blast
  from runs.more [OF s0(1) lifecycle.shutdown [OF s0(2)]]
  obtain s where s: "runs sample_lib (created sample_receiver) [Start, Tick (start_time sample_config), Shutdown] s" "rs_stop s = Stopping"
    by fastforce
  from shutdown_returns [OF sample_receiver_ready s] s(1) show ?thesis by blast
qed

end
