(* ===== verification/Spec2Isabelle.thy ===== *)
theory Spec2Isabelle
  imports LogStats Volume IPPool LongTail LogGen ArgGens Builder Traces CrossCutting ProfileNginx ProfileMySQL ProfileRedis
    ProfileGoApp ProfileProxy Profiles LogTmpl Lifecycle
begin

text \<open>
  Verification of the synthetic log generator, an OpenTelemetry receiver written in Go. Paths
  below are relative to \<open>src/logsgenreceiver\<close>.

  \<^bold>\<open>The program.\<close> A configuration lists scenarios. For each of them the constructor renders one
  resource per instance from a template, chooses a profile (the messages of an application),
  prepares it, and allocates the shards of the run statistics. \<open>Start\<close> launches a goroutine that
  walks the configured time range in steps of the interval. At every instant \<open>produceLogs\<close>
  computes how many records each instance owes and generates them, either itself or in worker
  goroutines, and hands batches of them to the next consumer. Each record is counted on the
  shard of its goroutine and may be replaced by a needle. \<open>Shutdown\<close> cancels the loop, waits
  for it, merges the shards and logs the summary.

  \<^bold>\<open>Theories, and the code they model.\<close>

  \<^item> \<open>Prelude\<close>, \<open>GoFloat\<close>, \<open>GoRand\<close>, \<open>GoText\<close>, \<open>GoNet\<close>: what the receiver uses of the language and its
    standard library. Panics are \<open>None\<close>; integers wrap at 64 bits (\<open>w64\<close>) or are words; a
    \<open>float64\<close> is a rational or a special value, with rounding; the generator of random numbers is
    the sequence of values its source delivers, and each method is derived from it as in the
    library; strings are bytes; maps are lists of pairs with distinct keys.
  \<^item> \<open>LogStats\<close>: \<open>internal/logstats/logstats.go\<close>. Counters, values of tracked fields,
    \<open>Record\<close>, \<open>Merge\<close>, \<open>Summary\<close>.
  \<^item> \<open>Config\<close>: \<open>config.go\<close> and \<open>builtin_profiles.go\<close>. Data, validation with its errors, scenarios of a
    built-in profile, defaults of the daily curve.
  \<^item> \<open>Volume\<close>: the functions of \<open>receiver.go\<close> that decide how many records an instance owes.
  \<^item> \<open>LogGen\<close>, \<open>ArgGens\<close>, \<open>IPPool\<close>: \<open>internal/loggen/loggen.go\<close>. Severity, preparation of a
    profile, the formatter, generation of a record; generators of operands; pools of addresses.
  \<^item> \<open>LongTail\<close>: \<open>internal/loggen/longtail.go\<close>, rare fields.
  \<^item> \<open>Builder\<close>, \<open>Traces\<close>: \<open>internal/loggen/traces.go\<close>, texts built up to a length.
  \<^item> \<open>CrossCutting\<close>: \<open>internal/loggen/crosscutting.go\<close>, attributes of errors.
  \<^item> \<open>ProfileNginx\<close>, \<open>ProfileMySQL\<close>, \<open>ProfileRedis\<close>, \<open>ProfileGoApp\<close>, \<open>ProfileProxy\<close>, \<open>Profiles\<close>: the files of these
    names in \<open>internal/loggen\<close> and \<open>profiles.go\<close>, message by message.
  \<^item> \<open>LogTmpl\<close>: \<open>internal/logstmpl/logstmpl.go\<close>, resources from templates.
  \<^item> \<open>Records\<close>: \<open>appendInstanceLogs\<close> of \<open>receiver.go\<close> and what it calls.
  \<^item> \<open>Interleave\<close>, \<open>Receiver\<close>, \<open>Schedules\<close>: \<open>produceLogs\<close> of \<open>receiver.go\<close> and its goroutines.
  \<^item> \<open>Progress\<close>: \<open>logsProgress\<close> of \<open>receiver.go\<close>, reports and messages.
  \<^item> \<open>Construct\<close>: \<open>newLogsGenReceiver\<close>.
  \<^item> \<open>Lifecycle\<close>: \<open>createLogsReceiver\<close> of \<open>factory.go\<close>, \<open>Start\<close>, the loop and \<open>Shutdown\<close>.

  \<^bold>\<open>State.\<close> Generators are threaded explicitly. A call of \<open>appendInstanceLogs\<close> touches shared state
  (shards, counters of needles, the count of the interval, the consumer) only by \<open>event\<close>s, and
  its model returns the list of them. A goroutine is then a list of events, an interval a list
  of \<open>action\<close>s of the caller (its own events, and workers it starts), \<open>schedule\<close> relates it to the
  possible interleavings, and \<open>apply_events\<close> executes one of them on the shared state. The
  addition \<open>totalLogs += n\<close> of the caller is two events, a read and a write; that of a worker is
  one atomic event. \<open>run_state\<close> holds the receiver, the phase of the loop, the cancellation of its context,
  the channel that \<open>Shutdown\<close> waits for, the call of \<open>Shutdown\<close>, what the consumer has received, and the
  messages to the log; \<open>lifecycle\<close> is its step relation. An iteration of the loop is one step with all
  the events of its interval, since nothing outside the interval touches the state until
  \<open>Shutdown\<close> has seen the channel closed; the waits for the ticker and before the exit are phases
  of their own, in which the loop does not look at its context. The wall clock is not part of
  the state: each reading is arbitrary.

  \<^bold>\<open>What is shown.\<close> \<open>run_inv\<close> is the invariant of every run: the receiver stays ready and the
  merged shards count the records sent, which the summary therefore reports. The loop produces
  each instant once and returns; \<open>Shutdown\<close> returns, and no interval begins after it is called.
  A validated configuration gives a receiver that is ready, provided that its networks have room for a
  host and its templates render resources, without which the constructor can panic; a ready receiver never
  panics in an interval, its goroutines own their shards, and so all schedules agree on everything but
  the order of the batches. The exception is the count of an interval: it is exact when no scenario is logged by
  the caller after one with workers, and for a scenario with workers followed by one without some schedule
  loses the records of the workers.
  A scenario implements its specification, one block of records for each instance in order,
  for every number of workers; a batch carries the requested records, stamped within the
  interval. Generation is total on well-formed profiles, which all built-in ones are; its
  fast formatter agrees with the plain one, and its prepared path with the reference path, on all
  built-in profiles but the Go application's. A severity is drawn in exactly its share of the values that
  the source of random numbers delivers. The other groups concern
  validation, the bounds of the volume, the distribution of severities, statistics, rare
  fields and long texts. Theorems of kind error state where the code departs from its
  purpose.

  \<^bold>\<open>Interfaces.\<close> Each is a locale, interpreted on the model.

  \<^item> \<open>tally\<close> (\<open>LogStats\<close>): a map of counters with an increment; the counters of a shard.
  \<^item> \<open>line_builder\<close>, \<open>separated_items\<close> (\<open>Builder\<close>): a body that appends at least one byte, for the loops of
    \<open>Traces\<close> and \<open>CrossCutting\<close>.
  \<^item> \<open>observer\<close>, \<open>commuting_observer\<close> (\<open>Interleave\<close>): a part of the shared state that one goroutine owns, or whose
    updates commute; each shard, the needles, the atomic count.

  \<^bold>\<open>Loops and bounds.\<close> No definition uses fuel. Loops over slices are structural. The loops
  that fill a text are \<open>fill_until\<close>, a partial function whose value exists by
  the termination theorem of \<open>Traces\<close>. A rejection loop of the generator ends because a run reads a finite sequence of values and 0,
  which it accepts, follows. The loop over time is a step relation;
  \<open>times_ok\<close> asks that the range and the interval fit in 64-bit nanoseconds.

  \<^bold>\<open>Parameters.\<close> \<open>golib\<close> has the functions of the standard library whose results the program
  does not rely on: cosine, exponential, normal and Zipf variates, the source of a
  seed, formats of times and floats, Unicode case and spaces, IPv6 networks, and \<open>fmt.Sprintf\<close> beyond
  the verbs that are modelled. \<open>tmpl_lib\<close> has the template, YAML, JSON and UUID libraries. What a theorem
  needs of them is a hypothesis that states their documentation: the cosine lies in [-1, 1] (\<open>cos_ok\<close>),
  and a Zipf variate does not exceed its maximum (\<open>zipf_ok\<close>). The record \<open>sample_lib\<close>
  keeps these promises. Nothing is assumed of normal variates: the theorem on timestamps says what
  happens when a jitter does not fit an \<open>int64\<close>. Nor is anything assumed of the template libraries: that the
  templates of a configuration render resources is a condition on the configuration
  (\<open>renders_resources\<close>), and the constructor panics on one whose document has none.

  \<^bold>\<open>Not modelled.\<close> Calls that report metrics (\<open>obsreport\<close>) and the error of the consumer, which
  the code only passes to them; \<open>NewFactory\<close> and generated constants, which are registrations
  with the collector; the embedded templates and YAML files, which are data; the mutex that protects
  the fields \<open>cancel\<close> and \<open>done\<close>, since the collector does not call \<open>Start\<close> and \<open>Shutdown\<close> at the
  same time.
\<close>

end
